(* ===== verification/Prelude.thy ===== *)
theory Prelude
  imports "HOL-Library.Word" "HOL-Library.List_Lexorder" "HOL-Library.Char_ord"
begin

section \<open>Prelude: integers, strings, errors and their shared lemmas\<close>

text \<open>
  What every component of the daemon shares: the machine integers, Rust's \<open>Result\<close> as a
  sum, Rust's \<open>String\<close> as the list of its UTF-8 bytes (which is what it is in memory),
  the decimal and list renderings \<open>format!\<close> uses, I/O errors as values, and the
  UTF-8 decision procedure of the standard library.
\<close>

type_synonym u8 = "8 word"
type_synonym u32 = "32 word"
type_synonym u64 = "64 word"

abbreviation Ok :: "'a \<Rightarrow> 'e + 'a" where "Ok \<equiv> Inr"
abbreviation Err :: "'e \<Rightarrow> 'e + 'a" where "Err \<equiv> Inl"

named_theorems str_simps \<open>evaluation of the string helpers on symbolic strings\<close>

subsection \<open>Strings\<close>

definition starts_with :: "char \<Rightarrow> string \<Rightarrow> bool" where
  "starts_with c s = (case s of [] \<Rightarrow> False | x # _ \<Rightarrow> x = c)"

definition contains :: "char \<Rightarrow> string \<Rightarrow> bool" where
  "contains c s = (c \<in> set s)"

lemma starts_with_simps [simp, str_simps]:
  "\<not> starts_with c []"
  "starts_with c (x # xs) \<longleftrightarrow> x = c"
  by (simp_all add: starts_with_def)

definition is_ascii_digit :: "char \<Rightarrow> bool" where
  "is_ascii_digit c = (CHR ''0'' \<le> c \<and> c \<le> CHR ''9'')"

definition is_ascii_alphanumeric :: "char \<Rightarrow> bool" where
  "is_ascii_alphanumeric c =
     (is_ascii_digit c \<or> (CHR ''A'' \<le> c \<and> c \<le> CHR ''Z'') \<or> (CHR ''a'' \<le> c \<and> c \<le> CHR ''z''))"

text \<open>The decimal rendering of an unsigned integer, as \<open>{}\<close> prints it.\<close>

definition digit :: "nat \<Rightarrow> char" where
  "digit d = char_of (48 + d)"

fun show_nat :: "nat \<Rightarrow> string" where
  "show_nat n = (if n < 10 then [digit n] else show_nat (n div 10) @ [digit (n mod 10)])"

declare show_nat.simps [simp del]

definition undigit :: "char \<Rightarrow> nat" where
  "undigit c = of_char c - 48"

definition read_nat :: "string \<Rightarrow> nat" where
  "read_nat s = foldl (\<lambda>n c. 10 * n + undigit c) 0 s"

lemma undigit_digit: "d < 10 \<Longrightarrow> undigit (digit d) = d"
  by (simp add: undigit_def digit_def)

lemma read_show_nat [simp]: "read_nat (show_nat n) = n"
proof (induction n rule: show_nat.induct)
  case (1 n)
  show ?case
  proof (cases "n < 10")
    case True
    then show ?thesis by (subst show_nat.simps) (simp add: read_nat_def undigit_digit)
  next
    case False
    with 1 have "read_nat (show_nat (n div 10)) = n div 10" by simp
    with False show ?thesis
      by (subst show_nat.simps) (simp add: read_nat_def undigit_digit)
  qed
qed

lemma show_nat_inject [simp]: "show_nat m = show_nat n \<longleftrightarrow> m = n"
  by (metis read_show_nat)

definition show_u64 :: "u64 \<Rightarrow> string" where
  "show_u64 w = show_nat (unat w)"

definition show_u32 :: "u32 \<Rightarrow> string" where
  "show_u32 w = show_nat (unat w)"

lemma show_u64_inject [simp]: "show_u64 v = show_u64 w \<longleftrightarrow> v = w"
  by (simp add: show_u64_def word_unat_eq_iff)

text \<open>The \<open>{:?}\<close> rendering of a list of integers: \<open>[1, 99]\<close>.\<close>

fun join_comma :: "string list \<Rightarrow> string" where
  "join_comma [] = []"
| "join_comma [x] = x"
| "join_comma (x # y # xs) = x @ '', '' @ join_comma (y # xs)"

definition debug_u64s :: "u64 list \<Rightarrow> string" where
  "debug_u64s vs = ''['' @ join_comma (map show_u64 vs) @ '']''"

subsection \<open>I/O errors\<close>

text \<open>The kinds the program tells apart; every other kind is \<open>OtherKind\<close>.\<close>

datatype io_kind =
    NotFound | Interrupted | UnexpectedEof | WouldBlock | InvalidInput | InvalidData
  | WriteZero | Unsupported | PermissionDenied | OtherKind

datatype io_error = IoError (io_kind: io_kind) (io_text: string)

subsection \<open>UTF-8\<close>

text \<open>
  One step of the standard library's UTF-8 scan: whether the bytes at the front are one
  well-formed character, and how many bytes the step takes. For an ill-formed front it
  takes the longest prefix of a well-formed character, which is what a lossy conversion
  replaces by one U+FFFD.
\<close>

definition utf8_cont :: "u8 \<Rightarrow> bool" where
  "utf8_cont b = (0x80 \<le> b \<and> b \<le> 0xBF)"

definition utf8_second :: "u8 \<Rightarrow> u8 \<Rightarrow> bool" where
  "utf8_second a b =
     (if a = 0xE0 then 0xA0 \<le> b \<and> b \<le> 0xBF
      else if a = 0xED then 0x80 \<le> b \<and> b \<le> 0x9F
      else if a = 0xF0 then 0x90 \<le> b \<and> b \<le> 0xBF
      else if a = 0xF4 then 0x80 \<le> b \<and> b \<le> 0x8F
      else utf8_cont b)"

definition utf8_width :: "u8 \<Rightarrow> nat" where
  "utf8_width a =
     (if a < 0x80 then 1
      else if 0xC2 \<le> a \<and> a \<le> 0xDF then 2
      else if 0xE0 \<le> a \<and> a \<le> 0xEF then 3
      else if 0xF0 \<le> a \<and> a \<le> 0xF4 then 4
      else 0)"

definition utf8_step :: "u8 list \<Rightarrow> bool \<times> nat" where
  "utf8_step bs = (case bs of
     [] \<Rightarrow> (False, 1)
   | a # r \<Rightarrow>
      (let w = utf8_width a
       in if w \<le> 1 then (w = 1, 1)
          else (case r of
              [] \<Rightarrow> (False, 1)
            | b # r2 \<Rightarrow>
               (if \<not> utf8_second a b then (False, 1)
                else let k = length (takeWhile utf8_cont (take (w - 2) r2))
                     in (k = w - 2, 2 + k)))))"

lemma utf8_step_pos: "0 < snd (utf8_step bs)"
  by (simp add: utf8_step_def Let_def split: list.split)

lemma length_takeWhile_take_le: "length (takeWhile P (take n xs)) \<le> length xs"
  by (rule order.trans [OF length_takeWhile_le]) simp

lemma utf8_step_bound: "bs \<noteq> [] \<Longrightarrow> snd (utf8_step bs) \<le> length bs"
  by (auto simp: utf8_step_def Let_def length_takeWhile_take_le split: list.split)

lemma takeWhile_full_take:
  "length (takeWhile P (take n xs)) = n \<Longrightarrow> takeWhile P (take n xs) = take n xs \<and> n \<le> length xs"
  by (metis length_takeWhile_take_le length_take min.absorb2 nle_le takeWhile_eq_take take_all_iff
      length_takeWhile_le)

text \<open>A well-formed front stays well-formed when bytes are appended behind it.\<close>

lemma utf8_step_append:
  assumes "fst (utf8_step bs)"
  shows "utf8_step (bs @ cs) = utf8_step bs"
proof (cases bs)
  case Nil
  with assms show ?thesis by (simp add: utf8_step_def)
next
  case (Cons a r)
  show ?thesis
  proof (cases r)
    case Nil
    with Cons assms show ?thesis by (simp add: utf8_step_def Let_def split: if_splits)
  next
    case r: (Cons b r2)
    show ?thesis
    proof (cases "utf8_width a \<le> 1 \<or> \<not> utf8_second a b")
      case True
      with Cons r show ?thesis by (auto simp: utf8_step_def Let_def)
    next
      case False
      let ?n = "utf8_width a - 2"
      from False Cons r assms have "length (takeWhile utf8_cont (take ?n r2)) = ?n"
        by (simp add: utf8_step_def Let_def)
      then have "?n \<le> length r2" by (simp add: takeWhile_full_take)
      then have "take ?n (r2 @ cs) = take ?n r2" by simp
      with False Cons r show ?thesis by (simp add: utf8_step_def Let_def del: take_append)
    qed
  qed
qed

lemma utf8_step_take:
  assumes "fst (utf8_step bs)"
  shows "utf8_step (take (snd (utf8_step bs)) bs) = utf8_step bs"
proof (cases bs)
  case Nil
  with assms show ?thesis by (simp add: utf8_step_def)
next
  case (Cons a r)
  show ?thesis
  proof (cases r)
    case Nil
    with Cons assms show ?thesis by (simp add: utf8_step_def Let_def split: if_splits)
  next
    case r: (Cons b r2)
    show ?thesis
    proof (cases "utf8_width a \<le> 1 \<or> \<not> utf8_second a b")
      case True
      with Cons r assms show ?thesis by (auto simp: utf8_step_def Let_def)
    next
      case False
      let ?n = "utf8_width a - 2"
      from False Cons r assms have "length (takeWhile utf8_cont (take ?n r2)) = ?n"
        by (simp add: utf8_step_def Let_def)
      with False Cons r show ?thesis by (simp add: utf8_step_def Let_def)
    qed
  qed
qed

text \<open>\<open>String::from_utf8\<close> accepts exactly these byte sequences.\<close>

function utf8_valid :: "u8 list \<Rightarrow> bool" where
  "utf8_valid bs =
     (if bs = [] then True
      else if fst (utf8_step bs) then utf8_valid (drop (snd (utf8_step bs)) bs)
      else False)"
  by pat_completeness auto
termination
  by (relation "measure length") (simp_all add: utf8_step_pos)

declare utf8_valid.simps [simp del]

lemma utf8_valid_Nil [simp]: "utf8_valid []"
  by (subst utf8_valid.simps) simp

lemma utf8_valid_Cons_iff:
  "bs \<noteq> [] \<Longrightarrow>
   utf8_valid bs \<longleftrightarrow> fst (utf8_step bs) \<and> utf8_valid (drop (snd (utf8_step bs)) bs)"
  by (subst utf8_valid.simps) simp

lemma utf8_step_ascii: "a < 0x80 \<Longrightarrow> utf8_step (a # bs) = (True, 1)"
  by (simp add: utf8_step_def utf8_width_def)

lemma utf8_valid_ascii_Cons:
  "a < 0x80 \<Longrightarrow> utf8_valid (a # bs) = utf8_valid bs"
  by (subst utf8_valid.simps) (simp add: utf8_step_ascii)

lemma utf8_valid_append: "utf8_valid bs \<Longrightarrow> utf8_valid cs \<Longrightarrow> utf8_valid (bs @ cs)"
proof (induction bs rule: utf8_valid.induct)
  case (1 bs)
  show ?case
  proof (cases "bs = []")
    case True
    with "1.prems" show ?thesis by simp
  next
    case False
    with "1.prems" have f: "fst (utf8_step bs)" and v: "utf8_valid (drop (snd (utf8_step bs)) bs)"
      by (simp_all add: utf8_valid_Cons_iff)
    have "utf8_valid (drop (snd (utf8_step bs)) bs @ cs)"
      using "1.IH" False f v "1.prems"(2) by blast
    moreover have "snd (utf8_step bs) \<le> length bs"
      using False by (rule utf8_step_bound)
    ultimately show ?thesis
      by (subst utf8_valid.simps) (simp add: utf8_step_append [OF f] f)
  qed
qed

definition utf8_replacement :: "u8 list" where
  "utf8_replacement = [0xEF, 0xBF, 0xBD]"

text \<open>Lossy rendering of arbitrary bytes, as \<open>Path::display\<close> prints an OS string.\<close>

function utf8_lossy :: "u8 list \<Rightarrow> u8 list" where
  "utf8_lossy bs =
     (if bs = [] then []
      else (if fst (utf8_step bs) then take (snd (utf8_step bs)) bs else utf8_replacement)
           @ utf8_lossy (drop (snd (utf8_step bs)) bs))"
  by pat_completeness auto
termination
  by (relation "measure length") (simp_all add: utf8_step_pos)

declare utf8_lossy.simps [simp del]

lemma utf8_lossy_valid: "utf8_valid bs \<Longrightarrow> utf8_lossy bs = bs"
proof (induction bs rule: utf8_lossy.induct)
  case (1 bs)
  show ?case
  proof (cases "bs = []")
    case True
    then show ?thesis by (subst utf8_lossy.simps) simp
  next
    case False
    with 1 show ?thesis by (simp add: utf8_lossy.simps [of bs] utf8_valid_Cons_iff)
  qed
qed

lemma utf8_valid_take_step:
  assumes "fst (utf8_step bs)" "bs \<noteq> []"
  shows "utf8_valid (take (snd (utf8_step bs)) bs)"
  using assms utf8_step_bound [OF assms(2)]
  by (subst utf8_valid.simps) (simp add: utf8_step_take)

lemma utf8_valid_replacement: "utf8_valid utf8_replacement"
proof -
  have "utf8_step utf8_replacement = (True, 3)"
    by (simp add: utf8_replacement_def utf8_step_def utf8_width_def utf8_second_def utf8_cont_def)
  then show ?thesis
    by (subst utf8_valid.simps) (simp add: utf8_replacement_def)
qed

lemma utf8_lossy_is_valid: "utf8_valid (utf8_lossy bs)"
proof (induction bs rule: utf8_lossy.induct)
  case (1 bs)
  show ?case
  proof (cases "bs = []")
    case True
    then show ?thesis by (subst utf8_lossy.simps) simp
  next
    case False
    with 1 have "utf8_valid (utf8_lossy (drop (snd (utf8_step bs)) bs))" by blast
    moreover have "utf8_valid (if fst (utf8_step bs) then take (snd (utf8_step bs)) bs else utf8_replacement)"
      using False by (simp add: utf8_valid_take_step utf8_valid_replacement)
    ultimately show ?thesis
      using False by (subst utf8_lossy.simps) (simp only: if_False utf8_valid_append)
  qed
qed

text \<open>
  A Rust \<open>String\<close> is a byte vector that is valid UTF-8. The model writes it as a list of
  \<open>char\<close>, one per byte.
\<close>

definition as_bytes :: "string \<Rightarrow> u8 list" where
  "as_bytes s = map of_char s"

definition of_bytes :: "u8 list \<Rightarrow> string" where
  "of_bytes bs = map (\<lambda>b. char_of (unat b)) bs"

definition str_ok :: "string \<Rightarrow> bool" where
  "str_ok s = utf8_valid (as_bytes s)"

definition from_utf8 :: "u8 list \<Rightarrow> unit + string" where
  "from_utf8 bs = (if utf8_valid bs then Ok (of_bytes bs) else Err ())"

lemma of_char_word8: "unat (of_char c :: u8) = of_char c"
proof -
  have "(of_nat (of_char c) :: u8) = of_char c" by (rule of_nat_of_char)
  moreover have "(of_char c :: nat) < 2 ^ LENGTH(8)" by simp
  ultimately show ?thesis by (intro of_nat_inverse)
qed

lemma of_char_char_of_word8: "(of_char (char_of (unat (b :: u8))) :: u8) = b"
proof -
  have "unat b < 256" using unsigned_less [of b, where ?'a = nat] by simp
  then have "(of_char (char_of (unat b)) :: nat) = unat b" by simp
  then show ?thesis by (metis of_char_word8 word_unat_eq_iff)
qed

lemma of_bytes_as_bytes [simp]: "of_bytes (as_bytes s) = s"
  by (simp add: of_bytes_def as_bytes_def comp_def of_char_word8)

lemma as_bytes_of_bytes [simp]: "as_bytes (of_bytes bs) = bs"
  by (simp add: of_bytes_def as_bytes_def comp_def of_char_char_of_word8)

lemma length_as_bytes [simp]: "length (as_bytes s) = length s"
  by (simp add: as_bytes_def)

lemma as_bytes_append [simp]: "as_bytes (s @ t) = as_bytes s @ as_bytes t"
  by (simp add: as_bytes_def)

lemma as_bytes_inject [simp]: "as_bytes s = as_bytes t \<longleftrightarrow> s = t"
  by (metis of_bytes_as_bytes)

lemma from_utf8_as_bytes: "str_ok s \<Longrightarrow> from_utf8 (as_bytes s) = Ok s"
  by (simp add: from_utf8_def str_ok_def)

lemma from_utf8_Ok: "from_utf8 bs = Ok s \<Longrightarrow> str_ok s \<and> as_bytes s = bs"
  by (auto simp: from_utf8_def str_ok_def split: if_splits)

lemma str_ok_append: "str_ok s \<Longrightarrow> str_ok t \<Longrightarrow> str_ok (s @ t)"
  by (simp add: str_ok_def utf8_valid_append)

lemma str_ok_ascii: "list_all (\<lambda>c. (of_char c :: u8) < 0x80) s \<Longrightarrow> str_ok s"
  by (induction s) (simp_all add: str_ok_def as_bytes_def utf8_valid_ascii_Cons)

subsection \<open>Paths\<close>

text \<open>
  A path is its raw OS string. \<open>display\<close> renders it lossily; on Unix a path is absolute
  when it starts with the separator.
\<close>

definition display :: "string \<Rightarrow> string" where
  "display p = of_bytes (utf8_lossy (as_bytes p))"

definition is_absolute :: "string \<Rightarrow> bool" where
  "is_absolute p = starts_with (CHR ''/'') p"

lemma display_str_ok [simp]: "str_ok p \<Longrightarrow> display p = p"
  by (simp add: display_def str_ok_def utf8_lossy_valid)

text \<open>Text in ASCII, which evaluation meets most, needs no decoding.\<close>

lemma display_code [code]:
  "display p = (if list_all (\<lambda>c. (of_char c :: u8) < 0x80) p then p
     else of_bytes (utf8_lossy (as_bytes p)))"
  using display_str_ok [OF str_ok_ascii] by (auto simp: display_def)

lemma str_ok_display: "str_ok (display p)"
  by (simp add: display_def str_ok_def utf8_lossy_is_valid)

definition path_join :: "string \<Rightarrow> string \<Rightarrow> string" where
  "path_join a b =
     (if is_absolute b then b
      else if a = [] \<or> last a = CHR ''/'' then a @ b
      else a @ ''/'' @ b)"

end
