(* ===== verification/OrdMap.thy ===== *)
theory OrdMap
  imports Prelude
begin

section \<open>Ordered maps\<close>

text \<open>
  The standard library's \<open>BTreeMap\<close> as the program uses it: insert, remove, look up, test
  for emptiness and iterate in key order. The catalog's names are one
  (\<open>src/catalog.rs\<close>), and so is every JSON object, since \<open>serde_json\<close>'s \<open>Map\<close>
  is a \<open>BTreeMap\<close> unless its \<open>preserve_order\<close> feature is on, which \<open>Cargo.toml\<close>
  does not ask for. The model is the list of its bindings in key order.

  The locale \<open>ordered_map\<close> is the contract the clients rely on; the lemmas they share are
  proved in it once, and the list model is interpreted in it at the end.
\<close>

locale ordered_map =
  fixes empty :: "'m"
    and get :: "'m \<Rightarrow> 'k::linorder \<Rightarrow> 'v option"
    and insert :: "'k \<Rightarrow> 'v \<Rightarrow> 'm \<Rightarrow> 'm"
    and remove :: "'k \<Rightarrow> 'm \<Rightarrow> 'm"
    and keys :: "'m \<Rightarrow> 'k list"
    and wf :: "'m \<Rightarrow> bool"
  assumes get_empty: "get empty = (\<lambda>_. None)"
    and get_insert: "get (insert k v m) = (get m)(k \<mapsto> v)"
    and get_remove: "get (remove k m) = (get m)(k := None)"
    and set_keys: "set (keys m) = dom (get m)"
    and sorted_keys: "wf m \<Longrightarrow> sorted_wrt (<) (keys m)"
    and wf_empty: "wf empty"
    and wf_insert: "wf m \<Longrightarrow> wf (insert k v m)"
    and wf_remove: "wf m \<Longrightarrow> wf (remove k m)"
    and ext: "wf m \<Longrightarrow> wf m' \<Longrightarrow> get m = get m' \<Longrightarrow> m = m'"
begin

lemmas map_laws = get_empty get_insert get_remove wf_empty wf_insert wf_remove

lemma insert_overwrites: "wf m \<Longrightarrow> insert k v (insert k v' m) = insert k v m"
  by (rule ext) (simp_all add: map_laws)

lemma insert_commute:
  "wf m \<Longrightarrow> k \<noteq> k' \<Longrightarrow> insert k v (insert k' v' m) = insert k' v' (insert k v m)"
  by (rule ext) (auto simp: map_laws fun_eq_iff)

lemma insert_present: "wf m \<Longrightarrow> get m k = Some v \<Longrightarrow> insert k v m = m"
  by (rule ext) (auto simp: map_laws fun_eq_iff)

lemma remove_absent: "wf m \<Longrightarrow> get m k = None \<Longrightarrow> remove k m = m"
  by (rule ext) (auto simp: map_laws fun_eq_iff)

lemma remove_insert: "wf m \<Longrightarrow> remove k (insert k v m) = remove k m"
  by (rule ext) (auto simp: map_laws fun_eq_iff)

lemma insert_remove: "wf m \<Longrightarrow> get m k = Some v \<Longrightarrow> insert k v (remove k m) = m"
  by (rule ext) (auto simp: map_laws fun_eq_iff)

lemma remove_commute: "wf m \<Longrightarrow> remove k (remove k' m) = remove k' (remove k m)"
  by (rule ext) (auto simp: map_laws fun_eq_iff)

lemma keys_insert: "set (keys (insert k v m)) = {k} \<union> set (keys m)"
  by (auto simp: set_keys get_insert split: if_splits)

lemma keys_remove: "set (keys (remove k m)) = set (keys m) - {k}"
  by (auto simp: set_keys get_remove split: if_splits)

lemma keys_distinct: "wf m \<Longrightarrow> distinct (keys m)"
  using sorted_keys by (simp add: strict_sorted_iff)

end

subsection \<open>The list model\<close>

type_synonym ('k, 'v) btree = "('k \<times> 'v) list"

definition bt_get :: "('k, 'v) btree \<Rightarrow> 'k \<Rightarrow> 'v option" where
  "bt_get m k = map_of m k"

fun bt_insert :: "'k::linorder \<Rightarrow> 'v \<Rightarrow> ('k, 'v) btree \<Rightarrow> ('k, 'v) btree" where
  "bt_insert k v [] = [(k, v)]"
| "bt_insert k v ((a, b) # m) =
     (if k < a then (k, v) # (a, b) # m
      else if k = a then (k, v) # m
      else (a, b) # bt_insert k v m)"

definition bt_remove :: "'k \<Rightarrow> ('k, 'v) btree \<Rightarrow> ('k, 'v) btree" where
  "bt_remove k m = filter (\<lambda>p. fst p \<noteq> k) m"

definition bt_keys :: "('k, 'v) btree \<Rightarrow> 'k list" where
  "bt_keys m = map fst m"

definition bt_wf :: "('k::linorder, 'v) btree \<Rightarrow> bool" where
  "bt_wf m = sorted_wrt (<) (map fst m)"

definition bt_of_list :: "('k::linorder \<times> 'v) list \<Rightarrow> ('k, 'v) btree" where
  "bt_of_list ps = foldl (\<lambda>m (k, v). bt_insert k v m) [] ps"

lemma bt_get_Nil [simp]: "bt_get [] k = None"
  by (simp add: bt_get_def)

lemma bt_get_insert [simp]: "bt_get (bt_insert k v m) k' = (if k' = k then Some v else bt_get m k')"
  by (induction k v m rule: bt_insert.induct) (auto simp: bt_get_def)

lemma bt_get_remove [simp]: "bt_get (bt_remove k m) k' = (if k' = k then None else bt_get m k')"
  by (induction m) (auto simp: bt_get_def bt_remove_def)

lemma set_bt_insert_keys: "fst ` set (bt_insert k v m) = insert k (fst ` set m)"
  by (induction k v m rule: bt_insert.induct) auto

lemma bt_wf_insert: "bt_wf m \<Longrightarrow> bt_wf (bt_insert k v m)"
proof (induction k v m rule: bt_insert.induct)
  case (1 k v)
  show ?case by (simp add: bt_wf_def)
next
  case (2 k v a b m)
  have "a < x" if "x \<in> fst ` set (bt_insert k v m)" "a < k" for x
    using that "2.prems" by (auto simp: set_bt_insert_keys bt_wf_def)
  with 2 show ?case by (auto simp: bt_wf_def)
qed

lemma bt_wf_remove: "bt_wf m \<Longrightarrow> bt_wf (bt_remove k m)"
  by (induction m) (auto simp: bt_wf_def bt_remove_def)

lemma bt_ext: "bt_wf m \<Longrightarrow> bt_wf m' \<Longrightarrow> bt_get m = bt_get m' \<Longrightarrow> m = m'"
proof -
  assume wf: "bt_wf m" "bt_wf m'" and eq: "bt_get m = bt_get m'"
  have d: "distinct (map fst m)" "distinct (map fst m')"
    and srt: "sorted (map fst m)" "sorted (map fst m')"
    using wf by (auto simp: bt_wf_def strict_sorted_iff)
  have "map_of m = map_of m'" using eq by (simp add: bt_get_def [abs_def])
  with d have same: "set m = set m'" by (simp add: map_of_inject_set)
  with d have "inj_on fst (set m \<union> set m')" by (simp add: distinct_map)
  then show "m = m'"
    by (rule map_sorted_distinct_set_unique) (fact srt d same)+
qed

interpretation bt: ordered_map "[]" bt_get bt_insert bt_remove bt_keys bt_wf
proof unfold_locales
  show "bt_get [] = (\<lambda>_. None)" by (simp add: fun_eq_iff)
  show "bt_get (bt_insert k v m) = (bt_get m)(k \<mapsto> v)" for k v m by (simp add: fun_eq_iff)
  show "bt_get (bt_remove k m) = (bt_get m)(k := None)" for k m by (simp add: fun_eq_iff)
  show "set (bt_keys m) = dom (bt_get m)" for m
    by (simp add: bt_keys_def bt_get_def [abs_def] dom_map_of_conv_image_fst)
  show "bt_wf m \<Longrightarrow> sorted_wrt (<) (bt_keys m)" for m by (simp add: bt_wf_def bt_keys_def)
  show "bt_wf []" by (simp add: bt_wf_def)
qed (simp_all add: bt_wf_insert bt_wf_remove bt_ext)

lemma foldl_bt_insert_wf: "bt_wf m \<Longrightarrow> bt_wf (foldl (\<lambda>m (k, v). bt_insert k v m) m ps)"
  by (induction ps arbitrary: m) (auto simp: bt_wf_insert)

lemma bt_wf_of_list: "bt_wf (bt_of_list ps)"
  unfolding bt_of_list_def by (rule foldl_bt_insert_wf) (simp add: bt_wf_def)

lemma bt_of_list_simps [simp]:
  "bt_get (bt_of_list []) k = None"
  "bt_get (bt_of_list (ps @ [(a, b)])) k = (if k = a then Some b else bt_get (bt_of_list ps) k)"
  by (simp_all add: bt_of_list_def)

lemma foldl_bt_get:
  "bt_get (foldl (\<lambda>m (k, v). bt_insert k v m) m ps) k =
     (case map_of (rev ps) k of None \<Rightarrow> bt_get m k | Some v \<Rightarrow> Some v)"
  by (induction ps rule: rev_induct) (auto split: option.split)

lemma bt_get_of_list: "bt_get (bt_of_list ps) k = map_of (rev ps) k"
  by (simp add: bt_of_list_def foldl_bt_get split: option.split)

lemma bt_insert_Cons_less: "bt_wf ((k, v) # m) \<Longrightarrow> bt_insert k v m = (k, v) # m"
  by (cases m) (auto simp: bt_wf_def)

lemma bt_insert_snoc:
  "bt_wf (m @ [(k, v)]) \<Longrightarrow> bt_insert k v m = m @ [(k, v)]"
proof (induction m)
  case Nil
  show ?case by simp
next
  case (Cons p m)
  obtain a b where p: "p = (a, b)" by (cases p)
  from Cons.prems p have "a < k" "bt_wf (m @ [(k, v)])" by (auto simp: bt_wf_def)
  with Cons.IH p show ?case by auto
qed

text \<open>Inserting bindings that are already in order rebuilds the list: an iteration that copies a map.\<close>

lemma bt_of_list_wf: "bt_wf m \<Longrightarrow> bt_of_list m = m"
proof (induction m rule: rev_induct)
  case Nil
  show ?case by (simp add: bt_of_list_def)
next
  case (snoc p m)
  obtain k v where p: "p = (k, v)" by (cases p)
  from snoc.prems have "bt_wf m" by (auto simp: bt_wf_def sorted_wrt_append)
  with snoc p show ?case by (simp add: bt_of_list_def bt_insert_snoc)
qed

lemma bt_get_rev: "bt_wf m \<Longrightarrow> map_of (rev m) = bt_get m"
proof -
  assume "bt_wf m"
  then have "distinct (map fst m)" by (simp add: bt_wf_def strict_sorted_iff)
  moreover from this have "distinct (map fst (rev m))" by (simp add: rev_map [symmetric])
  ultimately have "map_of (rev m) = map_of m" by (simp add: map_of_inject_set)
  then show ?thesis by (simp add: bt_get_def [abs_def])
qed

lemma bt_get_foldl_wf:
  "bt_wf u \<Longrightarrow> bt_get (foldl (\<lambda>m (k, v). bt_insert k v m) m u) k =
     (case bt_get u k of None \<Rightarrow> bt_get m k | Some v \<Rightarrow> Some v)"
  by (simp add: foldl_bt_get bt_get_rev)

lemma bt_wf_map: "bt_wf (map (\<lambda>(k, v). (k, f k v)) m) = bt_wf m"
  by (simp add: bt_wf_def comp_def case_prod_beta)

lemma bt_get_map: "bt_get (map (\<lambda>(k, v). (k, f k v)) m) k = map_option (f k) (bt_get m k)"
  by (induction m) (auto simp: bt_get_def)

text \<open>
  From here on maps are reasoned about through \<open>bt_get\<close>; \<open>bt_eval\<close> computes a concrete map.
\<close>

declare bt_insert.simps [simp del]

lemmas bt_eval = bt_insert.simps bt_get_def bt_remove_def bt_keys_def bt_wf_def bt_of_list_def

end
