(* ===== verification/Json.thy ===== *)
theory Json
  imports OrdMap
begin

section \<open>JSON values and the text library\<close>

text \<open>
  The values the daemon exchanges. \<open>serde_json\<close> is not under \<open>src/\<close>: what is modelled is
  its public data type, as its documentation states it and as the program matches on it,
  and the accessors the program calls. The text side (\<open>from_str\<close>, \<open>to_string\<close>,
  \<open>to_string_pretty\<close>) is a parameter, the record \<open>textlib\<close>.

  The program looks at a number only through \<open>as_u64\<close> and builds one only from a \<open>u64\<close>, so
  a number is either one that fits \<open>u64\<close> or another one, of which only the identity counts.
\<close>

datatype number = NumU64 u64 | NumOther string

datatype json =
    Null
  | Bool bool
  | Number number
  | String string
  | Array "json list"
  | Object "(string \<times> json) list"

type_synonym json_map = "(string, json) btree"

text \<open>
  What the Rust types guarantee of every value: an object is a \<open>BTreeMap\<close>, so its keys are in
  order, and every string is valid UTF-8.
\<close>

fun wf_json :: "json \<Rightarrow> bool" where
  "wf_json (Array vs) = (\<forall>v \<in> set vs. wf_json v)"
| "wf_json (Object m) = (bt_wf m \<and> (\<forall>kv \<in> set m. str_ok (fst kv) \<and> wf_json (snd kv)))"
| "wf_json (String s) = str_ok s"
| "wf_json _ = True"

definition as_str :: "json \<Rightarrow> string option" where
  "as_str v = (case v of String s \<Rightarrow> Some s | _ \<Rightarrow> None)"

definition as_u64 :: "json \<Rightarrow> u64 option" where
  "as_u64 v = (case v of Number (NumU64 w) \<Rightarrow> Some w | _ \<Rightarrow> None)"

definition as_array :: "json \<Rightarrow> json list option" where
  "as_array v = (case v of Array vs \<Rightarrow> Some vs | _ \<Rightarrow> None)"

definition as_object :: "json \<Rightarrow> json_map option" where
  "as_object v = (case v of Object m \<Rightarrow> Some m | _ \<Rightarrow> None)"

lemma as_simps [simp]:
  "as_str (String s) = Some s"
  "as_u64 (Number (NumU64 w)) = Some w"
  "as_array (Array vs) = Some vs"
  "as_object (Object m) = Some m"
  by (simp_all add: as_str_def as_u64_def as_array_def as_object_def)

lemma as_u64_Some: "as_u64 v = Some w \<longleftrightarrow> v = Number (NumU64 w)"
  by (auto simp: as_u64_def split: json.splits number.splits)

lemma as_str_Some: "as_str v = Some s \<longleftrightarrow> v = String s"
  by (auto simp: as_str_def split: json.splits)

lemma as_object_Some: "as_object v = Some m \<longleftrightarrow> v = Object m"
  by (auto simp: as_object_def split: json.splits)

lemma as_array_Some: "as_array v = Some vs \<longleftrightarrow> v = Array vs"
  by (auto simp: as_array_def split: json.splits)

definition num_u64 :: "u64 \<Rightarrow> json" where
  "num_u64 w = Number (NumU64 w)"

text \<open>The \<open>json!\<close> macro on an object literal inserts its members one by one.\<close>

definition json_object :: "(string \<times> json) list \<Rightarrow> json" where
  "json_object ps = Object (bt_of_list ps)"

text \<open>\<open>value.get(key)\<close>: a member of an object.\<close>

definition member :: "string \<Rightarrow> json \<Rightarrow> json option" where
  "member k v = (case v of Object m \<Rightarrow> bt_get m k | _ \<Rightarrow> None)"

lemma member_Object [simp]: "member k (Object m) = bt_get m k"
  by (simp add: member_def)

lemma member_json_object: "member k (json_object ps) = map_of (rev ps) k"
  by (simp add: json_object_def bt_get_of_list)

text \<open>
  The library's text functions: the JSON parser and the two printers, with the text of
  their errors, and the \<open>{:?}\<close> rendering of a \<open>char\<close>, which consults Unicode tables.
\<close>

record textlib =
  from_str :: "string \<Rightarrow> string + json"
  to_string :: "json \<Rightarrow> string + string"
  to_string_pretty :: "json \<Rightarrow> string + string"
  char_debug :: "string \<Rightarrow> string"

end
