(* ===== verification/Diagnostic.thy ===== *)
theory Diagnostic
  imports Json
begin

section \<open>Diagnostic codes\<close>

text \<open>\<open>src/diagnostic.rs\<close>: the four codes the daemon raises, their stable forms, and which of them is a failure.\<close>

datatype code =
    CatalogInvalid
  | CatalogVersionUnsupported
  | ServerAlreadyRunning
  | ServerProtocolUnsupported

fun code_as_str :: "code \<Rightarrow> string" where
  "code_as_str CatalogInvalid = ''CATALOG_INVALID''"
| "code_as_str CatalogVersionUnsupported = ''CATALOG_VERSION_UNSUPPORTED''"
| "code_as_str ServerAlreadyRunning = ''SERVER_ALREADY_RUNNING''"
| "code_as_str ServerProtocolUnsupported = ''SERVER_PROTOCOL_UNSUPPORTED''"

definition is_failure :: "code \<Rightarrow> bool" where
  "is_failure c = (c \<noteq> ServerAlreadyRunning)"

text \<open>\<open>derive(PartialOrd, Ord)\<close> orders the variants as they are declared.\<close>

fun code_index :: "code \<Rightarrow> nat" where
  "code_index CatalogInvalid = 0"
| "code_index CatalogVersionUnsupported = 1"
| "code_index ServerAlreadyRunning = 2"
| "code_index ServerProtocolUnsupported = 3"

lemma code_index_inject: "code_index c = code_index d \<longleftrightarrow> c = d"
  by (cases c; cases d) simp_all

instantiation code :: linorder
begin

definition less_eq_code :: "code \<Rightarrow> code \<Rightarrow> bool" where
  "less_eq_code c d = (code_index c \<le> code_index d)"

definition less_code :: "code \<Rightarrow> code \<Rightarrow> bool" where
  "less_code c d = (code_index c < code_index d)"

instance
  by standard (auto simp: less_eq_code_def less_code_def code_index_inject)

end

text \<open>Distinct codes have distinct stable forms, so a client can match on them.\<close>

lemma code_as_str_inject: "code_as_str c = code_as_str d \<longleftrightarrow> c = d"
  by (cases c; cases d) simp_all

end
