(* ===== verification/Frame.thy ===== *)
theory Frame
  imports Diagnostic
begin

unbundle bit_operations_syntax

section \<open>Message framing\<close>

text \<open>
  \<open>src/frame.rs\<close>. A transport (\<open>Read + Write\<close>) is a script of what its calls answer: a
  \<open>read\<close> delivers a chunk of the bytes the peer sent, however the transport split them, or
  fails; a \<open>write\<close> accepts some bytes or fails. \<open>out\<close> is what has reached the peer. An
  exhausted read script is the end of the connection, an exhausted write script accepts
  everything. The two loops of the module and the two loops of the standard library it
  calls (\<open>read_exact\<close>, \<open>write_all\<close>) are functions over it, with the byte stream of the
  script as their specification.
\<close>

definition MINIMUM_MAXIMUM_FRAME_BYTES :: u32 where
  "MINIMUM_MAXIMUM_FRAME_BYTES = 8 * 1024 * 1024"

definition PREFIX_BYTES :: nat where
  "PREFIX_BYTES = 4"

datatype frame_error =
    TooLarge u32 u32
  | NotUtf8
  | Closed
  | Truncated
  | Io io_error

fun frame_error_display :: "frame_error \<Rightarrow> string" where
  "frame_error_display (TooLarge d m) =
     ''the peer declared a '' @ show_u32 d @ ''-byte frame, and the maximum is '' @ show_u32 m"
| "frame_error_display NotUtf8 = ''a frame body must be UTF-8''"
| "frame_error_display Closed = ''the connection ended''"
| "frame_error_display Truncated = ''the frame was cut short''"
| "frame_error_display (Io e) = io_text e"

text \<open>\<open>Error::source\<close>: the error behind this one, which it shows as itself.\<close>

fun frame_error_source :: "frame_error \<Rightarrow> io_error option" where
  "frame_error_source (Io e) = Some e"
| "frame_error_source _ = None"

lemma frame_error_source_shown: "frame_error_source e = Some x \<Longrightarrow> frame_error_display e = io_text x"
  by (cases e) auto

subsection \<open>The transport\<close>

datatype rd_event = Chunk "u8 list" | RdErr io_error
datatype wr_event = Accept nat | WrErr io_error

record stream =
  inp :: "rd_event list"
  wev :: "wr_event list"
  out :: "u8 list"

text \<open>One call of \<open>Read::read\<close> with a buffer of \<open>k\<close> bytes.\<close>

definition stream_read :: "nat \<Rightarrow> stream \<Rightarrow> (io_error + u8 list) \<times> stream" where
  "stream_read k s = (case inp s of
     [] \<Rightarrow> (Ok [], s)
   | RdErr e # r \<Rightarrow> (Err e, s\<lparr>inp := r\<rparr>)
   | Chunk bs # r \<Rightarrow>
       (if length bs \<le> k then (Ok bs, s\<lparr>inp := r\<rparr>)
        else (Ok (take k bs), s\<lparr>inp := Chunk (drop k bs) # r\<rparr>)))"

text \<open>One call of \<open>Write::write\<close>: how many of the bytes were taken.\<close>

definition stream_write :: "u8 list \<Rightarrow> stream \<Rightarrow> (io_error + nat) \<times> stream" where
  "stream_write bs s = (case wev s of
     [] \<Rightarrow> (Ok (length bs), s\<lparr>out := out s @ bs\<rparr>)
   | WrErr e # r \<Rightarrow> (Err e, s\<lparr>wev := r\<rparr>)
   | Accept n # r \<Rightarrow> (Ok (min n (length bs)), s\<lparr>wev := r, out := out s @ take n bs\<rparr>))"

definition flush :: "stream \<Rightarrow> (io_error + unit) \<times> stream" where
  "flush s = (case wev s of WrErr e # r \<Rightarrow> (Err e, s\<lparr>wev := r\<rparr>) | _ \<Rightarrow> (Ok (), s))"

fun ev_size :: "rd_event \<Rightarrow> nat" where
  "ev_size (Chunk bs) = Suc (length bs)"
| "ev_size (RdErr e) = 1"

definition inp_size :: "stream \<Rightarrow> nat" where
  "inp_size s = sum_list (map ev_size (inp s))"

lemma inp_size_upd [simp]:
  "inp_size (s\<lparr>out := x\<rparr>) = inp_size s"
  "inp_size (s\<lparr>wev := y\<rparr>) = inp_size s"
  "inp_size (s\<lparr>inp := z\<rparr>) = sum_list (map ev_size z)"
  by (simp_all add: inp_size_def)

text \<open>A read that delivers something, or fails, uses up part of the script.\<close>

lemma read_progress:
  "0 < k \<Longrightarrow> stream_read k s = (Ok (b # bs), s') \<Longrightarrow> inp_size s' < inp_size s"
  by (auto simp: stream_read_def inp_size_def split: list.splits rd_event.splits if_splits)

lemma read_Err_progress:
  "stream_read k s = (Err e, s') \<Longrightarrow> inp_size s' < inp_size s"
  by (auto simp: stream_read_def inp_size_def split: list.splits rd_event.splits if_splits)

lemma read_frame_cond:
  "stream_read k s = (r, s') \<Longrightarrow> out s' = out s \<and> wev s' = wev s"
  by (auto simp: stream_read_def split: list.splits rd_event.splits if_splits)

subsection \<open>The reading loops\<close>

datatype read0 = Filled "u8 list" | Read0_Closed

text \<open>
  \<open>read_exact_or_closed\<close>: \<open>n\<close> is the buffer's length, \<open>acc\<close> the part already filled. The
  filled buffer is returned with \<open>Filled\<close>.
\<close>

function read_exact_or_closed ::
  "nat \<Rightarrow> u8 list \<Rightarrow> stream \<Rightarrow> (frame_error + read0) \<times> stream" where
  "read_exact_or_closed n acc s =
     (if length acc < n then
        (case stream_read (n - length acc) s of
           (Inr [], s') \<Rightarrow> if acc = [] then (Ok Read0_Closed, s') else (Err Truncated, s')
         | (Inr (b # bs), s') \<Rightarrow> read_exact_or_closed n (acc @ b # bs) s'
         | (Inl e, s') \<Rightarrow>
             if io_kind e = Interrupted then read_exact_or_closed n acc s'
             else (Err (Io e), s'))
      else (Ok (Filled acc), s))"
  by pat_completeness auto
termination
  by (relation "measure (\<lambda>(n, acc, s). inp_size s)")
    (auto intro: read_Err_progress read_progress [rotated] dest!: sym [where t = "stream_read _ _"])

declare read_exact_or_closed.simps [simp del]

definition eof_error :: io_error where
  "eof_error = IoError UnexpectedEof ''failed to fill whole buffer''"

text \<open>\<open>Read::read_exact\<close> of the standard library.\<close>

function read_exact :: "nat \<Rightarrow> u8 list \<Rightarrow> stream \<Rightarrow> (io_error + u8 list) \<times> stream" where
  "read_exact n acc s =
     (if length acc < n then
        (case stream_read (n - length acc) s of
           (Inr [], s') \<Rightarrow> (Err eof_error, s')
         | (Inr (b # bs), s') \<Rightarrow> read_exact n (acc @ b # bs) s'
         | (Inl e, s') \<Rightarrow>
             if io_kind e = Interrupted then read_exact n acc s' else (Err e, s'))
      else (Ok acc, s))"
  by pat_completeness auto
termination
  by (relation "measure (\<lambda>(n, acc, s). inp_size s)")
    (auto intro: read_Err_progress read_progress [rotated] dest!: sym [where t = "stream_read _ _"])

declare read_exact.simps [simp del]

subsection \<open>Reading and writing a frame\<close>

definition to_be_bytes :: "u32 \<Rightarrow> u8 list" where
  "to_be_bytes w =
     [ucast (drop_bit 24 w), ucast (drop_bit 16 w), ucast (drop_bit 8 w), ucast w]"

definition from_be_bytes :: "u8 list \<Rightarrow> u32" where
  "from_be_bytes bs = foldl (\<lambda>w b. push_bit 8 w OR ucast b) 0 bs"

definition read_frame :: "u32 \<Rightarrow> stream \<Rightarrow> (frame_error + string) \<times> stream" where
  "read_frame maximum s =
     (case read_exact_or_closed PREFIX_BYTES [] s of
        (Inl e, s1) \<Rightarrow> (Err e, s1)
      | (Inr Read0_Closed, s1) \<Rightarrow> (Err Closed, s1)
      | (Inr (Filled prefix), s1) \<Rightarrow>
          (let declared = from_be_bytes prefix in
           if declared > maximum then (Err (TooLarge declared maximum), s1)
           else (case read_exact (unat declared) [] s1 of
               (Inl e, s2) \<Rightarrow>
                 (if io_kind e = UnexpectedEof then (Err Truncated, s2) else (Err (Io e), s2))
             | (Inr body, s2) \<Rightarrow>
                 (case from_utf8 body of
                    Inl _ \<Rightarrow> (Err NotUtf8, s2)
                  | Inr t \<Rightarrow> (Ok t, s2)))))"

definition write_zero_error :: io_error where
  "write_zero_error = IoError WriteZero ''failed to write whole buffer''"

text \<open>\<open>Write::write_all\<close> of the standard library.\<close>

function write_all :: "u8 list \<Rightarrow> stream \<Rightarrow> (io_error + unit) \<times> stream" where
  "write_all bs s =
     (if bs = [] then (Ok (), s)
      else (case stream_write bs s of
         (Inr 0, s') \<Rightarrow> (Err write_zero_error, s')
       | (Inr (Suc n), s') \<Rightarrow> write_all (drop (Suc n) bs) s'
       | (Inl e, s') \<Rightarrow>
           if io_kind e = Interrupted then write_all bs s' else (Err e, s')))"
  by pat_completeness auto
termination
  by (relation "measure (\<lambda>(bs, s). length bs + length (wev s))")
    (auto simp: stream_write_def split: list.splits wr_event.splits)

declare write_all.simps [simp del]

definition u32_max :: nat where
  "u32_max = 2 ^ 32 - 1"

definition write_frame :: "string \<Rightarrow> u32 \<Rightarrow> stream \<Rightarrow> (frame_error + unit) \<times> stream" where
  "write_frame body maximum s =
     (let bytes = as_bytes body in
      if length bytes > u32_max then (Err (TooLarge (of_nat u32_max) maximum), s)
      else (let declared = of_nat (length bytes) in
        if declared > maximum then (Err (TooLarge declared maximum), s)
        else (case write_all (to_be_bytes declared) s of
            (Inl e, s1) \<Rightarrow> (Err (Io e), s1)
          | (Inr _, s1) \<Rightarrow>
              (case write_all bytes s1 of
                 (Inl e, s2) \<Rightarrow> (Err (Io e), s2)
               | (Inr _, s2) \<Rightarrow>
                   (case flush s2 of
                      (Inl e, s3) \<Rightarrow> (Err (Io e), s3)
                    | (Inr _, s3) \<Rightarrow> (Ok (), s3))))))"


subsection \<open>Progress and frame conditions\<close>

lemma inp_size_eq: "inp s = inp t \<Longrightarrow> inp_size s = inp_size t"
  by (simp add: inp_size_def)

lemma stream_read_le: "stream_read k s = (r, s') \<Longrightarrow> inp_size s' \<le> inp_size s"
  by (auto simp: stream_read_def inp_size_def split: list.splits rd_event.splits if_splits)

lemma read_exact_or_closed_frame:
  "read_exact_or_closed n acc s = (r, s') \<Longrightarrow> inp_size s' \<le> inp_size s \<and> out s' = out s \<and> wev s' = wev s"
proof (induction n acc s arbitrary: r s' rule: read_exact_or_closed.induct)
  case (1 n acc s)
  show ?case
  proof (cases "length acc < n")
    case False
    with "1.prems" show ?thesis by (subst (asm) read_exact_or_closed.simps) auto
  next
    case True
    obtain q s1 where q: "stream_read (n - length acc) s = (q, s1)" by fastforce
    note fc = read_frame_cond [OF q] stream_read_le [OF q]
    from "1.prems" True q fc show ?thesis
      by (subst (asm) read_exact_or_closed.simps)
        (auto split: sum.splits list.splits if_splits dest!: "1.IH" [OF True q [symmetric]])
  qed
qed

lemma read_exact_frame:
  "read_exact n acc s = (r, s') \<Longrightarrow> inp_size s' \<le> inp_size s \<and> out s' = out s \<and> wev s' = wev s"
proof (induction n acc s arbitrary: r s' rule: read_exact.induct)
  case (1 n acc s)
  show ?case
  proof (cases "length acc < n")
    case False
    with "1.prems" show ?thesis by (subst (asm) read_exact.simps) auto
  next
    case True
    obtain q s1 where q: "stream_read (n - length acc) s = (q, s1)" by fastforce
    note fc = read_frame_cond [OF q] stream_read_le [OF q]
    from "1.prems" True q fc show ?thesis
      by (subst (asm) read_exact.simps)
        (auto split: sum.splits list.splits if_splits dest!: "1.IH" [OF True q [symmetric]])
  qed
qed

lemma stream_read_length: "stream_read k s = (Ok bs, s') \<Longrightarrow> length bs \<le> k"
  by (auto simp: stream_read_def split: list.splits rd_event.splits if_splits)

text \<open>A filled buffer has exactly the length that was asked for.\<close>

lemma read_exact_length:
  "read_exact n acc s = (Ok bs, s') \<Longrightarrow> length acc \<le> n \<Longrightarrow> length bs = n"
proof (induction n acc s arbitrary: bs s' rule: read_exact.induct)
  case (1 n acc s)
  show ?case
  proof (cases "length acc < n")
    case False
    with "1.prems" show ?thesis by (subst (asm) read_exact.simps) auto
  next
    case True
    obtain q s1 where q: "stream_read (n - length acc) s = (q, s1)" by fastforce
    from "1.prems" True q show ?thesis
      by (subst (asm) read_exact.simps)
        (auto split: sum.splits list.splits if_splits dest: stream_read_length
          dest!: "1.IH" [OF True q [symmetric]])
  qed
qed

lemma read_exact_or_closed_length:
  "read_exact_or_closed n acc s = (Ok (Filled bs), s') \<Longrightarrow> length acc \<le> n \<Longrightarrow> length bs = n"
proof (induction n acc s arbitrary: bs s' rule: read_exact_or_closed.induct)
  case (1 n acc s)
  show ?case
  proof (cases "length acc < n")
    case False
    with "1.prems" show ?thesis by (subst (asm) read_exact_or_closed.simps) auto
  next
    case True
    obtain q s1 where q: "stream_read (n - length acc) s = (q, s1)" by fastforce
    from "1.prems" True q show ?thesis
      by (subst (asm) read_exact_or_closed.simps)
        (auto split: sum.splits list.splits if_splits dest: stream_read_length
          dest!: "1.IH" [OF True q [symmetric]])
  qed
qed

lemma read_exact_or_closed_error:
  "read_exact_or_closed n acc s = (Err e, s') \<Longrightarrow> e = Truncated \<or> (\<exists>x. e = Io x)"
proof (induction n acc s arbitrary: e s' rule: read_exact_or_closed.induct)
  case (1 n acc s)
  obtain q s1 where q: "stream_read (n - length acc) s = (q, s1)" by fastforce
  from "1.prems" q show ?case
    by (subst (asm) read_exact_or_closed.simps)
      (auto split: sum.splits list.splits if_splits dest: "1.IH" [OF _ q [symmetric]])
qed

lemma read_exact_or_closed_progress:
  assumes "read_exact_or_closed n acc s = (Ok (Filled bs), s')" "length acc < n"
  shows "inp_size s' < inp_size s"
proof -
  obtain q s1 where q: "stream_read (n - length acc) s = (q, s1)" by fastforce
  from assms q show ?thesis
    by (subst (asm) read_exact_or_closed.simps)
      (auto split: sum.splits list.splits if_splits dest!: read_exact_or_closed_frame
        dest: read_progress [rotated] read_Err_progress)
qed

text \<open>A frame that was read used up input, and reading sends nothing.\<close>

lemma read_frame_frame:
  "read_frame maximum s = (r, s') \<Longrightarrow> inp_size s' \<le> inp_size s \<and> out s' = out s \<and> wev s' = wev s"
  by (auto simp: read_frame_def Let_def split: prod.splits sum.splits read0.splits if_splits
      dest!: read_exact_or_closed_frame read_exact_frame)

lemma read_frame_progress:
  "read_frame maximum s = (Ok t, s') \<Longrightarrow> inp_size s' < inp_size s"
  by (auto simp: read_frame_def Let_def PREFIX_BYTES_def split: prod.splits sum.splits read0.splits if_splits
      dest!: read_exact_or_closed_progress read_exact_frame)

lemma stream_write_frame:
  "stream_write bs s = (r, s') \<Longrightarrow>
   inp s' = inp s \<and> (\<exists>k \<le> length bs. out s' = out s @ take k bs \<and>
     (case r of Inr n \<Rightarrow> n = k | Inl _ \<Rightarrow> k = 0))"
  by (auto simp: stream_write_def min_def split: list.splits wr_event.splits if_splits)

lemma write_all_frame:
  "write_all bs s = (r, s') \<Longrightarrow>
   inp s' = inp s \<and> (\<exists>k \<le> length bs. out s' = out s @ take k bs \<and> (r = Ok () \<longrightarrow> k = length bs))"
proof (induction bs s arbitrary: r s' rule: write_all.induct)
  case (1 bs s)
  show ?case
  proof (cases "bs = []")
    case True
    with "1.prems" show ?thesis by (subst (asm) write_all.simps) auto
  next
    case False
    obtain q s1 where q: "stream_write bs s = (q, s1)" by fastforce
    note w = stream_write_frame [OF q]
    consider e where "q = Inl e" "io_kind e = Interrupted" | e where "q = Inl e" "io_kind e \<noteq> Interrupted"
      | "q = Inr 0" | n where "q = Inr (Suc n)"
      by (metis sum.exhaust nat.exhaust)
    then show ?thesis
    proof cases
      case 1
      with "1.prems" False q have "write_all bs s1 = (r, s')" by (subst (asm) write_all.simps) auto
      from "1.IH"(1) [OF False q [symmetric] 1 this] w 1 show ?thesis by auto
    next
      case 2
      with "1.prems" False q w show ?thesis by (subst (asm) write_all.simps) auto
    next
      case 3
      with "1.prems" False q w show ?thesis
        by (subst (asm) write_all.simps) (auto simp: write_zero_error_def)
    next
      case 4
      with "1.prems" False q have "write_all (drop (Suc n) bs) s1 = (r, s')"
        by (subst (asm) write_all.simps) auto
      from "1.IH"(2) [OF False q [symmetric] 4 refl this] obtain k where
        k: "inp s' = inp s1" "k \<le> length bs - Suc n" "out s' = out s1 @ take k (drop (Suc n) bs)"
          "r = Ok () \<longrightarrow> k = length bs - Suc n"
        by auto
      from w 4 have o: "inp s1 = inp s" "out s1 = out s @ take (Suc n) bs" "Suc n \<le> length bs" by auto
      have "out s' = out s @ take (Suc n + k) bs"
        using k o take_add [of "Suc n" k bs] by simp
      with k o show ?thesis by (intro conjI exI [of _ "Suc n + k"]) auto
    qed
  qed
qed

lemma flush_frame: "flush s = (r, s') \<Longrightarrow> inp s' = inp s \<and> out s' = out s"
  by (auto simp: flush_def split: list.splits wr_event.splits)

end
