(* ===== verification/FrameSpec.thy ===== *)
theory FrameSpec
  imports Frame
begin

section \<open>The framing contract\<close>

text \<open>
  What \<open>src/frame.rs\<close> promises over the byte stream, independently of how a transport
  splits it: \<open>parse_frame\<close> reads one frame off a list of bytes, \<open>frame_bytes\<close> is a frame
  on the wire. The loops of \<open>Frame\<close> refine the two, and the locale \<open>framing\<close> is what the
  request loop uses of them.
\<close>

subsection \<open>The byte order\<close>

lemma to_be_bytes_nonempty [simp]: "to_be_bytes w \<noteq> []"
  by (simp add: to_be_bytes_def)

lemma length_to_be_bytes [simp]: "length (to_be_bytes w) = 4"
  by (simp add: to_be_bytes_def)

lemma from_to_be_bytes [simp]: "from_be_bytes (to_be_bytes w) = w"
proof (rule bit_word_eqI)
  fix n
  assume "n < LENGTH(32)"
  then consider "n < 8" | "8 \<le> n" "n < 16" | "16 \<le> n" "n < 24" | "24 \<le> n" "n < 32"
    by fastforce
  then show "bit (from_be_bytes (to_be_bytes w)) n = bit w n"
    by cases (auto simp: to_be_bytes_def from_be_bytes_def bit_simps)
qed

subsection \<open>The byte stream of a transport\<close>

definition bytes_of :: "rd_event list \<Rightarrow> u8 list" where
  "bytes_of evs = concat (map (\<lambda>e. case e of Chunk bs \<Rightarrow> bs | RdErr _ \<Rightarrow> []) evs)"

text \<open>No read fails for good, and no chunk is empty (an empty read is the end of the stream).\<close>

definition healthy :: "rd_event list \<Rightarrow> bool" where
  "healthy evs = (\<forall>e \<in> set evs. case e of Chunk bs \<Rightarrow> bs \<noteq> [] | RdErr x \<Rightarrow> io_kind x = Interrupted)"

lemma bytes_of_simps [simp]:
  "bytes_of [] = []"
  "bytes_of (Chunk bs # evs) = bs @ bytes_of evs"
  "bytes_of (RdErr x # evs) = bytes_of evs"
  by (simp_all add: bytes_of_def)

lemma healthy_simps [simp]:
  "healthy []"
  "healthy (Chunk bs # evs) \<longleftrightarrow> bs \<noteq> [] \<and> healthy evs"
  "healthy (RdErr x # evs) \<longleftrightarrow> io_kind x = Interrupted \<and> healthy evs"
  by (simp_all add: healthy_def)

text \<open>What one read does on a healthy transport.\<close>

lemma healthy_read:
  assumes "healthy (inp s)" "0 < k"
  obtains (eof) "stream_read k s = (Ok [], s)" "inp s = []"
  | (data) b bs evs where "stream_read k s = (Ok (b # bs), s\<lparr>inp := evs\<rparr>)" "healthy evs"
      "Suc (length bs) \<le> k" "bytes_of (inp s) = b # bs @ bytes_of evs"
  | (again) x evs where "stream_read k s = (Err x, s\<lparr>inp := evs\<rparr>)" "io_kind x = Interrupted"
      "healthy evs" "bytes_of (inp s) = bytes_of evs"
proof (cases "inp s")
  case Nil
  then show ?thesis by (intro eof) (simp_all add: stream_read_def)
next
  case (Cons e r)
  show ?thesis
  proof (cases e)
    case (RdErr x)
    with Cons assms show ?thesis by (intro again [of x r]) (simp_all add: stream_read_def)
  next
    case (Chunk bs)
    with Cons assms have ne: "bs \<noteq> []" "healthy r" by simp_all
    show ?thesis
    proof (cases "length bs \<le> k")
      case True
      from ne obtain c cs where "bs = c # cs" by (cases bs) auto
      with True Cons Chunk ne show ?thesis by (intro data [of c cs r]) (simp_all add: stream_read_def)
    next
      case False
      with assms(2) ne obtain c cs where tk: "take k bs = c # cs" by (cases "take k bs") auto
      have len: "length (take k bs) = k" using False by simp
      have "bs = c # cs @ drop k bs" using append_take_drop_id [of k bs] tk by simp
      with False Cons Chunk ne tk len show ?thesis
        by (intro data [of c cs "Chunk (drop k bs) # r"]) (simp_all add: stream_read_def)
    qed
  qed
qed

text \<open>\<open>read_exact\<close> takes exactly the next bytes of the stream, or runs into its end.\<close>

definition exact_result :: "u8 list \<Rightarrow> nat \<Rightarrow> u8 list \<Rightarrow> io_error + u8 list" where
  "exact_result acc k bs = (if k \<le> length bs then Ok (acc @ take k bs) else Err eof_error)"

lemma exact_result_step:
  "exact_result (acc @ cs) m bs = exact_result acc (length cs + m) (cs @ bs)"
  by (simp add: exact_result_def)

lemma read_exact_spec:
  "healthy (inp s) \<Longrightarrow> length acc \<le> n \<Longrightarrow> n - length acc = k \<Longrightarrow>
   \<exists>evs. healthy evs \<and>
     read_exact n acc s = (exact_result acc k (bytes_of (inp s)), s\<lparr>inp := evs\<rparr>) \<and>
     bytes_of evs = drop k (bytes_of (inp s))"
proof (induction n acc s arbitrary: k rule: read_exact.induct)
  case (1 n acc s)
  show ?case
  proof (cases "length acc < n")
    case False
    with "1.prems" show ?thesis
      by (intro exI [of _ "inp s"]) (subst read_exact.simps, simp add: exact_result_def)
  next
    case True
    then have "0 < n - length acc" by simp
    with "1.prems"(1) show ?thesis
    proof (cases rule: healthy_read)
      case eof
      with True "1.prems" show ?thesis
        by (intro exI [of _ "[]"]) (subst read_exact.simps, auto simp: exact_result_def)
    next
      case (data b bs evs)
      let ?s = "s\<lparr>inp := evs\<rparr>" and ?m = "n - length (acc @ b # bs)"
      have le: "length (acc @ b # bs) \<le> n" and h: "healthy (inp ?s)" using data True by simp_all
      have k: "k = length (b # bs) + ?m" using "1.prems" data True by simp
      have "read_exact n acc s = read_exact n (acc @ b # bs) ?s"
        using True data by (subst read_exact.simps) simp
      moreover have "exact_result (acc @ b # bs) ?m (bytes_of evs) = exact_result acc k (bytes_of (inp s))"
        by (simp only: k exact_result_step data(4) append_Cons [symmetric])
      ultimately show ?thesis
        using "1.IH"(2) [OF True data(1) [symmetric] refl refl h le refl] data(4) k by simp
    next
      case (again x evs)
      have "read_exact n acc s = read_exact n acc (s\<lparr>inp := evs\<rparr>)"
        using True again by (subst read_exact.simps) simp
      with "1.IH"(1) [OF True again(1) [symmetric] refl again(2), of k] again "1.prems" show ?thesis
        by simp
    qed
  qed
qed

text \<open>The prefix loop does the same, and tells an end before any byte from one inside.\<close>

definition prefix_result :: "u8 list \<Rightarrow> nat \<Rightarrow> u8 list \<Rightarrow> frame_error + read0" where
  "prefix_result acc k bs =
     (if k \<le> length bs then Ok (Filled (acc @ take k bs))
      else if acc @ bs = [] then Ok Read0_Closed else Err Truncated)"

lemma prefix_result_step:
  "prefix_result (acc @ cs) m bs = prefix_result acc (length cs + m) (cs @ bs)"
  by (simp add: prefix_result_def)

lemma read_exact_or_closed_spec:
  "healthy (inp s) \<Longrightarrow> length acc \<le> n \<Longrightarrow> n - length acc = k \<Longrightarrow>
   \<exists>evs. healthy evs \<and>
     read_exact_or_closed n acc s = (prefix_result acc k (bytes_of (inp s)), s\<lparr>inp := evs\<rparr>) \<and>
     bytes_of evs = drop k (bytes_of (inp s))"
proof (induction n acc s arbitrary: k rule: read_exact_or_closed.induct)
  case (1 n acc s)
  show ?case
  proof (cases "length acc < n")
    case False
    with "1.prems" show ?thesis
      by (intro exI [of _ "inp s"]) (subst read_exact_or_closed.simps, simp add: prefix_result_def)
  next
    case True
    then have "0 < n - length acc" by simp
    with "1.prems"(1) show ?thesis
    proof (cases rule: healthy_read)
      case eof
      with True "1.prems" show ?thesis
        by (intro exI [of _ "[]"]) (subst read_exact_or_closed.simps, auto simp: prefix_result_def)
    next
      case (data b bs evs)
      let ?s = "s\<lparr>inp := evs\<rparr>" and ?m = "n - length (acc @ b # bs)"
      have le: "length (acc @ b # bs) \<le> n" and h: "healthy (inp ?s)" using data True by simp_all
      have k: "k = length (b # bs) + ?m" using "1.prems" data True by simp
      have "read_exact_or_closed n acc s = read_exact_or_closed n (acc @ b # bs) ?s"
        using True data by (subst read_exact_or_closed.simps) simp
      moreover have "prefix_result (acc @ b # bs) ?m (bytes_of evs) = prefix_result acc k (bytes_of (inp s))"
        by (simp only: k prefix_result_step data(4) append_Cons [symmetric])
      ultimately show ?thesis
        using "1.IH"(2) [OF True data(1) [symmetric] refl refl h le refl] data(4) k by simp
    next
      case (again x evs)
      have "read_exact_or_closed n acc s = read_exact_or_closed n acc (s\<lparr>inp := evs\<rparr>)"
        using True again by (subst read_exact_or_closed.simps) simp
      with "1.IH"(1) [OF True again(1) [symmetric] refl again(2), of k] again "1.prems" show ?thesis
        by simp
    qed
  qed
qed

subsection \<open>One frame of the byte stream\<close>

definition frame_bytes :: "string \<Rightarrow> u8 list" where
  "frame_bytes body = to_be_bytes (of_nat (length body)) @ as_bytes body"

definition parse_frame :: "u32 \<Rightarrow> u8 list \<Rightarrow> (frame_error + string) \<times> u8 list" where
  "parse_frame maximum bs =
     (if bs = [] then (Err Closed, [])
      else if length bs < 4 then (Err Truncated, [])
      else (let n = from_be_bytes (take 4 bs); rest = drop 4 bs in
        if n > maximum then (Err (TooLarge n maximum), rest)
        else if length rest < unat n then (Err Truncated, [])
        else (case from_utf8 (take (unat n) rest) of
            Inl _ \<Rightarrow> (Err NotUtf8, drop (unat n) rest)
          | Inr t \<Rightarrow> (Ok t, drop (unat n) rest))))"

text \<open>
  The reader refines the byte-stream parser: its result and the bytes it leaves depend on
  the bytes alone, however the transport splits them and interrupts it.
\<close>

lemma read_frame_refines:
  assumes "healthy (inp s)"
  shows "\<exists>evs. healthy evs \<and>
    read_frame maximum s = (fst (parse_frame maximum (bytes_of (inp s))), s\<lparr>inp := evs\<rparr>) \<and>
    bytes_of evs = snd (parse_frame maximum (bytes_of (inp s)))"
proof -
  let ?B = "bytes_of (inp s)"
  obtain evs1 where e1: "healthy evs1"
      "read_exact_or_closed PREFIX_BYTES [] s = (prefix_result [] 4 ?B, s\<lparr>inp := evs1\<rparr>)"
      "bytes_of evs1 = drop 4 ?B"
    using read_exact_or_closed_spec [of s "[]" PREFIX_BYTES 4] assms by (auto simp: PREFIX_BYTES_def)
  let ?n = "from_be_bytes (take 4 ?B)"
  obtain evs2 where e2: "healthy evs2"
      "read_exact (unat ?n) [] (s\<lparr>inp := evs1\<rparr>) =
         (exact_result [] (unat ?n) (bytes_of evs1), s\<lparr>inp := evs2\<rparr>)"
      "bytes_of evs2 = drop (unat ?n) (bytes_of evs1)"
    using read_exact_spec [of "s\<lparr>inp := evs1\<rparr>" "[]" "unat ?n"] e1(1) by auto
  consider "length ?B < 4" | "4 \<le> length ?B" "?n > maximum"
    | "4 \<le> length ?B" "\<not> ?n > maximum" "length (drop 4 ?B) < unat ?n"
    | "4 \<le> length ?B" "\<not> ?n > maximum" "unat ?n \<le> length (drop 4 ?B)"
    by linarith
  then show ?thesis
  proof cases
    case 1
    with e1 show ?thesis
      by (intro exI [of _ evs1]) (auto simp: read_frame_def parse_frame_def prefix_result_def)
  next
    case 2
    with e1 show ?thesis
      by (intro exI [of _ evs1]) (auto simp: read_frame_def parse_frame_def prefix_result_def Let_def)
  next
    case 3
    with e1 e2 show ?thesis
      by (intro exI [of _ evs2])
        (auto simp: read_frame_def parse_frame_def prefix_result_def exact_result_def Let_def eof_error_def)
  next
    case 4
    with e1 e2 show ?thesis
      by (intro exI [of _ evs2])
        (auto simp: read_frame_def parse_frame_def prefix_result_def exact_result_def Let_def
          split: sum.split)
  qed
qed

lemma frame_bytes_length: "length (frame_bytes body) = 4 + length body"
  by (simp add: frame_bytes_def)

definition sendable :: "u32 \<Rightarrow> string \<Rightarrow> bool" where
  "sendable maximum body = (str_ok body \<and> length body \<le> unat maximum)"

lemma unat_length_le:
  "n \<le> unat (w :: u32) \<Longrightarrow> unat (of_nat n :: u32) = n \<and> (of_nat n :: u32) \<le> w"
proof -
  assume le: "n \<le> unat w"
  have "unat w < 2 ^ LENGTH(32)" using unsigned_less [of w, where ?'a = nat] by simp
  with le have "n < 2 ^ LENGTH(32)" by linarith
  then have "unat (of_nat n :: u32) = n" by (intro of_nat_inverse) simp_all
  with le show ?thesis by (simp add: word_le_nat_alt)
qed

lemma parse_frame_bytes:
  assumes "sendable maximum body"
  shows "parse_frame maximum (frame_bytes body @ rest) = (Ok body, rest)"
proof -
  have u: "unat (of_nat (length body) :: u32) = length body" "(of_nat (length body) :: u32) \<le> maximum"
    using assms unat_length_le unfolding sendable_def by blast+
  have "\<not> of_nat (length body) > maximum" using u(2) by simp
  with u assms show ?thesis
    by (simp add: parse_frame_def frame_bytes_def Let_def sendable_def from_utf8_as_bytes)
qed

subsection \<open>The framing interface\<close>

text \<open>
  What a sequence of messages on one connection needs of the framing: a message's bytes are
  read back as that message with the rest of the stream untouched, and an empty stream is a
  clean end.
\<close>

locale framing =
  fixes enc :: "'m \<Rightarrow> 'b list"
    and dec :: "'b list \<Rightarrow> ('e + 'm) \<times> 'b list"
    and sound :: "'m \<Rightarrow> bool"
    and closed :: 'e
  assumes dec_enc: "sound m \<Longrightarrow> dec (enc m @ rest) = (Inr m, rest)"
    and dec_Nil: "dec [] = (Inl closed, [])"
begin

lemma enc_prefix_free:
  assumes "sound m" "sound m'" "enc m @ r = enc m' @ r'"
  shows "m = m' \<and> r = r'"
proof -
  have "(Inr m, r) = (Inr m', r')"
    using dec_enc [OF assms(1), of r] dec_enc [OF assms(2), of r'] unfolding assms(3) by simp
  then show ?thesis by simp
qed

lemma enc_nonempty:
  assumes "sound m"
  shows "enc m \<noteq> []"
proof
  assume "enc m = []"
  with dec_enc [OF assms, of "[]"] have "dec [] = (Inr m, [])" by simp
  with dec_Nil show False by simp
qed

lemma messages_unique:
  "\<forall>m \<in> set ms. sound m \<Longrightarrow> \<forall>m \<in> set ms'. sound m \<Longrightarrow>
   concat (map enc ms) = concat (map enc ms') \<Longrightarrow> ms = ms'"
proof (induction ms arbitrary: ms')
  case Nil
  then have "\<forall>m \<in> set ms'. enc m = [] \<and> sound m" by auto
  with enc_nonempty show ?case by (cases ms') auto
next
  case (Cons m ms)
  have ne: "enc m \<noteq> []" using Cons.prems(1) by (intro enc_nonempty) simp
  obtain m' ns where ms': "ms' = m' # ns"
    using Cons.prems(3) ne by (cases ms') auto
  have "m = m' \<and> concat (map enc ms) = concat (map enc ns)"
  proof (rule enc_prefix_free)
    show "sound m" "sound m'" using Cons.prems(1,2) ms' by simp_all
    show "enc m @ concat (map enc ms) = enc m' @ concat (map enc ns)"
      using Cons.prems(3) ms' by simp
  qed
  moreover from this have "ms = ns"
    using Cons.prems(1,2) ms' by (intro Cons.IH) simp_all
  ultimately show ?case using ms' by simp
qed

lemma dec_stream:
  "\<forall>m \<in> set ms. sound m \<Longrightarrow>
   dec (concat (map enc ms)) =
     (case ms of [] \<Rightarrow> (Inl closed, []) | m # r \<Rightarrow> (Inr m, concat (map enc r)))"
  by (cases ms) (simp_all add: dec_Nil dec_enc)

end

interpretation fr: framing frame_bytes "parse_frame maximum" "sendable maximum" Closed for maximum
proof unfold_locales
  show "parse_frame maximum [] = (Inl Closed, [])" by (simp add: parse_frame_def)
qed (rule parse_frame_bytes)

subsection \<open>The writer\<close>

lemma u32_max_unat: "length body \<le> unat (m :: u32) \<Longrightarrow> length body \<le> u32_max"
  using unsigned_less [of m, where ?'a = nat] by (simp add: u32_max_def)

text \<open>Whatever happens, what was sent is a prefix of the frame; on success it is the frame.\<close>

lemma write_frame_prefix:
  assumes "write_frame body maximum s = (r, s')"
  shows "inp s' = inp s \<and>
    (\<exists>k. out s' = out s @ take k (frame_bytes body) \<and> (r = Ok () \<longrightarrow> k = length (frame_bytes body)))"
proof (cases "length body > u32_max \<or> of_nat (length body) > maximum")
  case True
  with assms have "s' = s" "r \<noteq> Ok ()"
    by (auto simp: write_frame_def Let_def split: if_splits)
  then show ?thesis by (intro conjI exI [of _ 0]) simp_all
next
  case False
  let ?p = "to_be_bytes (of_nat (length body))"
  obtain r1 s1 where w1: "write_all ?p s = (r1, s1)" by fastforce
  note f1 = write_all_frame [OF w1]
  show ?thesis
  proof (cases r1)
    case (Inl e)
    with assms False w1 have "s' = s1" "r = Err (Io e)" by (auto simp: write_frame_def Let_def)
    moreover from f1 obtain k where "inp s1 = inp s" "k \<le> 4" "out s1 = out s @ take k ?p" by auto
    ultimately show ?thesis by (intro conjI exI [of _ k]) (simp_all add: frame_bytes_def)
  next
    case (Inr u)
    obtain r2 s2 where w2: "write_all (as_bytes body) s1 = (r2, s2)" by fastforce
    note f2 = write_all_frame [OF w2]
    from f1 Inr have o1: "inp s1 = inp s" "out s1 = out s @ ?p" by auto
    show ?thesis
    proof (cases r2)
      case (Inl e)
      with assms False w1 w2 Inr have "s' = s2" "r = Err (Io e)"
        by (auto simp: write_frame_def Let_def)
      moreover from f2 obtain k where "inp s2 = inp s1" "out s2 = out s1 @ take k (as_bytes body)" by auto
      ultimately show ?thesis using o1
        by (intro conjI exI [of _ "4 + k"]) (simp_all add: frame_bytes_def)
    next
      case (Inr u2)
      obtain r3 s3 where w3: "flush s2 = (r3, s3)" by fastforce
      note f3 = flush_frame [OF w3]
      from f2 Inr have o2: "inp s2 = inp s1" "out s2 = out s1 @ as_bytes body" by auto
      have "s' = s3" using assms False w1 w2 w3 Inr \<open>r1 = Inr u\<close>
        by (auto simp: write_frame_def Let_def split: sum.splits)
      with f3 o1 o2 show ?thesis
        by (intro conjI exI [of _ "length (frame_bytes body)"]) (simp_all add: frame_bytes_def)
    qed
  qed
qed

text \<open>A transport that takes every write sends the frame.\<close>

lemma write_all_clean: "wev s = [] \<Longrightarrow> write_all bs s = (Ok (), s\<lparr>out := out s @ bs\<rparr>)"
proof (cases "bs = []")
  case False
  moreover assume "wev s = []"
  ultimately show ?thesis
    by (subst write_all.simps)
      (cases bs; simp add: stream_write_def write_all.simps [of "[]"])
qed (simp add: write_all.simps [of "[]"])

lemma write_frame_clean:
  assumes "wev s = []" "length body \<le> unat maximum"
  shows "write_frame body maximum s = (Ok (), s\<lparr>out := out s @ frame_bytes body\<rparr>)"
proof -
  have "\<not> of_nat (length body) > maximum"
    using unat_length_le [OF assms(2)] by (simp add: not_less)
  with assms show ?thesis
    using u32_max_unat [OF assms(2)]
    by (simp add: write_frame_def Let_def write_all_clean frame_bytes_def flush_def)
qed

end
