(* ===== verification/FrameProps.thy ===== *)
theory FrameProps
  imports FrameSpec
begin

section \<open>Properties of the framing\<close>

text \<open>The claims about \<open>src/frame.rs\<close>, each with a witness where it has a hypothesis.\<close>

text \<open>Reading \<open>n\<close> frames in a row, and writing a list of messages, on one connection.\<close>

fun read_messages :: "nat \<Rightarrow> u32 \<Rightarrow> stream \<Rightarrow> (frame_error + string) list" where
  "read_messages 0 maximum s = []"
| "read_messages (Suc n) maximum s =
     (let (r, s') = read_frame maximum s in r # read_messages n maximum s')"

fun write_messages :: "string list \<Rightarrow> u32 \<Rightarrow> stream \<Rightarrow> stream" where
  "write_messages [] maximum s = s"
| "write_messages (m # ms) maximum s = write_messages ms maximum (snd (write_frame m maximum s))"

lemma write_messages_out:
  "wev s = [] \<Longrightarrow> \<forall>m \<in> set ms. sendable maximum m \<Longrightarrow>
   out (write_messages ms maximum s) = out s @ concat (map frame_bytes ms)"
  by (induction ms arbitrary: s) (simp_all add: write_frame_clean sendable_def)

lemma read_messages_spec:
  "healthy (inp s) \<Longrightarrow> bytes_of (inp s) = concat (map frame_bytes ms) \<Longrightarrow>
   \<forall>m \<in> set ms. sendable maximum m \<Longrightarrow>
   read_messages (Suc (length ms)) maximum s = map Ok ms @ [Err Closed]"
proof (induction ms arbitrary: s)
  case Nil
  from read_frame_refines [OF Nil.prems(1), of maximum] Nil.prems(2)
  show ?case by (auto simp: fr.dec_Nil)
next
  case (Cons m ms)
  from read_frame_refines [OF Cons.prems(1), of maximum] Cons.prems(2,3)
  obtain evs where e: "healthy evs" "read_frame maximum s = (Ok m, s\<lparr>inp := evs\<rparr>)"
      "bytes_of evs = concat (map frame_bytes ms)"
    by (auto simp: fr.dec_enc)
  have "read_messages (Suc (length ms)) maximum (s\<lparr>inp := evs\<rparr>) = map Ok ms @ [Err Closed]"
    using e Cons.prems by (intro Cons.IH) simp_all
  with e(2) show ?case by (simp del: read_messages.simps(2) add: read_messages.simps(2) [of "Suc _"])
qed

text \<open>
  C1: messages written on one connection come back in order, however the transport splits
  the bytes and interrupts the reads, and are followed by a clean end.
\<close>

theorem frames_round_trip:
  assumes "wev s = []" "out s = []"
    and "\<forall>m \<in> set ms. sendable maximum m"
    and "healthy (inp t)" "bytes_of (inp t) = out (write_messages ms maximum s)"
  shows "read_messages (Suc (length ms)) maximum t = map Ok ms @ [Err Closed]"
  using assms by (intro read_messages_spec) (simp_all add: write_messages_out)

theorem frames_round_trip_witness:
  "read_messages 3 100
     \<lparr>inp = [Chunk [0, 0], RdErr (IoError Interrupted ''''), Chunk [0, 2, 0x68, 0x69, 0, 0, 0],
        Chunk [1, 0x21]], wev = [], out = []\<rparr>
   = [Ok ''hi'', Ok ''!'', Err Closed]"
proof -
  let ?s = "\<lparr>inp = [], wev = [], out = []\<rparr>"
  let ?t = "\<lparr>inp = [Chunk [0, 0], RdErr (IoError Interrupted ''''), Chunk [0, 2, 0x68, 0x69, 0, 0, 0],
        Chunk [1, 0x21]], wev = [], out = []\<rparr>"
  have ok: "\<forall>m \<in> set [''hi'', ''!'']. sendable 100 m" by code_simp
  have "bytes_of (inp ?t) = out (write_messages [''hi'', ''!''] 100 ?s)"
    using write_messages_out [OF _ ok, of ?s] by (simp add: frame_bytes_def to_be_bytes_def as_bytes_def)
  then show ?thesis
    using frames_round_trip [of ?s "[''hi'', ''!'']" 100 ?t] ok
    by (simp add: eval_nat_numeral)
qed

text \<open>
  C2: reading a frame refines the byte-stream parser: the result, and the bytes left for the
  next frame, depend on the bytes of the stream alone.
\<close>

theorem read_frame_refines_parse_frame:
  assumes "healthy (inp s)"
  shows "fst (read_frame maximum s) = fst (parse_frame maximum (bytes_of (inp s))) \<and>
    bytes_of (inp (snd (read_frame maximum s))) = snd (parse_frame maximum (bytes_of (inp s))) \<and>
    healthy (inp (snd (read_frame maximum s)))"
  using read_frame_refines [OF assms, of maximum] by auto

theorem read_frame_refines_parse_frame_witness:
  "fst (read_frame 16 \<lparr>inp = [Chunk [0, 0, 0], Chunk [10, 0x61, 0x62]], wev = [], out = []\<rparr>)
   = Err Truncated"
proof -
  let ?s = "\<lparr>inp = [Chunk [0, 0, 0], Chunk [10, 0x61, 0x62]], wev = [], out = []\<rparr>"
  have "healthy (inp ?s)" by simp
  moreover have "fst (parse_frame 16 (bytes_of (inp ?s))) = Err Truncated"
    by (simp add: parse_frame_def from_be_bytes_def Let_def)
  ultimately show ?thesis using read_frame_refines_parse_frame [of ?s 16] by simp
qed


text \<open>
  C36: whatever the transport does with the writes, what reaches the peer is a prefix of the
  frame, and the whole of it when the write succeeds; a body longer than the maximum is
  refused and nothing of it is sent.
\<close>

theorem write_frame_outcomes:
  "case write_frame body maximum s of
     (Inr _, s') \<Rightarrow> length body \<le> unat maximum \<and> out s' = out s @ frame_bytes body
   | (Inl (TooLarge _ m), s') \<Rightarrow> length body > unat maximum \<and> m = maximum \<and> s' = s
   | (Inl (Io _), s') \<Rightarrow>
       length body \<le> unat maximum \<and> (\<exists>k. out s' = out s @ take k (frame_bytes body))
   | _ \<Rightarrow> False"
proof (cases "length body \<le> unat maximum")
  case False
  have "of_nat (length body) > maximum" if "length body \<le> u32_max"
  proof -
    have "unat (of_nat (length body) :: u32) = length body"
      using that by (intro of_nat_inverse) (simp_all add: u32_max_def)
    with False show ?thesis by (simp add: word_less_nat_alt)
  qed
  with False show ?thesis by (auto simp: write_frame_def Let_def)
next
  case True
  obtain r s' where w: "write_frame body maximum s = (r, s')" by fastforce
  from True have "\<not> of_nat (length body) > maximum" "length body \<le> u32_max"
    using unat_length_le [OF True] u32_max_unat [OF True] by (simp_all add: not_less)
  with w have "(\<exists>e. r = Err (Io e)) \<or> r = Ok ()"
    by (auto simp: write_frame_def Let_def split: prod.splits sum.splits)
  moreover have "\<exists>k. frame_bytes body = take k (frame_bytes body)"
    by (rule exI [of _ "length (frame_bytes body)"]) simp
  ultimately show ?thesis using w True write_frame_prefix [OF w] by auto
qed

end
