(* ===== verification/Message.thy ===== *)
theory Message
  imports FrameSpec
begin

section \<open>Message decoding and version negotiation\<close>

text \<open>
  \<open>src/message.rs\<close>: the refusal rules, the published operations, the two decoders
  (\<open>decode_hello\<close>, \<open>decode_request\<close>), \<open>negotiate\<close>, and the two handshake replies. A JSON
  text reaches them as a string and is read by the text library \<open>H\<close>.
\<close>

definition SUPPORTED_VERSIONS :: "u64 list" where
  "SUPPORTED_VERSIONS = [1]"

datatype rule =
    VersionsDoNotIntersect
  | VersionAbsentAfterHandshake
  | FirstMessageNotHello
  | FrameTooLarge
  | BodyNotAnObject
  | RequestIdAbsent
  | OperationAbsent
  | UnknownOperation
  | DatabaseIsAPath
  | UnknownSession
  | SecondSessionOnOneConnection
  | PeerIsAnotherUser

fun rule_as_str :: "rule \<Rightarrow> string" where
  "rule_as_str VersionsDoNotIntersect = ''versions_do_not_intersect''"
| "rule_as_str VersionAbsentAfterHandshake = ''version_absent_after_handshake''"
| "rule_as_str FirstMessageNotHello = ''first_message_not_hello''"
| "rule_as_str FrameTooLarge = ''frame_too_large''"
| "rule_as_str BodyNotAnObject = ''body_not_an_object''"
| "rule_as_str RequestIdAbsent = ''request_id_absent''"
| "rule_as_str OperationAbsent = ''operation_absent''"
| "rule_as_str UnknownOperation = ''unknown_operation''"
| "rule_as_str DatabaseIsAPath = ''database_is_a_path''"
| "rule_as_str UnknownSession = ''unknown_session''"
| "rule_as_str SecondSessionOnOneConnection = ''second_session_on_one_connection''"
| "rule_as_str PeerIsAnotherUser = ''peer_is_another_user''"

fun rule_code :: "rule \<Rightarrow> code option" where
  "rule_code VersionsDoNotIntersect = Some ServerProtocolUnsupported"
| "rule_code _ = None"

datatype refusal = Refusal (refusal_rule: rule) (refusal_detail: string)

definition refusal_code :: "refusal \<Rightarrow> code option" where
  "refusal_code r = rule_code (refusal_rule r)"

definition refusal_display :: "refusal \<Rightarrow> string" where
  "refusal_display r = rule_as_str (refusal_rule r) @ '': '' @ refusal_detail r"

datatype operation =
    OpenSession | CloseSession | Query | Begin | Commit | Rollback | Status | Shutdown

definition operation_parse :: "string \<Rightarrow> operation option" where
  "operation_parse name =
     (if name = ''open_session'' then Some OpenSession
      else if name = ''close_session'' then Some CloseSession
      else if name = ''query'' then Some Query
      else if name = ''begin'' then Some Begin
      else if name = ''commit'' then Some Commit
      else if name = ''rollback'' then Some Rollback
      else if name = ''status'' then Some Status
      else if name = ''shutdown'' then Some Shutdown
      else None)"

fun operation_as_str :: "operation \<Rightarrow> string" where
  "operation_as_str OpenSession = ''open_session''"
| "operation_as_str CloseSession = ''close_session''"
| "operation_as_str Query = ''query''"
| "operation_as_str Begin = ''begin''"
| "operation_as_str Commit = ''commit''"
| "operation_as_str Rollback = ''rollback''"
| "operation_as_str Status = ''status''"
| "operation_as_str Shutdown = ''shutdown''"

record hello =
  supported_versions :: "u64 list"
  client :: "string option"

record request =
  req_version :: u64
  request_id :: string
  session_id :: "string option"
  req_operation :: operation
  database :: "string option"
  statement :: "string option"

subsection \<open>The decoders\<close>

definition object_of :: "textlib \<Rightarrow> string \<Rightarrow> refusal + json_map" where
  "object_of H body = (case from_str H body of
     Inl e \<Rightarrow> Err (Refusal BodyNotAnObject (''the frame body is not readable JSON: '' @ e))
   | Inr v \<Rightarrow> (case v of
         Object m \<Rightarrow> Ok m
       | _ \<Rightarrow> Err (Refusal BodyNotAnObject ''the frame body is a JSON object'')))"

text \<open>\<open>object.get(key).and_then(Value::as_str)\<close> and its \<open>as_u64\<close> twin.\<close>

definition get_str :: "json_map \<Rightarrow> string \<Rightarrow> string option" where
  "get_str m k = Option.bind (bt_get m k) as_str"

definition get_u64 :: "json_map \<Rightarrow> string \<Rightarrow> u64 option" where
  "get_u64 m k = Option.bind (bt_get m k) as_u64"

definition decode_hello :: "textlib \<Rightarrow> string \<Rightarrow> refusal + hello" where
  "decode_hello H body = (case object_of H body of
     Inl r \<Rightarrow> Err r
   | Inr m \<Rightarrow> (case get_str m ''message'' of
         None \<Rightarrow> Err (Refusal FirstMessageNotHello
           ''the first message on a connection is hello, and this names no message'')
       | Some t \<Rightarrow>
           (if t = ''hello'' then
              Ok \<lparr>supported_versions =
                    (case Option.bind (bt_get m ''supported_versions'') as_array of
                       None \<Rightarrow> []
                     | Some vs \<Rightarrow> List.map_filter as_u64 vs),
                  client = get_str m ''client''\<rparr>
            else Err (Refusal FirstMessageNotHello
              (''the first message on a connection is hello, not '' @ t)))))"

fun iter_max :: "u64 list \<Rightarrow> u64 option" where
  "iter_max [] = None"
| "iter_max (v # vs) = (case iter_max vs of None \<Rightarrow> Some v | Some w \<Rightarrow> Some (max v w))"

definition negotiate :: "hello \<Rightarrow> refusal + u64" where
  "negotiate h =
     (case iter_max (filter (\<lambda>v. v \<in> set SUPPORTED_VERSIONS) (supported_versions h)) of
        Some v \<Rightarrow> Ok v
      | None \<Rightarrow> Err (Refusal VersionsDoNotIntersect
          (''the client offers '' @ debug_u64s (supported_versions h) @
           '' and this build speaks '' @ debug_u64s SUPPORTED_VERSIONS)))"

definition path_shaped :: "string \<Rightarrow> string option" where
  "path_shaped name =
     (if name = [] then Some ''database is a catalog name, and this is empty''
      else if starts_with (CHR ''@'') name then
        Some (name @ '': the @ sigil belongs to the command line, and database carries the bare name'')
      else if contains (CHR ''/'') name \<or> contains (CHR 0x5C) name \<or> starts_with (CHR ''.'') name then
        Some (name @ '' is a path, and the daemon resolves catalog names rather than paths'')
      else None)"

definition decode_operation :: "json_map \<Rightarrow> refusal + operation" where
  "decode_operation m = (case get_str m ''operation'' of
     None \<Rightarrow> Err (Refusal OperationAbsent
       ''a request names an operation, and there is no default to fall back to'')
   | Some name \<Rightarrow> (case operation_parse name of
         None \<Rightarrow> Err (Refusal UnknownOperation
           (name @ '' is not an operation this contract publishes''))
       | Some p \<Rightarrow> Ok p))"

definition decode_database :: "json_map \<Rightarrow> refusal + string option" where
  "decode_database m = (case get_str m ''database'' of
     None \<Rightarrow> Ok None
   | Some name \<Rightarrow> (case path_shaped name of
         Some problem \<Rightarrow> Err (Refusal DatabaseIsAPath problem)
       | None \<Rightarrow> Ok (Some name)))"

definition decode_request_id :: "json_map \<Rightarrow> string set \<Rightarrow> refusal + string" where
  "decode_request_id m outstanding = (case get_str m ''request_id'' of
     None \<Rightarrow> Err (Refusal RequestIdAbsent
       ''a request carries a non-empty request_id, because responses may arrive in any order'')
   | Some i \<Rightarrow>
      (if i = [] then Err (Refusal RequestIdAbsent
         ''a request carries a non-empty request_id, because responses may arrive in any order'')
       else if i \<in> outstanding then Err (Refusal RequestIdAbsent
         (''request_id '' @ i @ '' is already outstanding on this connection''))
       else Ok i))"

definition decode_version :: "json_map \<Rightarrow> refusal + u64" where
  "decode_version m = (case get_u64 m ''server_protocol_version'' of
     None \<Rightarrow> Err (Refusal VersionAbsentAfterHandshake
       ''every message after the handshake states the negotiated server_protocol_version'')
   | Some v \<Rightarrow>
      (if v \<notin> set SUPPORTED_VERSIONS then Err (Refusal VersionsDoNotIntersect
         (''this build does not speak server_protocol_version '' @ show_u64 v))
       else Ok v))"

text \<open>
  The checks in the source's order: version, a second \<open>hello\<close>, \<open>request_id\<close>, operation,
  \<open>database\<close>.
\<close>

definition decode_object :: "json_map \<Rightarrow> string set \<Rightarrow> refusal + request" where
  "decode_object m outstanding = (case decode_version m of
     Inl r \<Rightarrow> Err r
   | Inr v \<Rightarrow>
      (if get_str m ''message'' = Some ''hello'' then Err (Refusal FirstMessageNotHello
         ''the handshake happens once per connection, and the version cannot change within one'')
       else (case decode_request_id m outstanding of
           Inl r \<Rightarrow> Err r
         | Inr i \<Rightarrow> (case decode_operation m of
               Inl r \<Rightarrow> Err r
             | Inr p \<Rightarrow> (case decode_database m of
                   Inl r \<Rightarrow> Err r
                 | Inr d \<Rightarrow> Ok \<lparr>req_version = v, request_id = i,
                      session_id = get_str m ''session_id'', req_operation = p, database = d,
                      statement = get_str m ''statement''\<rparr>)))))"

definition decode_request :: "textlib \<Rightarrow> string \<Rightarrow> string set \<Rightarrow> refusal + request" where
  "decode_request H body outstanding = (case object_of H body of
     Inl r \<Rightarrow> Err r
   | Inr m \<Rightarrow> decode_object m outstanding)"

subsection \<open>The handshake replies\<close>

definition welcome_reply :: "u64 \<Rightarrow> string \<Rightarrow> json" where
  "welcome_reply v endpoint =
     Object (bt_insert ''endpoint'' (String endpoint)
       (bt_insert ''server_protocol_version'' (num_u64 v)
         (bt_insert ''message'' (String ''welcome'') [])))"

definition refused_reply :: json where
  "refused_reply =
     Object (bt_insert ''supported_versions'' (Array (map num_u64 SUPPORTED_VERSIONS))
       (bt_insert ''code'' (String (code_as_str ServerProtocolUnsupported))
         (bt_insert ''message'' (String ''refused'') [])))"

subsection \<open>Lemmas\<close>

lemma operation_parse_as_str [simp]: "operation_parse (operation_as_str p) = Some p"
  by (cases p) (simp_all add: operation_parse_def)

lemma operation_parse_Some: "operation_parse name = Some p \<longleftrightarrow> name = operation_as_str p"
  by (cases p) (auto simp: operation_parse_def)

lemma rule_as_str_inject: "rule_as_str r = rule_as_str s \<longleftrightarrow> r = s"
  by (cases r; cases s) simp_all

lemma rule_code_Some: "rule_code r = Some c \<longleftrightarrow> r = VersionsDoNotIntersect \<and> c = ServerProtocolUnsupported"
  by (cases r) auto

lemma iter_max_None [simp]: "iter_max vs = None \<longleftrightarrow> vs = []"
  by (cases vs) (auto split: option.splits)

lemma iter_max_Some: "iter_max vs = Some w \<Longrightarrow> w \<in> set vs \<and> (\<forall>v \<in> set vs. v \<le> w)"
proof (induction vs arbitrary: w)
  case (Cons v vs)
  show ?case
  proof (cases "iter_max vs")
    case None
    with Cons.prems show ?thesis by simp
  next
    case (Some u)
    with Cons.IH Cons.prems show ?thesis
      by (auto simp: max_def split: if_splits)
  qed
qed simp

lemma path_shaped_None:
  "path_shaped name = None \<longleftrightarrow>
   name \<noteq> [] \<and> \<not> starts_with (CHR ''@'') name \<and> \<not> starts_with (CHR ''.'') name \<and>
   CHR ''/'' \<notin> set name \<and> CHR 0x5C \<notin> set name"
  by (auto simp: path_shaped_def contains_def)

end
