(* ===== verification/Catalog.thy ===== *)
theory Catalog
  imports Message
begin

section \<open>The named database catalog\<close>

text \<open>
  \<open>src/catalog.rs\<close>: the catalog, its parser, its mutations and the document it serializes
  to. \<open>store\<close> and \<open>default_path\<close> are in \<open>CatalogStore\<close>, over the file system.
\<close>

definition CATALOG_VERSIONS :: "u64 list" where
  "CATALOG_VERSIONS = [1]"

definition CURRENT_VERSION :: u64 where
  "CURRENT_VERSION = 1"

datatype rejection = Rejection (rejection_code: code) (rejection_problems: "string list")

definition rejection_display :: "rejection \<Rightarrow> string" where
  "rejection_display r =
     code_as_str (rejection_code r) @
     concat (map (\<lambda>p. CHR 0x0A # ''  '' @ p) (rejection_problems r))"

datatype catalog_error = Rejected rejection | CatalogIo io_error

fun catalog_error_display :: "catalog_error \<Rightarrow> string" where
  "catalog_error_display (Rejected r) = rejection_display r"
| "catalog_error_display (CatalogIo e) = io_text e"

text \<open>\<open>Error::source\<close>: every error of the catalog has one, and shows it.\<close>

fun catalog_error_source :: "catalog_error \<Rightarrow> (rejection + io_error) option" where
  "catalog_error_source (Rejected r) = Some (Inl r)"
| "catalog_error_source (CatalogIo e) = Some (Inr e)"

lemma catalog_error_source_shown:
  "\<exists>x. catalog_error_source e = Some x \<and> catalog_error_display e = case_sum rejection_display io_text x"
  by (cases e) simp_all

record entry =
  entry_path :: string
  entry_unknown :: json_map

record catalog =
  databases :: "(string, entry) btree"
  cat_unknown :: json_map

definition catalog_default :: catalog where
  "catalog_default = \<lparr>databases = [], cat_unknown = []\<rparr>"

subsection \<open>The rules for a name and a path\<close>

text \<open>
  The first character of a string in UTF-8: all the bytes of it, so the problem's text shows
  the character and not a byte of it.
\<close>

definition first_char :: "string \<Rightarrow> string" where
  "first_char s = take (snd (utf8_step (as_bytes s))) s"

definition name_char :: "char \<Rightarrow> bool" where
  "name_char c = (is_ascii_alphanumeric c \<or> c = CHR ''_'' \<or> c = CHR ''-'')"

text \<open>
  \<open>characters.find(bad)\<close> stops at the first character that is not allowed; every byte of a
  character outside ASCII is a byte that is not allowed, so the first such byte starts it.
\<close>

definition name_problem :: "textlib \<Rightarrow> string \<Rightarrow> string option" where
  "name_problem H name = (case name of
     [] \<Rightarrow> Some ''a name is not empty''
   | c # cs \<Rightarrow>
      (if c = CHR ''@'' then
         Some (name @ '': the @ sigil belongs to the command line, not to the name'')
       else if \<not> is_ascii_alphanumeric c then
         Some (name @ '': a name starts with an ASCII letter or digit'')
       else (case dropWhile name_char cs of
           [] \<Rightarrow> None
         | bad \<Rightarrow> Some (name @ '': '' @ char_debug H (first_char bad) @
             '' is not allowed in a name, which excludes path separators and whitespace so a name is never mistaken for a path''))))"

definition path_problem :: "string \<Rightarrow> string option" where
  "path_problem path =
     (if path = [] then Some ''path is empty''
      else if \<not> is_absolute path then
        Some (''path '' @ display path @
          '' is relative, and a catalog is resolved from an arbitrary working directory, so a relative path has no anchor'')
      else None)"

definition entry_from :: "json \<Rightarrow> string + entry" where
  "entry_from v = (case as_object v of
     None \<Rightarrow> Err ''an entry is an object, so a bare value has no room for the members a later version adds''
   | Some m \<Rightarrow> (case bt_get m ''path'' of
         None \<Rightarrow> Err ''path is absent, and an entry with no target is not a claim about anything''
       | Some raw \<Rightarrow> (case as_str raw of
             None \<Rightarrow> Err ''path is a string''
           | Some path \<Rightarrow> (case path_problem path of
                 Some problem \<Rightarrow> Err problem
               | None \<Rightarrow> Ok \<lparr>entry_path = path, entry_unknown = bt_remove ''path'' m\<rparr>))))"

subsection \<open>Parsing\<close>

text \<open>The loop over the members of \<open>databases\<close>: problems and entries are accumulated.\<close>

fun parse_entries ::
  "textlib \<Rightarrow> (string \<times> json) list \<Rightarrow> string list \<Rightarrow> (string, entry) btree \<Rightarrow>
   string list \<times> (string, entry) btree" where
  "parse_entries H [] problems entries = (problems, entries)"
| "parse_entries H ((name, v) # rest) problems entries =
     (case name_problem H name of
        Some problem \<Rightarrow> parse_entries H rest (problems @ [problem]) entries
      | None \<Rightarrow> (case entry_from v of
            Inr e \<Rightarrow> parse_entries H rest problems (bt_insert name e entries)
          | Inl problem \<Rightarrow> parse_entries H rest (problems @ [name @ '': '' @ problem]) entries))"

definition check_version :: "json_map \<Rightarrow> rejection option" where
  "check_version m = (case bt_get m ''catalog_version'' of
     None \<Rightarrow> Some (Rejection CatalogInvalid
       [''catalog_version is absent, and it is what makes every other rule interpretable''])
   | Some v \<Rightarrow> (case as_u64 v of
         None \<Rightarrow> Some (Rejection CatalogInvalid [''catalog_version must be a positive integer''])
       | Some version \<Rightarrow>
          (if version < 1 then
             Some (Rejection CatalogInvalid [''catalog_version must be a positive integer''])
           else if version \<notin> set CATALOG_VERSIONS then
             Some (Rejection CatalogVersionUnsupported
               [''catalog_version '' @ show_u64 version @
                '' is not one this build reads; supported: '' @ debug_u64s CATALOG_VERSIONS])
           else None)))"

definition databases_member :: "json_map \<Rightarrow> string list \<times> json_map" where
  "databases_member m = (case bt_get m ''databases'' of
     None \<Rightarrow> ([''databases is absent, and an absent member is indistinguishable from a truncated file''], [])
   | Some (Object ds) \<Rightarrow> ([], ds)
   | Some _ \<Rightarrow> ([''databases must be an object, because the name is the key and an array would allow two entries claiming one name''], []))"

text \<open>\<open>Catalog::parse\<close> after the text has become a JSON value.\<close>

definition parse_document :: "textlib \<Rightarrow> json \<Rightarrow> rejection + catalog" where
  "parse_document H document = (case as_object document of
     None \<Rightarrow> Err (Rejection CatalogInvalid [''a catalog is a JSON object''])
   | Some m \<Rightarrow> (case check_version m of
         Some r \<Rightarrow> Err r
       | None \<Rightarrow>
          (let (problems0, ds) = databases_member m;
               (problems, entries) = parse_entries H ds problems0 []
           in if problems = []
              then Ok \<lparr>databases = entries,
                cat_unknown = bt_remove ''databases'' (bt_remove ''catalog_version'' m)\<rparr>
              else Err (Rejection CatalogInvalid problems))))"

definition catalog_parse :: "textlib \<Rightarrow> string \<Rightarrow> rejection + catalog" where
  "catalog_parse H text = (case from_str H text of
     Inl e \<Rightarrow> Err (Rejection CatalogInvalid [''the catalog is not valid JSON: '' @ e])
   | Inr document \<Rightarrow> parse_document H document)"

text \<open>\<open>Catalog::load\<close>, given what reading the file returned.\<close>

definition catalog_load :: "textlib \<Rightarrow> io_error + string \<Rightarrow> catalog_error + catalog" where
  "catalog_load H contents = (case contents of
     Inr text \<Rightarrow> (case catalog_parse H text of Inl r \<Rightarrow> Err (Rejected r) | Inr c \<Rightarrow> Ok c)
   | Inl e \<Rightarrow> (if io_kind e = NotFound then Ok catalog_default else Err (CatalogIo e)))"

subsection \<open>Queries and mutations\<close>

definition catalog_names :: "catalog \<Rightarrow> string list" where
  "catalog_names c = bt_keys (databases c)"

definition catalog_get :: "catalog \<Rightarrow> string \<Rightarrow> entry option" where
  "catalog_get c name = bt_get (databases c) name"

definition catalog_is_empty :: "catalog \<Rightarrow> bool" where
  "catalog_is_empty c = (databases c = [])"

definition insert_problems :: "textlib \<Rightarrow> string \<Rightarrow> string \<Rightarrow> string list" where
  "insert_problems H name path =
     (case name_problem H name of None \<Rightarrow> [] | Some problem \<Rightarrow> [problem]) @
     (case path_problem path of None \<Rightarrow> [] | Some problem \<Rightarrow> [name @ '': '' @ problem])"

definition catalog_insert ::
  "textlib \<Rightarrow> string \<Rightarrow> string \<Rightarrow> catalog \<Rightarrow> (rejection + unit) \<times> catalog" where
  "catalog_insert H name path c =
     (let problems = insert_problems H name path in
      if problems \<noteq> [] then (Err (Rejection CatalogInvalid problems), c)
      else (let unknown =
              (case bt_get (databases c) name of None \<Rightarrow> [] | Some existing \<Rightarrow> entry_unknown existing)
            in (Ok (), c\<lparr>databases :=
                  bt_insert name \<lparr>entry_path = path, entry_unknown = unknown\<rparr> (databases c)\<rparr>)))"

definition catalog_remove :: "string \<Rightarrow> catalog \<Rightarrow> bool \<times> catalog" where
  "catalog_remove name c =
     (bt_get (databases c) name \<noteq> None, c\<lparr>databases := bt_remove name (databases c)\<rparr>)"

definition entry_document :: "entry \<Rightarrow> json" where
  "entry_document e = Object (bt_insert ''path'' (String (display (entry_path e))) (entry_unknown e))"

definition to_document :: "catalog \<Rightarrow> json" where
  "to_document c =
     (let ds = bt_of_list (map (\<lambda>(name, e). (name, entry_document e)) (databases c));
          root = bt_insert ''databases'' (Object ds)
            (bt_insert ''catalog_version'' (num_u64 CURRENT_VERSION) [])
      in Object (foldl (\<lambda>m (k, v). bt_insert k v m) root (cat_unknown c)))"

end
