(* ===== verification/CatalogSpec.thy ===== *)
theory CatalogSpec
  imports Catalog
begin

section \<open>What the catalog promises\<close>

text \<open>
  The catalog's invariant and its preservation, lookups after mutations, the exact set of
  problems a rejection lists, and the two round trips between a catalog and its document.
\<close>

subsection \<open>Names and paths\<close>

definition name_ok :: "string \<Rightarrow> bool" where
  "name_ok name = (case name of
     [] \<Rightarrow> False
   | c # cs \<Rightarrow> is_ascii_alphanumeric c \<and> list_all name_char cs)"

lemma at_not_alphanumeric [simp]: "\<not> is_ascii_alphanumeric (CHR ''@'')"
  by code_simp

lemma name_problem_None: "name_problem H name = None \<longleftrightarrow> name_ok name"
proof (cases name)
  case (Cons c cs)
  have all: "list_all name_char cs \<longleftrightarrow> dropWhile name_char cs = []"
    by (simp add: dropWhile_eq_Nil_conv list_all_iff)
  show ?thesis
  proof (cases "dropWhile name_char cs")
    case Nil
    show ?thesis
      unfolding \<open>name = c # cs\<close> name_problem_def name_ok_def list.case all Nil by simp
  next
    case (Cons b bs)
    with \<open>name = c # cs\<close> all show ?thesis by (auto simp: name_problem_def name_ok_def)
  qed
qed (simp add: name_problem_def name_ok_def)

lemma path_problem_None: "path_problem path = None \<longleftrightarrow> is_absolute path"
  by (auto simp: path_problem_def is_absolute_def)

lemma name_ok_chars: "name_ok name \<Longrightarrow> c \<in> set name \<Longrightarrow> name_char c"
  by (auto simp: name_ok_def name_char_def list_all_iff split: list.splits)

lemma not_name_char [simp]:
  "\<not> name_char (CHR ''/'')" "\<not> name_char (CHR 0x5C)" "\<not> name_char (CHR ''.'')" "\<not> name_char (CHR ''@'')"
  by code_simp+

text \<open>A name the catalog accepts is never taken for a path by the protocol.\<close>

lemma name_ok_not_path_shaped:
  assumes "name_ok name"
  shows "path_shaped name = None"
proof -
  have "name \<noteq> []" using assms by (auto simp: name_ok_def)
  moreover have "\<not> starts_with c name" if "\<not> name_char c" for c
    using name_ok_chars [OF assms] that by (cases name) auto
  moreover have "c \<notin> set name" if "\<not> name_char c" for c
    using name_ok_chars [OF assms] that by auto
  ultimately show ?thesis by (simp add: path_shaped_None)
qed

subsection \<open>The invariant\<close>

definition entry_ok :: "entry \<Rightarrow> bool" where
  "entry_ok e = (is_absolute (entry_path e) \<and> bt_wf (entry_unknown e) \<and>
     bt_get (entry_unknown e) ''path'' = None)"

definition cat_inv :: "catalog \<Rightarrow> bool" where
  "cat_inv c = (bt_wf (databases c) \<and>
     (\<forall>(name, e) \<in> set (databases c). name_ok name \<and> entry_ok e) \<and>
     bt_wf (cat_unknown c) \<and>
     bt_get (cat_unknown c) ''catalog_version'' = None \<and>
     bt_get (cat_unknown c) ''databases'' = None)"

text \<open>The document keeps a path only when the path is UTF-8, since JSON text is.\<close>

definition paths_utf8 :: "catalog \<Rightarrow> bool" where
  "paths_utf8 c = (\<forall>(name, e) \<in> set (databases c). str_ok (entry_path e))"

lemma cat_inv_default: "cat_inv catalog_default \<and> paths_utf8 catalog_default"
  by (simp add: cat_inv_def paths_utf8_def catalog_default_def bt.wf_empty)

lemma bt_get_set: "bt_wf m \<Longrightarrow> bt_get m k = Some v \<longleftrightarrow> (k, v) \<in> set m"
  by (simp add: bt_get_def bt_wf_def strict_sorted_iff)

lemma bt_getD: "bt_get m k = Some v \<Longrightarrow> (k, v) \<in> set m"
  by (simp add: bt_get_def map_of_SomeD)

lemma set_bt_insert: "set (bt_insert k v m) \<subseteq> insert (k, v) (set m)"
  by (induction k v m rule: bt_insert.induct) (auto simp: bt_insert.simps)

lemma cat_inv_get:
  "cat_inv c \<Longrightarrow> catalog_get c name = Some e \<Longrightarrow> name_ok name \<and> entry_ok e"
  by (auto simp: cat_inv_def catalog_get_def dest!: bt_getD)

lemma cat_inv_remove: "cat_inv c \<Longrightarrow> cat_inv (snd (catalog_remove name c))"
  by (auto simp: cat_inv_def catalog_remove_def bt.wf_remove bt_remove_def bt_wf_remove [unfolded bt_remove_def])

lemma insert_problems_Nil: "insert_problems H name path = [] \<longleftrightarrow> name_ok name \<and> is_absolute path"
  using name_problem_None [of H name] path_problem_None [of path]
  by (auto simp: insert_problems_def split: option.splits)

lemma cat_inv_insert:
  assumes "cat_inv c"
  shows "cat_inv (snd (catalog_insert H name path c))"
proof (cases "insert_problems H name path = []")
  case False
  with assms show ?thesis by (simp add: catalog_insert_def)
next
  case True
  let ?u = "case bt_get (databases c) name of None \<Rightarrow> [] | Some e \<Rightarrow> entry_unknown e"
  from True have ok: "name_ok name" "is_absolute path" by (simp_all add: insert_problems_Nil)
  have "bt_wf ?u \<and> bt_get ?u ''path'' = None"
    using assms
    by (auto simp: cat_inv_def entry_ok_def bt.wf_empty split: option.split dest!: bt_getD)
  with ok have e: "entry_ok \<lparr>entry_path = path, entry_unknown = ?u\<rparr>" by (simp add: entry_ok_def)
  have "name_ok n \<and> entry_ok x"
    if "(n, x) \<in> set (bt_insert name \<lparr>entry_path = path, entry_unknown = ?u\<rparr> (databases c))" for n x
    using that set_bt_insert [of name _ "databases c"] ok e assms by (fastforce simp: cat_inv_def)
  with True assms show ?thesis
    by (auto simp: catalog_insert_def cat_inv_def Let_def bt_wf_insert)
qed

lemma paths_utf8_insert:
  "paths_utf8 c \<Longrightarrow> str_ok path \<Longrightarrow> paths_utf8 (snd (catalog_insert H name path c))"
  using set_bt_insert by (fastforce simp: paths_utf8_def catalog_insert_def Let_def)

lemma paths_utf8_remove: "paths_utf8 c \<Longrightarrow> paths_utf8 (snd (catalog_remove name c))"
  by (auto simp: paths_utf8_def catalog_remove_def bt_remove_def)

subsection \<open>The problems of a document\<close>

definition entry_problem :: "textlib \<Rightarrow> string \<times> json \<Rightarrow> string option" where
  "entry_problem H nv = (case name_problem H (fst nv) of
     Some problem \<Rightarrow> Some problem
   | None \<Rightarrow> (case entry_from (snd nv) of
         Inl problem \<Rightarrow> Some (fst nv @ '': '' @ problem)
       | Inr _ \<Rightarrow> None))"

definition good_entries :: "textlib \<Rightarrow> (string \<times> json) list \<Rightarrow> (string \<times> entry) list" where
  "good_entries H ds = List.map_filter
     (\<lambda>(name, v). if name_problem H name = None then
        (case entry_from v of Inr e \<Rightarrow> Some (name, e) | Inl _ \<Rightarrow> None) else None) ds"

lemma parse_entries_eq:
  "parse_entries H ds problems entries =
     (problems @ List.map_filter (entry_problem H) ds,
      foldl (\<lambda>m (k, v). bt_insert k v m) entries (good_entries H ds))"
proof (induction ds arbitrary: problems entries)
  case Nil
  show ?case by (simp add: good_entries_def)
next
  case (Cons nv ds)
  obtain name v where nv: "nv = (name, v)" by (cases nv)
  from Cons nv show ?case
    by (auto simp: good_entries_def entry_problem_def split: option.split sum.split)
qed

lemma no_entry_problem:
  "entry_problem H (name, v) = None \<longleftrightarrow> name_ok name \<and> (\<exists>e. entry_from v = Inr e)"
  using name_problem_None [of H name]
  by (auto simp: entry_problem_def split: option.splits sum.splits)

lemma map_filter_Nil: "List.map_filter f xs = [] \<longleftrightarrow> (\<forall>x \<in> set xs. f x = None)"
  by (induction xs) (auto simp: List.map_filter_simps split: option.splits)

lemma good_entries_all:
  "\<forall>nv \<in> set ds. entry_problem H nv = None \<Longrightarrow>
   good_entries H ds = map (\<lambda>(name, v). (name, projr (entry_from v))) ds"
proof (induction ds)
  case Nil
  show ?case by (simp add: good_entries_def List.map_filter_simps)
next
  case (Cons nv ds)
  obtain name v where nv: "nv = (name, v)" by (cases nv)
  from Cons.prems nv have "name_ok name" "\<exists>e. entry_from v = Inr e"
    by (simp_all add: no_entry_problem)
  with Cons nv show ?case
    by (auto simp: good_entries_def List.map_filter_simps name_problem_None)
qed

subsection \<open>An entry and its document\<close>

lemma entry_from_Inr:
  "entry_from v = Inr e \<longleftrightarrow>
   (\<exists>m. v = Object m \<and> bt_get m ''path'' = Some (String (entry_path e)) \<and>
     is_absolute (entry_path e) \<and> e = \<lparr>entry_path = entry_path e, entry_unknown = bt_remove ''path'' m\<rparr>)"
proof (cases v)
  case (Object m)
  then show ?thesis
    using path_problem_None [symmetric]
    by (cases e) (auto simp: entry_from_def as_str_Some as_str_def split: option.splits json.splits)
qed (simp_all add: entry_from_def as_object_def)

lemma entry_document_from:
  assumes "wf_json v" "entry_from v = Inr e"
  shows "entry_ok e \<and> str_ok (entry_path e) \<and> entry_document e = v"
proof -
  from assms(2) obtain m where m: "v = Object m" "bt_get m ''path'' = Some (String (entry_path e))"
      "is_absolute (entry_path e)" "entry_unknown e = bt_remove ''path'' m"
    by (auto simp: entry_from_Inr) (metis entry.select_convs(2))
  from m(1) assms(1) have wf: "bt_wf m" by simp
  from m(1) assms(1) bt_getD [OF m(2)] have p: "str_ok (entry_path e)" by auto
  with m p wf have "entry_document e = v" by (simp add: entry_document_def bt.insert_remove)
  with m wf p show ?thesis by (simp add: entry_ok_def bt_wf_remove)
qed

lemma entry_from_document:
  assumes "entry_ok e" "str_ok (entry_path e)"
  shows "entry_from (entry_document e) = Inr e"
proof -
  have "bt_remove ''path'' (bt_insert ''path'' x (entry_unknown e)) = entry_unknown e" for x
    using assms by (simp add: entry_ok_def bt.remove_insert bt.remove_absent)
  with assms show ?thesis
    by (simp add: entry_from_Inr entry_document_def entry_ok_def)
qed

subsection \<open>A catalog and its document\<close>

text \<open>When a document is accepted, and what the catalog then holds.\<close>

definition document_ok :: "json_map \<Rightarrow> json_map \<Rightarrow> bool" where
  "document_ok m ds =
     ((\<exists>v \<in> set CATALOG_VERSIONS. bt_get m ''catalog_version'' = Some (num_u64 v)) \<and>
      bt_get m ''databases'' = Some (Object ds) \<and>
      (\<forall>(name, v) \<in> set ds. name_ok name \<and> (\<exists>e. entry_from v = Inr e)))"

definition catalog_of :: "json_map \<Rightarrow> json_map \<Rightarrow> catalog" where
  "catalog_of m ds =
     \<lparr>databases = bt_of_list (map (\<lambda>(name, v). (name, projr (entry_from v))) ds),
      cat_unknown = bt_remove ''databases'' (bt_remove ''catalog_version'' m)\<rparr>"

lemma check_version_None:
  "check_version m = None \<longleftrightarrow>
   (\<exists>v \<in> set CATALOG_VERSIONS. bt_get m ''catalog_version'' = Some (num_u64 v))"
  by (auto simp: check_version_def CATALOG_VERSIONS_def num_u64_def as_u64_Some split: option.splits)

lemma databases_member_Nil:
  "fst (databases_member m) = [] \<longleftrightarrow> (\<exists>ds. bt_get m ''databases'' = Some (Object ds))"
  by (auto simp: databases_member_def split: option.splits json.splits)

lemma databases_member_Object:
  "bt_get m ''databases'' = Some (Object ds) \<Longrightarrow> databases_member m = ([], ds)"
  by (simp add: databases_member_def)

lemma parse_document_Object:
  "parse_document H (Object m) = (case check_version m of
     Some r \<Rightarrow> Err r
   | None \<Rightarrow>
       (let problems = fst (databases_member m) @
              List.map_filter (entry_problem H) (snd (databases_member m))
        in if problems = []
           then Ok \<lparr>databases = bt_of_list (good_entries H (snd (databases_member m))),
             cat_unknown = bt_remove ''databases'' (bt_remove ''catalog_version'' m)\<rparr>
           else Err (Rejection CatalogInvalid problems)))"
  by (simp add: parse_document_def parse_entries_eq bt_of_list_def case_prod_beta Let_def
      split: option.split)

lemma parse_document_Ok:
  "parse_document H v = Ok c \<longleftrightarrow>
   (\<exists>m ds. v = Object m \<and> document_ok m ds \<and> c = catalog_of m ds)"
proof (cases "\<exists>m. v = Object m")
  case False
  then show ?thesis by (auto simp: parse_document_def as_object_def split: json.splits)
next
  case True
  then obtain m where m: "v = Object m" by blast
  show ?thesis
  proof (cases "check_version m = None \<and> (\<exists>ds. bt_get m ''databases'' = Some (Object ds))")
    case False
    then show ?thesis
      using databases_member_Nil [of m] check_version_None [of m]
      by (auto simp: m parse_document_Object document_ok_def Let_def split: option.splits)
  next
    case True
    then obtain ds where ds: "bt_get m ''databases'' = Some (Object ds)" by blast
    have "List.map_filter (entry_problem H) ds = [] \<longleftrightarrow>
        (\<forall>(name, x) \<in> set ds. name_ok name \<and> (\<exists>e. entry_from x = Inr e))"
      by (auto simp: map_filter_Nil no_entry_problem)
    moreover have "List.map_filter (entry_problem H) ds = [] \<Longrightarrow>
        good_entries H ds = map (\<lambda>(name, x). (name, projr (entry_from x))) ds"
      by (rule good_entries_all) (simp add: map_filter_Nil)
    ultimately show ?thesis
      using True ds check_version_None [of m]
      by (auto simp: m parse_document_Object databases_member_Object document_ok_def catalog_of_def Let_def)
  qed
qed

text \<open>An accepted document gives a catalog that satisfies the invariant.\<close>

lemma wf_json_member: "wf_json (Object m) \<Longrightarrow> bt_get m k = Some v \<Longrightarrow> str_ok k \<and> wf_json v"
  by (force dest: bt_getD)

lemma document_entry:
  assumes "wf_json (Object m)" "document_ok m ds" "(name, v) \<in> set ds"
  shows "name_ok name" "entry_ok (projr (entry_from v))" "str_ok (entry_path (projr (entry_from v)))"
    "entry_document (projr (entry_from v)) = v"
proof -
  from assms(2) have "bt_get m ''databases'' = Some (Object ds)" by (simp add: document_ok_def)
  with assms(1) have "wf_json (Object ds)" using wf_json_member by blast
  with assms(3) have wf: "wf_json v" by auto
  from assms(2,3) obtain e where e: "name_ok name" "entry_from v = Inr e"
    by (auto simp: document_ok_def)
  from e(1) show "name_ok name" .
  from entry_document_from [OF wf e(2)] e(2)
  show "entry_ok (projr (entry_from v))" "str_ok (entry_path (projr (entry_from v)))"
    "entry_document (projr (entry_from v)) = v" by simp_all
qed

lemma document_wf:
  assumes "wf_json (Object m)" "document_ok m ds"
  shows "bt_wf m" "bt_wf ds"
    "bt_of_list (map (\<lambda>(name, v). (name, projr (entry_from v))) ds) =
     map (\<lambda>(name, v). (name, projr (entry_from v))) ds"
proof -
  from assms show "bt_wf m" by simp
  from assms(2) have "bt_get m ''databases'' = Some (Object ds)" by (simp add: document_ok_def)
  with assms(1) show "bt_wf ds" by (auto dest!: bt_getD)
  then show "bt_of_list (map (\<lambda>(name, v). (name, projr (entry_from v))) ds) =
     map (\<lambda>(name, v). (name, projr (entry_from v))) ds"
    by (intro bt_of_list_wf) (simp add: bt_wf_map)
qed

lemma catalog_of_inv:
  assumes "wf_json (Object m)" "document_ok m ds"
  shows "cat_inv (catalog_of m ds) \<and> paths_utf8 (catalog_of m ds)"
  using document_wf [OF assms] document_entry [OF assms]
  by (auto simp: cat_inv_def paths_utf8_def catalog_of_def bt_wf_map bt_wf_remove)

text \<open>Writing the accepted catalog back gives the document that was read, member for member.\<close>

lemma to_document_get:
  assumes "bt_wf (cat_unknown c)"
  shows "bt_get (the (as_object (to_document c))) k =
    (case bt_get (cat_unknown c) k of
       Some v \<Rightarrow> Some v
     | None \<Rightarrow>
        (if k = ''databases'' then
           Some (Object (bt_of_list (map (\<lambda>(name, e). (name, entry_document e)) (databases c))))
         else if k = ''catalog_version'' then Some (num_u64 CURRENT_VERSION) else None))"
  using assms by (simp add: to_document_def Let_def bt_get_foldl_wf split: option.split)

lemma to_document_object: "\<exists>m. to_document c = Object m \<and> bt_wf m"
  by (auto simp: to_document_def Let_def bt.wf_empty intro!: foldl_bt_insert_wf bt_wf_insert)

lemma document_round_trip:
  assumes "wf_json (Object m)" "document_ok m ds"
  shows "to_document (catalog_of m ds) = Object m"
proof -
  let ?c = "catalog_of m ds"
  obtain m' where m': "to_document ?c = Object m'" "bt_wf m'" using to_document_object by blast
  note wf = document_wf [OF assms]
  have "map (\<lambda>(name, e). (name, entry_document e)) (databases ?c) = ds"
    using wf(3) document_entry(4) [OF assms]
    by (auto simp: catalog_of_def comp_def case_prod_beta intro!: map_idI)
  then have ds: "bt_of_list (map (\<lambda>(name, e). (name, entry_document e)) (databases ?c)) = ds"
    using bt_of_list_wf [OF wf(2)] by simp
  have unk: "bt_wf (cat_unknown ?c)" using wf(1) by (simp add: catalog_of_def bt_wf_remove)
  from assms(2) have g: "bt_get m ''databases'' = Some (Object ds)"
      "bt_get m ''catalog_version'' = Some (num_u64 CURRENT_VERSION)"
    by (auto simp: document_ok_def CATALOG_VERSIONS_def CURRENT_VERSION_def)
  have "bt_get m' k = bt_get m k" for k
    using to_document_get [OF unk, of k] g ds m'(1)
    by (auto simp: catalog_of_def split: option.splits)
  with wf(1) m' show ?thesis by (simp add: bt_ext [OF m'(2) wf(1)] fun_eq_iff)
qed

text \<open>Reading back the document of a catalog gives the catalog.\<close>

lemma catalog_round_trip:
  assumes inv: "cat_inv c" and utf8: "paths_utf8 c"
  shows "parse_document H (to_document c) = Ok c"
proof -
  let ?ds = "map (\<lambda>(name, e). (name, entry_document e)) (databases c)"
  obtain m where m: "to_document c = Object m" "bt_wf m" using to_document_object by blast
  from inv have wf: "bt_wf (databases c)" "bt_wf (cat_unknown c)"
      "bt_get (cat_unknown c) ''catalog_version'' = None" "bt_get (cat_unknown c) ''databases'' = None"
    by (simp_all add: cat_inv_def)
  have ds: "bt_of_list ?ds = ?ds" using wf(1) by (intro bt_of_list_wf) (simp add: bt_wf_map)
  have get: "bt_get m k = (case bt_get (cat_unknown c) k of Some v \<Rightarrow> Some v
      | None \<Rightarrow> (if k = ''databases'' then Some (Object ?ds)
          else if k = ''catalog_version'' then Some (num_u64 CURRENT_VERSION) else None))" for k
    using to_document_get [OF wf(2), of k] m(1) by (simp only: as_simps option.sel ds)
  have ent: "name_ok name \<and> entry_from (entry_document e) = Inr e" if "(name, e) \<in> set (databases c)" for name e
    using that inv utf8 by (auto simp: cat_inv_def paths_utf8_def intro!: entry_from_document)
  have "map (\<lambda>(name, v). (name, projr (entry_from v))) ?ds = databases c"
    using ent by (auto simp: comp_def case_prod_beta intro!: map_idI)
  moreover have "bt_of_list (databases c) = databases c" using wf(1) by (rule bt_of_list_wf)
  moreover have "bt_remove ''databases'' (bt_remove ''catalog_version'' m) = cat_unknown c"
    using wf m(2) by (intro bt_ext) (auto simp: bt_wf_remove fun_eq_iff get split: option.split)
  ultimately have "catalog_of m ?ds = c" by (simp add: catalog_of_def)
  moreover have "document_ok m ?ds"
    using ent by (auto simp: document_ok_def get wf CATALOG_VERSIONS_def CURRENT_VERSION_def)
  ultimately show ?thesis using m(1) by (auto simp: parse_document_Ok)
qed

end
