(* ===== verification/MessageProps.thy ===== *)
theory MessageProps
  imports CatalogSpec
begin

section \<open>Properties of the decoders and of negotiation\<close>

text \<open>The claims about \<open>src/message.rs\<close> and \<open>src/diagnostic.rs\<close>.\<close>

subsection \<open>The refusal table\<close>

text \<open>
  The rules a request message can break that its own text and the connection's outstanding
  identifiers decide, each with the condition that breaks it, in the order they are checked.
  A request is refused with the first rule of the table it breaks.
\<close>

definition refusal_table :: "json_map \<Rightarrow> string set \<Rightarrow> (bool \<times> rule) list" where
  "refusal_table m outstanding =
     [(get_u64 m ''server_protocol_version'' = None, VersionAbsentAfterHandshake),
      (get_u64 m ''server_protocol_version'' \<noteq> Some 1, VersionsDoNotIntersect),
      (get_str m ''message'' = Some ''hello'', FirstMessageNotHello),
      (get_str m ''request_id'' = None \<or> get_str m ''request_id'' = Some [], RequestIdAbsent),
      (the (get_str m ''request_id'') \<in> outstanding, RequestIdAbsent),
      (get_str m ''operation'' = None, OperationAbsent),
      (the (get_str m ''operation'') \<notin> operation_as_str ` {OpenSession, CloseSession, Query, Begin,
         Commit, Rollback, Status, Shutdown}, UnknownOperation),
      (\<exists>name. get_str m ''database'' = Some name \<and>
         (name = [] \<or> hd name = CHR ''@'' \<or> hd name = CHR ''.'' \<or>
          CHR ''/'' \<in> set name \<or> CHR 0x5C \<in> set name), DatabaseIsAPath)]"

definition first_broken :: "(bool \<times> rule) list \<Rightarrow> rule option" where
  "first_broken t = map_option snd (find fst t)"

lemma operations_all:
  "name \<in> operation_as_str ` {OpenSession, CloseSession, Query, Begin, Commit, Rollback, Status, Shutdown}
   \<longleftrightarrow> operation_parse name \<noteq> None"
proof -
  have "p \<in> {OpenSession, CloseSession, Query, Begin, Commit, Rollback, Status, Shutdown}" for p
    by (cases p) simp_all
  then have "{OpenSession, CloseSession, Query, Begin, Commit, Rollback, Status, Shutdown} = UNIV"
    by blast
  moreover have "name \<in> range operation_as_str \<longleftrightarrow> operation_parse name \<noteq> None"
    using operation_parse_Some [of name] by auto
  ultimately show ?thesis by simp
qed

lemma decode_version_cases:
  "decode_version m = (case get_u64 m ''server_protocol_version'' of
     None \<Rightarrow> Err (Refusal VersionAbsentAfterHandshake
       ''every message after the handshake states the negotiated server_protocol_version'')
   | Some v \<Rightarrow> if v = 1 then Ok 1 else Err (Refusal VersionsDoNotIntersect
       (''this build does not speak server_protocol_version '' @ show_u64 v)))"
  by (auto simp: decode_version_def SUPPORTED_VERSIONS_def split: option.split)

definition refused_with :: "refusal + 'a \<Rightarrow> rule option" where
  "refused_with x = (case x of Inl r \<Rightarrow> Some (refusal_rule r) | Inr _ \<Rightarrow> None)"

lemma refused_with_simps [simp]:
  "refused_with (Inl r) = Some (refusal_rule r)" "refused_with (Inr y) = None"
  by (simp_all add: refused_with_def)

lemma refused_with_None: "refused_with x = None \<longleftrightarrow> (\<exists>y. x = Inr y)"
  by (cases x) simp_all

lemma refused_version:
  "refused_with (decode_version m) =
     (if get_u64 m ''server_protocol_version'' = None then Some VersionAbsentAfterHandshake
      else if get_u64 m ''server_protocol_version'' \<noteq> Some 1 then Some VersionsDoNotIntersect else None)"
  by (auto simp: decode_version_cases split: option.split)

lemma refused_request_id:
  "refused_with (decode_request_id m outstanding) =
     (if get_str m ''request_id'' = None \<or> get_str m ''request_id'' = Some [] \<or>
         the (get_str m ''request_id'') \<in> outstanding then Some RequestIdAbsent else None)"
  by (auto simp: decode_request_id_def split: option.split)

lemma refused_operation:
  "refused_with (decode_operation m) =
     (if get_str m ''operation'' = None then Some OperationAbsent
      else if operation_parse (the (get_str m ''operation'')) = None then Some UnknownOperation else None)"
  by (auto simp: decode_operation_def split: option.split)

lemma refused_database:
  "refused_with (decode_database m) =
     (if \<exists>name. get_str m ''database'' = Some name \<and>
         (name = [] \<or> hd name = CHR ''@'' \<or> hd name = CHR ''.'' \<or>
          CHR ''/'' \<in> set name \<or> CHR 0x5C \<in> set name) then Some DatabaseIsAPath else None)"
proof (cases "get_str m ''database''")
  case (Some name)
  have "path_shaped name = None \<longleftrightarrow> \<not> (name = [] \<or> hd name = CHR ''@'' \<or> hd name = CHR ''.'' \<or>
      CHR ''/'' \<in> set name \<or> CHR 0x5C \<in> set name)"
    by (cases name) (auto simp: path_shaped_None)
  with Some show ?thesis by (auto simp: decode_database_def split: option.split)
qed (simp add: decode_database_def)

lemma refused_object:
  "refused_with (decode_object m outstanding) =
     (if refused_with (decode_version m) \<noteq> None then refused_with (decode_version m)
      else if get_str m ''message'' = Some ''hello'' then Some FirstMessageNotHello
      else if refused_with (decode_request_id m outstanding) \<noteq> None
        then refused_with (decode_request_id m outstanding)
      else if refused_with (decode_operation m) \<noteq> None then refused_with (decode_operation m)
      else refused_with (decode_database m))"
  by (simp add: decode_object_def split: sum.split)

lemma refused_object_table:
  "refused_with (decode_object m outstanding) = first_broken (refusal_table m outstanding)"
  unfolding refused_object refused_version refused_request_id refused_operation refused_database
    first_broken_def refusal_table_def operations_all
  by auto

lemma decode_request_fresh:
  "decode_request H body outstanding = Ok req \<Longrightarrow> request_id req \<notin> outstanding"
  by (auto simp: decode_request_def object_of_def decode_object_def decode_request_id_def
      split: sum.splits json.splits option.splits if_splits)

lemma decode_request_held:
  "decode_request H body outstanding = Ok req \<Longrightarrow> i \<noteq> request_id req \<Longrightarrow>
   decode_request H body (insert i outstanding) = Ok req"
  by (auto simp: decode_request_def object_of_def decode_object_def decode_request_id_def
      split: sum.splits json.splits option.splits if_splits)

text \<open>
  C21: a request is refused exactly with the first rule of the table that it breaks, and is
  accepted when it breaks none.
\<close>

theorem decode_request_table:
  "refused_with (decode_request H body outstanding) =
     (case from_str H body of
        Inr (Object m) \<Rightarrow> first_broken (refusal_table m outstanding)
      | _ \<Rightarrow> Some BodyNotAnObject)"
  by (simp add: decode_request_def object_of_def refused_object_table split: sum.split json.split)

text \<open>
  C20: an accepted request carries exactly what its message states: the version is the
  supported one, the identifier is not empty and not outstanding, the operation is the
  published one of that name, and a database is a bare name.
\<close>

theorem decode_request_accepts:
  "decode_request H body outstanding = Ok req \<longleftrightarrow>
   (\<exists>m. from_str H body = Inr (Object m) \<and>
     get_u64 m ''server_protocol_version'' = Some 1 \<and> req_version req = 1 \<and>
     get_str m ''message'' \<noteq> Some ''hello'' \<and>
     get_str m ''request_id'' = Some (request_id req) \<and>
     request_id req \<noteq> [] \<and> request_id req \<notin> outstanding \<and>
     get_str m ''operation'' = Some (operation_as_str (req_operation req)) \<and>
     get_str m ''database'' = database req \<and>
     (case database req of None \<Rightarrow> True | Some name \<Rightarrow> path_shaped name = None) \<and>
     session_id req = get_str m ''session_id'' \<and> statement req = get_str m ''statement'')"
  (is "?l \<longleftrightarrow> ?r")
proof
  assume ?l
  then show ?r
    by (cases req)
      (auto simp: decode_request_def object_of_def decode_object_def decode_version_cases
        decode_request_id_def decode_operation_def decode_database_def operation_parse_Some
        dest: sym [of "Some _"] split: sum.splits json.splits option.splits if_splits)
next
  assume ?r
  then show ?l
    by (cases req)
      (auto simp: decode_request_def object_of_def decode_object_def decode_version_cases
        decode_request_id_def decode_operation_def decode_database_def
        dest: sym [of "Some _"] split: option.splits)
qed

text \<open>
  Negotiation chooses the highest version both sides speak, and fails exactly when there
  is none, with the one rule that carries a code.
\<close>

theorem negotiate_highest_common:
  "case negotiate h of
     Inr v \<Rightarrow> v \<in> set (supported_versions h) \<and> v \<in> set SUPPORTED_VERSIONS \<and>
       set (supported_versions h) \<inter> set SUPPORTED_VERSIONS \<subseteq> {..v}
   | Inl r \<Rightarrow> set (supported_versions h) \<inter> set SUPPORTED_VERSIONS = {} \<and>
       refusal_rule r = VersionsDoNotIntersect \<and> refusal_code r = Some ServerProtocolUnsupported"
  by (auto simp: negotiate_def refusal_code_def filter_empty_conv dest!: iter_max_Some
      split: option.split)

text \<open>
  The opening message decides the connection's version: the handshake succeeds exactly
  when the message is a \<open>hello\<close> that offers version 1, and then on version 1.
\<close>

theorem decode_hello_then_negotiate:
  "(case decode_hello H body of Inl r \<Rightarrow> Err r | Inr h \<Rightarrow> negotiate h) = Ok v \<longleftrightarrow>
   v = 1 \<and> (\<exists>m vs. from_str H body = Inr (Object m) \<and> get_str m ''message'' = Some ''hello'' \<and>
     bt_get m ''supported_versions'' = Some (Array vs) \<and> num_u64 1 \<in> set vs)"
proof -
  have neg: "negotiate h = Ok v \<longleftrightarrow> v = 1 \<and> 1 \<in> set (supported_versions h)" for h
    by (auto simp: negotiate_def SUPPORTED_VERSIONS_def filter_empty_conv dest: iter_max_Some
        split: option.split)
  have mf: "1 \<in> set (List.map_filter as_u64 vs) \<longleftrightarrow> num_u64 1 \<in> set vs" for vs
    by (auto simp: map_filter_def as_u64_Some num_u64_def image_iff split: option.splits)
  show ?thesis
    by (auto simp: decode_hello_def object_of_def neg mf as_array_Some
        dest!: sym [of "Some _" "as_array _"]
        split: sum.splits json.splits option.splits Option.bind_splits)
qed

text \<open>
  Only a failed negotiation carries a diagnostic code, whatever the refusal.
\<close>

lemma only_versions_carry_a_code:
  "refusal_code r = (if refusal_rule r = VersionsDoNotIntersect
     then Some ServerProtocolUnsupported else None)"
  by (cases "refusal_rule r") (simp_all add: refusal_code_def)

text \<open>
  A name the catalog accepts is never taken for a path by the protocol, so every
  database a catalog names can be opened by that name.
\<close>

theorem catalog_names_are_not_paths:
  assumes "name_problem H name = None"
  shows "path_shaped name = None"
  using assms by (simp add: name_problem_None name_ok_not_path_shaped)

theorem catalog_names_are_not_paths_witness:
  "path_shaped ''work-2'' = None"
  by (rule catalog_names_are_not_paths [of "\<lparr>from_str = Inl, to_string = (\<lambda>_. Inl []),
    to_string_pretty = (\<lambda>_. Inl []), char_debug = id\<rparr>"]) code_simp

end
