(* ===== verification/CatalogProps.thy ===== *)
theory CatalogProps
  imports CatalogSpec
begin

section \<open>Properties of the catalog\<close>

text \<open>The claims about the parser, the mutations and the document of \<open>src/catalog.rs\<close>.\<close>

datatype catalog_op = InsertOp string string | RemoveOp string

fun apply_op :: "textlib \<Rightarrow> catalog \<Rightarrow> catalog_op \<Rightarrow> catalog" where
  "apply_op H c (InsertOp name path) = snd (catalog_insert H name path c)"
| "apply_op H c (RemoveOp name) = snd (catalog_remove name c)"

definition apply_ops :: "textlib \<Rightarrow> catalog \<Rightarrow> catalog_op list \<Rightarrow> catalog" where
  "apply_ops H c ops = foldl (apply_op H) c ops"

fun op_path_utf8 :: "catalog_op \<Rightarrow> bool" where
  "op_path_utf8 (InsertOp name path) = str_ok path"
| "op_path_utf8 (RemoveOp name) = True"

lemma apply_op_inv: "cat_inv c \<Longrightarrow> cat_inv (apply_op H c p)"
  by (cases p) (simp_all add: cat_inv_insert cat_inv_remove)

lemma apply_ops_inv: "cat_inv c \<Longrightarrow> cat_inv (apply_ops H c ops)"
  unfolding apply_ops_def by (induction ops arbitrary: c) (simp_all add: apply_op_inv)

lemma apply_op_utf8: "paths_utf8 c \<Longrightarrow> op_path_utf8 p \<Longrightarrow> paths_utf8 (apply_op H c p)"
  by (cases p) (simp_all add: paths_utf8_insert paths_utf8_remove)

lemma apply_ops_utf8:
  "paths_utf8 c \<Longrightarrow> list_all op_path_utf8 ops \<Longrightarrow> paths_utf8 (apply_ops H c ops)"
  unfolding apply_ops_def by (induction ops arbitrary: c) (simp_all add: apply_op_utf8)

lemma parse_document_inv:
  "wf_json v \<Longrightarrow> parse_document H v = Ok c \<Longrightarrow> cat_inv c \<and> paths_utf8 c"
  using catalog_of_inv by (auto simp: parse_document_Ok)

text \<open>A concrete text library, catalog document and catalog for the witnesses.\<close>

definition demo_lib :: textlib where
  "demo_lib = \<lparr>from_str = Inl, to_string = (\<lambda>_. Inl []), to_string_pretty = (\<lambda>_. Inl []),
     char_debug = (\<lambda>c. [CHR 0x27] @ c @ [CHR 0x27])\<rparr>"

definition demo_members :: json_map where
  "demo_members =
     [(''catalog_version'', num_u64 1),
      (''databases'', Object [(''work'', Object [(''colour'', String ''blue''), (''path'', String ''/srv/w'')])]),
      (''written_by'', String ''a newer build'')]"

definition demo_catalog :: catalog where
  "demo_catalog = \<lparr>databases = [(''work'', \<lparr>entry_path = ''/srv/w'',
       entry_unknown = [(''colour'', String ''blue'')]\<rparr>)],
     cat_unknown = [(''written_by'', String ''a newer build'')]\<rparr>"

lemma demo_parse: "parse_document demo_lib (Object demo_members) = Ok demo_catalog"
  by code_simp

lemma demo_wf: "wf_json (Object demo_members)"
  by (simp add: demo_members_def num_u64_def bt_wf_def str_ok_ascii)

text \<open>
  C22: writing an accepted catalog back gives the document that was read, member for member:
  nothing this build does not understand is lost on a rewrite.
\<close>

theorem accepted_document_is_preserved:
  assumes "wf_json v" "parse_document H v = Ok c"
  shows "to_document c = v"
  using assms document_round_trip by (auto simp: parse_document_Ok)

theorem accepted_document_is_preserved_witness:
  "to_document demo_catalog = Object demo_members"
  using accepted_document_is_preserved [OF demo_wf demo_parse] .

text \<open>
  C23: from an accepted document, any sequence of \<open>insert\<close> and \<open>remove\<close> calls (refused ones
  included) keeps the catalog's invariant: names of the published form, absolute paths,
  sorted names, no member of the contract's own among the unknown ones.
\<close>

theorem mutations_keep_the_invariant:
  assumes "wf_json v" "parse_document H v = Ok c"
  shows "cat_inv (apply_ops H c ops)"
  using parse_document_inv [OF assms] by (simp add: apply_ops_inv)

theorem mutations_keep_the_invariant_witness:
  "cat_inv (apply_ops demo_lib demo_catalog [InsertOp ''a/b'' ''/x'', RemoveOp ''work'', InsertOp ''b'' ''/y''])"
  using mutations_keep_the_invariant [OF demo_wf demo_parse] .

text \<open>
  C24: after any sequence of mutations whose paths are UTF-8, reading the catalog's document
  back gives the same catalog.
\<close>

theorem mutated_catalog_round_trips:
  assumes "wf_json v" "parse_document H v = Ok c" "list_all op_path_utf8 ops"
  shows "parse_document H' (to_document (apply_ops H c ops)) = Ok (apply_ops H c ops)"
  using parse_document_inv [OF assms(1,2)] assms(3)
  by (intro catalog_round_trip) (simp_all add: apply_ops_inv apply_ops_utf8)

theorem mutated_catalog_round_trips_witness:
  "parse_document demo_lib (to_document (apply_ops demo_lib demo_catalog [InsertOp ''b'' ''/y'']))
   = Ok (apply_ops demo_lib demo_catalog [InsertOp ''b'' ''/y''])"
  by (rule mutated_catalog_round_trips [OF demo_wf demo_parse]) (simp add: str_ok_ascii)

text \<open>The catalog that a catalog's document says: each path as it is displayed.\<close>

definition as_written :: "catalog \<Rightarrow> catalog" where
  "as_written c = c\<lparr>databases :=
     map (\<lambda>(name, e). (name, e\<lparr>entry_path := display (entry_path e)\<rparr>)) (databases c)\<rparr>"

lemma display_idem [simp]: "display (display p) = display p"
  by (simp add: str_ok_display)

lemma display_fixed: "display p = p \<longleftrightarrow> str_ok p"
  using str_ok_display [of p] by (metis display_str_ok)

lemma is_absolute_display: "is_absolute p \<Longrightarrow> is_absolute (display p)"
proof -
  assume "is_absolute p"
  then obtain r where p: "p = CHR ''/'' # r" by (cases p) (auto simp: is_absolute_def)
  have "utf8_lossy (0x2F # bs) = 0x2F # utf8_lossy bs" for bs :: "u8 list"
    by (subst utf8_lossy.simps) (simp add: utf8_step_ascii)
  moreover have "char_of (47 :: nat) = CHR ''/''" by code_simp
  ultimately show ?thesis by (simp add: p display_def as_bytes_def of_bytes_def is_absolute_def)
qed

lemma to_document_as_written: "to_document (as_written c) = to_document c"
proof -
  have "map (\<lambda>(name, e). (name, entry_document e)) (databases (as_written c)) =
      map (\<lambda>(name, e). (name, entry_document e)) (databases c)"
    by (auto simp: as_written_def entry_document_def)
  moreover have "cat_unknown (as_written c) = cat_unknown c" by (simp add: as_written_def)
  ultimately show ?thesis by (simp only: to_document_def)
qed

lemma as_written_inv: "cat_inv c \<Longrightarrow> cat_inv (as_written c) \<and> paths_utf8 (as_written c)"
  by (auto simp: cat_inv_def paths_utf8_def as_written_def bt_wf_map entry_ok_def is_absolute_display
      str_ok_display)

lemma as_written_fixed: "as_written c = c \<longleftrightarrow> paths_utf8 c"
proof -
  have "map f xs = xs \<longleftrightarrow> (\<forall>x \<in> set xs. f x = x)" for f :: "string \<times> entry \<Rightarrow> string \<times> entry" and xs
    by (induction xs) auto
  moreover have "e\<lparr>entry_path := p\<rparr> = e \<longleftrightarrow> p = entry_path e" for e :: entry and p by (cases e) auto
  moreover have "c\<lparr>databases := ds\<rparr> = c \<longleftrightarrow> ds = databases c" for ds by (cases c) auto
  ultimately show ?thesis
    by (auto simp: as_written_def paths_utf8_def display_fixed)
qed

text \<open>
  C25: a path that is not UTF-8 can be inserted, and the document says its display. After any
  sequence of mutations, whatever their paths, the document is one the parser accepts, and reading
  it back gives the catalog with each path replaced by its display, and nothing else changed;
  so it gives the catalog itself exactly when every path is UTF-8.
\<close>

theorem mutated_catalog_reads_back_as_displayed:
  assumes "wf_json v" "parse_document H v = Ok c"
  shows "parse_document H' (to_document (apply_ops H c ops)) = Ok (as_written (apply_ops H c ops)) \<and>
    (as_written (apply_ops H c ops) = apply_ops H c ops \<longleftrightarrow> paths_utf8 (apply_ops H c ops))"
proof -
  have "cat_inv (apply_ops H c ops)" using parse_document_inv [OF assms] by (simp add: apply_ops_inv)
  from as_written_inv [OF this] catalog_round_trip [of "as_written (apply_ops H c ops)" H']
  show ?thesis by (simp add: to_document_as_written as_written_fixed)
qed

theorem mutated_catalog_reads_back_as_displayed_witness:
  "map_option entry_path (case parse_document demo_lib (to_document (apply_ops demo_lib demo_catalog
       [InsertOp ''b'' [CHR ''/'', CHR 0xFF]])) of Inr c \<Rightarrow> catalog_get c ''b'' | Inl _ \<Rightarrow> None) =
     Some [CHR ''/'', CHR 0xEF, CHR 0xBF, CHR 0xBD]"
proof -
  have "map_option entry_path (catalog_get (as_written (apply_ops demo_lib demo_catalog
       [InsertOp ''b'' [CHR ''/'', CHR 0xFF]])) ''b'') = Some [CHR ''/'', CHR 0xEF, CHR 0xBF, CHR 0xBD]"
    by code_simp
  with mutated_catalog_reads_back_as_displayed [OF demo_wf demo_parse,
      where ops = "[InsertOp ''b'' [CHR ''/'', CHR 0xFF]]" and H' = demo_lib]
  show ?thesis by simp
qed

text \<open>
  C27: a catalog text is accepted exactly when it is a JSON object of version 1 whose
  \<open>databases\<close> is an object in which every name has the published form and every entry is an
  object with an absolute path. Nothing else decides it; no target is looked at.
\<close>

theorem catalog_parse_accepts:
  "(\<exists>c. catalog_parse H text = Ok c) \<longleftrightarrow>
   (\<exists>m ds. from_str H text = Inr (Object m) \<and>
     bt_get m ''catalog_version'' = Some (num_u64 1) \<and>
     bt_get m ''databases'' = Some (Object ds) \<and>
     list_all (\<lambda>(name, v). name_ok name \<and>
       (\<exists>em path. v = Object em \<and> bt_get em ''path'' = Some (String path) \<and> is_absolute path)) ds)"
proof -
  have "(\<exists>e. entry_from v = Inr e) \<longleftrightarrow>
      (\<exists>em path. v = Object em \<and> bt_get em ''path'' = Some (String path) \<and> is_absolute path)" for v
    by (auto simp: entry_from_Inr) (metis entry.select_convs(1))
  then show ?thesis
    by (auto simp: catalog_parse_def parse_document_Ok document_ok_def CATALOG_VERSIONS_def
        list_all_iff split: sum.split)
qed

text \<open>
  The version decides first: the unsupported-version code is reported exactly for a
  document that states a version above 1, whatever else is wrong with it.
\<close>

theorem unsupported_version_first:
  "(\<exists>r. parse_document H v = Err r \<and> rejection_code r = CatalogVersionUnsupported) \<longleftrightarrow>
   (\<exists>m n. v = Object m \<and> bt_get m ''catalog_version'' = Some (num_u64 n) \<and> 1 < n)"
proof (cases "\<exists>m. v = Object m")
  case False
  then show ?thesis by (auto simp: parse_document_def as_object_def split: json.splits)
next
  case True
  then obtain m where m: "v = Object m" by blast
  have one: "n \<noteq> 1 \<Longrightarrow> n \<noteq> 0 \<Longrightarrow> 1 < n" for n :: u64
    by (simp add: word_less_nat_alt word_unat_eq_iff)
  show ?thesis
    by (auto simp: m parse_document_Object check_version_def CATALOG_VERSIONS_def as_u64_Some
        num_u64_def Let_def split: option.splits if_splits intro: one)
qed

subsection \<open>Insert and remove\<close>

text \<open>
  C26: an insert is accepted exactly for a published name and an absolute path; it then sets
  that name's path, keeps the members of the entry this build does not understand, and touches
  nothing else. A refused insert changes nothing and says why, at most once for the name and
  once for the path.
\<close>

theorem insert_sets_one_name:
  "case catalog_insert H name path c of
     (Inr _, c') \<Rightarrow> name_ok name \<and> is_absolute path \<and> cat_unknown c' = cat_unknown c \<and>
       (\<forall>n. catalog_get c' n =
         (if n = name then Some \<lparr>entry_path = path, entry_unknown =
            (case catalog_get c name of None \<Rightarrow> [] | Some e \<Rightarrow> entry_unknown e)\<rparr>
          else catalog_get c n))
   | (Inl r, c') \<Rightarrow> \<not> (name_ok name \<and> is_absolute path) \<and> c' = c \<and>
       rejection_code r = CatalogInvalid \<and>
       (length (rejection_problems r) = 1 \<or> length (rejection_problems r) = 2)"
proof (cases "insert_problems H name path = []")
  case True
  then show ?thesis
    using insert_problems_Nil [of H name path]
    by (auto simp: catalog_insert_def catalog_get_def Let_def bt.get_insert)
next
  case False
  have "length (insert_problems H name path) \<le> 2"
    by (auto simp: insert_problems_def split: option.split)
  with False have "length (insert_problems H name path) = 1 \<or> length (insert_problems H name path) = 2"
    by (cases "length (insert_problems H name path)") (auto simp: le_Suc_eq)
  then show ?thesis
    using False insert_problems_Nil [of H name path] by (auto simp: catalog_insert_def)
qed

text \<open>
  Removing a name says whether it was there, and takes that name away and nothing else;
  removing it again says it is gone.
\<close>

theorem remove_takes_one_name:
  "case catalog_remove name c of (b, c') \<Rightarrow>
     (b \<longleftrightarrow> catalog_get c name \<noteq> None) \<and> cat_unknown c' = cat_unknown c \<and>
     (\<forall>n. catalog_get c' n = (if n = name then None else catalog_get c n)) \<and>
     catalog_remove name c' = (False, c')"
proof -
  have "bt_remove name (bt_remove name (databases c)) = bt_remove name (databases c)"
    by (simp add: bt_remove_def)
  then show ?thesis by (auto simp: catalog_remove_def catalog_get_def bt.get_remove)
qed

subsection \<open>Every problem\<close>

text \<open>
  C28: a document of a readable version is refused with every problem of its entries, one for
  each bad entry and in the order of the names, and is accepted when there is none.
\<close>

theorem every_problem_is_reported:
  assumes "bt_get m ''catalog_version'' = Some (num_u64 1)" "bt_get m ''databases'' = Some (Object ds)"
  shows "case parse_document H (Object m) of
     Inl r \<Rightarrow> rejection_code r = CatalogInvalid \<and> rejection_problems r \<noteq> [] \<and>
       map Some (rejection_problems r) = map (entry_problem H) (filter (\<lambda>nv. entry_problem H nv \<noteq> None) ds)
   | Inr c \<Rightarrow> filter (\<lambda>nv. entry_problem H nv \<noteq> None) ds = []"
proof -
  have "check_version m = None"
    using assms(1) by (auto simp: check_version_None CATALOG_VERSIONS_def)
  moreover have "map Some (List.map_filter f xs) = map f (filter (\<lambda>x. f x \<noteq> None) xs)"
    for f :: "string \<times> json \<Rightarrow> string option" and xs
    by (induction xs) (auto simp: List.map_filter_simps split: option.splits)
  ultimately show ?thesis
    using databases_member_Object [OF assms(2)]
    by (auto simp: parse_document_Object Let_def map_filter_Nil filter_empty_conv)
qed

theorem every_problem_is_reported_witness:
  "\<exists>r. parse_document demo_lib (Object [(''catalog_version'', num_u64 1), (''databases'', Object
       [(''@a'', Object [(''path'', String ''/a'')]), (''b'', Object [(''path'', String ''b'')]),
        (''c'', Object [(''path'', String ''/c'')]), (''d'', Null)])]) = Inl r \<and>
     length (rejection_problems r) = 3"
proof -
  let ?ds = "[(''@a'', Object [(''path'', String ''/a'')]), (''b'', Object [(''path'', String ''b'')]),
        (''c'', Object [(''path'', String ''/c'')]), (''d'', Null)]"
  let ?m = "[(''catalog_version'', num_u64 1), (''databases'', Object ?ds)]"
  have get: "bt_get ?m ''catalog_version'' = Some (num_u64 1)" "bt_get ?m ''databases'' = Some (Object ?ds)"
    by (simp_all add: bt_get_def)
  have bad: "length (filter (\<lambda>nv. entry_problem demo_lib nv \<noteq> None) ?ds) = 3" by code_simp
  show ?thesis
  proof (cases "parse_document demo_lib (Object ?m)")
    case (Inl r)
    with every_problem_is_reported [OF get, of demo_lib]
    have "map Some (rejection_problems r) =
        map (entry_problem demo_lib) (filter (\<lambda>nv. entry_problem demo_lib nv \<noteq> None) ?ds)" by simp
    from arg_cong [OF this, of length] have "length (rejection_problems r) = 3"
      unfolding length_map bad .
    with Inl show ?thesis by blast
  next
    case (Inr c)
    with every_problem_is_reported [OF get, of demo_lib] have "filter (\<lambda>nv. entry_problem demo_lib nv \<noteq> None) ?ds = []"
      by simp
    from arg_cong [OF this, of length] show ?thesis unfolding bad by simp
  qed
qed

subsection \<open>A path that is not UTF-8\<close>

text \<open>
  A path that is absolute but not UTF-8 is accepted, and the catalog's document then names
  another path: written and read back, the name has moved.
\<close>

theorem non_utf8_path_moves:
  "case catalog_insert demo_lib ''w'' [CHR ''/'', CHR 0xFF] catalog_default of (r, c) \<Rightarrow>
     r = Ok () \<and> (\<exists>c'. parse_document demo_lib (to_document c) = Ok c' \<and>
       map_option entry_path (catalog_get c ''w'') \<noteq> map_option entry_path (catalog_get c' ''w''))"
proof -
  let ?c = "\<lparr>databases = [(''w'', \<lparr>entry_path = [CHR ''/'', CHR 0xFF], entry_unknown = []\<rparr>)],
    cat_unknown = []\<rparr>"
  let ?d = "\<lparr>databases = [(''w'', \<lparr>entry_path = [CHR ''/'', CHR 0xEF, CHR 0xBF, CHR 0xBD],
    entry_unknown = []\<rparr>)], cat_unknown = []\<rparr>"
  have "catalog_insert demo_lib ''w'' [CHR ''/'', CHR 0xFF] catalog_default = (Ok (), ?c)" by code_simp
  moreover have "parse_document demo_lib (to_document ?c) = Ok ?d" by code_simp
  ultimately show ?thesis by (auto simp: catalog_get_def bt_get_def)
qed

end
