(* ===== verification/CatalogType.thy ===== *)
theory CatalogType
  imports CatalogProps
begin

section \<open>What a catalog writes is JSON\<close>

text \<open>
  The type invariant of the document that \<open>to_document\<close> builds: its objects' keys are in order
  and every string in it, keys included, is UTF-8, whatever path a caller inserted.
\<close>

definition members_wf :: "json_map \<Rightarrow> bool" where
  "members_wf m = (\<forall>kv \<in> set m. str_ok (fst kv) \<and> wf_json (snd kv))"

lemma wf_json_members: "wf_json (Object m) \<longleftrightarrow> bt_wf m \<and> members_wf m"
  by (simp add: members_wf_def)

lemma members_wf_Nil [simp]: "members_wf []"
  by (simp add: members_wf_def)

lemma members_wf_insert:
  "members_wf m \<Longrightarrow> str_ok k \<Longrightarrow> wf_json v \<Longrightarrow> members_wf (bt_insert k v m)"
  using set_bt_insert [of k v m] by (fastforce simp: members_wf_def)

lemma members_wf_remove: "members_wf m \<Longrightarrow> members_wf (bt_remove k m)"
  by (auto simp: members_wf_def bt_remove_def)

lemma members_wf_foldl:
  "members_wf m \<Longrightarrow> members_wf ps \<Longrightarrow> members_wf (foldl (\<lambda>m (k, v). bt_insert k v m) m ps)"
proof (induction ps arbitrary: m)
  case (Cons p ps)
  then show ?case
    by (cases p) (simp add: members_wf_insert members_wf_def [of "_ # _"] members_wf_def [of ps, symmetric])
qed simp

text \<open>A catalog whose unknown members are JSON.\<close>

definition cat_wf :: "catalog \<Rightarrow> bool" where
  "cat_wf c = (members_wf (cat_unknown c) \<and> (\<forall>ne \<in> set (databases c). members_wf (entry_unknown (snd ne))))"

lemma name_char_ascii: "name_char c \<Longrightarrow> (of_char c :: u8) < 0x80"
proof -
  assume "name_char c"
  then have "(of_char c :: nat) < 128"
    by (auto simp: name_char_def is_ascii_alphanumeric_def is_ascii_digit_def less_eq_char_def)
  moreover have "(of_char c :: u8) = word_of_nat (of_char c)" by (simp add: of_char_def)
  ultimately show ?thesis by (simp add: word_less_nat_alt unat_of_nat)
qed

lemma name_ok_str: "name_ok name \<Longrightarrow> str_ok name"
  using name_ok_chars [of name] name_char_ascii by (intro str_ok_ascii) (auto simp: list_all_iff)

lemma entry_document_wf:
  assumes "entry_ok e" "members_wf (entry_unknown e)"
  shows "wf_json (entry_document e)"
  using assms
  by (simp add: entry_document_def wf_json_members members_wf_insert bt_wf_insert entry_ok_def
      str_ok_display str_ok_ascii del: wf_json.simps(2))

lemma to_document_wf:
  assumes "cat_inv c" "cat_wf c"
  shows "wf_json (to_document c)"
proof -
  let ?ds = "map (\<lambda>(name, e). (name, entry_document e)) (databases c)"
  have "members_wf ?ds"
    using assms entry_document_wf name_ok_str
    by (fastforce simp: members_wf_def [of "map _ _"] cat_inv_def cat_wf_def)
  then have "wf_json (Object (bt_of_list ?ds))"
    unfolding bt_of_list_def using members_wf_foldl [of "[]"] bt_wf_of_list [of ?ds]
    by (simp add: wf_json_members bt_of_list_def del: wf_json.simps(2))
  then have "members_wf (bt_insert ''databases'' (Object (bt_of_list ?ds))
      (bt_insert ''catalog_version'' (num_u64 CURRENT_VERSION) []))"
    by (intro members_wf_insert) (simp_all add: str_ok_ascii num_u64_def)
  with assms(2) show ?thesis
    using to_document_object [of c]
    by (auto simp: to_document_def Let_def wf_json_members members_wf_foldl cat_wf_def
        simp del: wf_json.simps(2))
qed

subsection \<open>Every operation keeps it\<close>

lemma cat_wf_insert: "cat_wf c \<Longrightarrow> cat_wf (snd (catalog_insert H name path c))"
proof -
  assume c: "cat_wf c"
  let ?u = "case bt_get (databases c) name of None \<Rightarrow> [] | Some e \<Rightarrow> entry_unknown e"
  have "members_wf ?u" using c by (force simp: cat_wf_def split: option.split dest: bt_getD)
  with c set_bt_insert [of name "\<lparr>entry_path = path, entry_unknown = ?u\<rparr>" "databases c"]
  show ?thesis by (fastforce simp: catalog_insert_def cat_wf_def Let_def)
qed

lemma cat_wf_remove: "cat_wf c \<Longrightarrow> cat_wf (snd (catalog_remove name c))"
  by (auto simp: cat_wf_def catalog_remove_def bt_remove_def)

lemma cat_wf_ops: "cat_wf c \<Longrightarrow> cat_wf (apply_ops H c ops)"
  unfolding apply_ops_def
proof (induction ops arbitrary: c)
  case (Cons p ops)
  then have "cat_wf (apply_op H c p)" by (cases p) (simp_all add: cat_wf_insert cat_wf_remove)
  then show ?case by (simp add: Cons.IH)
qed simp

lemma entry_from_wf: "wf_json v \<Longrightarrow> entry_from v = Inr e \<Longrightarrow> members_wf (entry_unknown e)"
  by (auto simp: entry_from_Inr wf_json_members simp del: wf_json.simps(2))
    (metis entry.select_convs(2) members_wf_remove)

lemma parse_document_wf:
  assumes "wf_json v" "parse_document H v = Ok c"
  shows "cat_wf c"
proof -
  obtain m ds where m: "v = Object m" "document_ok m ds" "c = catalog_of m ds"
    using assms(2) by (auto simp: parse_document_Ok)
  note wf = assms(1) [unfolded m(1)]
  have ds: "bt_get m ''databases'' = Some (Object ds)" using m(2) by (simp add: document_ok_def)
  have "members_wf (entry_unknown (projr (entry_from x)))" if "(name, x) \<in> set ds" for name x
  proof -
    from that m(2) obtain e where "entry_from x = Inr e" by (auto simp: document_ok_def)
    moreover from wf_json_member [OF wf ds] that have "wf_json x" by auto
    ultimately show ?thesis using entry_from_wf by simp
  qed
  moreover have "bt_wf ds" using wf_json_member [OF wf ds] by simp
  ultimately show ?thesis
    using wf m(3) document_wf(3) [OF wf m(2)]
    by (auto simp: cat_wf_def catalog_of_def wf_json_members members_wf_remove simp del: wf_json.simps(2))
qed

text \<open>
  The document of a catalog is JSON of the shape the Rust types promise, whatever sequence of
  mutations led to it, refused ones and paths that are not UTF-8 included: the keys of every
  object are in order without a repetition, and every string is valid UTF-8.
\<close>

theorem documents_are_json:
  assumes "wf_json v" "parse_document H v = Ok c"
  shows "wf_json (to_document (apply_ops H c ops))"
  using parse_document_inv [OF assms] parse_document_wf [OF assms]
  by (intro to_document_wf) (simp_all add: apply_ops_inv cat_wf_ops)

lemma documents_are_json_witness:
  "wf_json (to_document (apply_ops demo_lib demo_catalog
     [InsertOp ''b'' [CHR ''/'', CHR 0xFF], RemoveOp ''work'', InsertOp ''a b'' ''/x'']))"
  by (rule documents_are_json [OF demo_wf demo_parse])

end
