(* ===== verification/Engine.thy ===== *)
theory Engine
  imports CatalogSpec
begin

section \<open>The Engine, as the daemon calls it\<close>

text \<open>
  \<open>nostdb-core\<close> is a git dependency whose code is not under \<open>src/\<close>: it is a parameter of the
  model. The record \<open>engine\<close> has one field for each call the daemon makes of it, with the
  types the calls have in \<open>src/session.rs\<close> and \<open>src/serve.rs\<close>:

  \<^item> \<open>'w\<close> is everything outside the daemon's memory (the disk, the clock, other processes).
    Every call takes it and returns it, so a call may see and cause any change there, and a
    world that carries a future makes the outside as unpredictable as it is.
  \<^item> \<open>'db\<close> is an open \<open>Database\<close> and \<open>'tx\<close> a \<open>Transaction\<close>. A transaction borrows its database
    mutably, so while it lives the database is inside it; \<open>commit\<close> and \<open>rollback\<close> consume the
    transaction and give the database back.
  \<^item> \<open>'q\<close> is a parsed query, \<open>'r\<close> a query result, \<open>'s\<close> a write summary.

  A failure of the Engine is its \<open>Display\<close> text, but a query error also has a code.
  \<open>read_file\<close> is \<open>std::fs::read_to_string\<close> on the world's file system, and \<open>db_drop\<close> what
  dropping a \<open>Database\<close> does.
\<close>

datatype query_error = QueryError (query_code: string) (query_message: string)

record ('w, 'db, 'tx, 'q, 'r, 's) engine =
  read_file :: "string \<Rightarrow> 'w \<Rightarrow> (io_error + string) \<times> 'w"
  db_open :: "string \<Rightarrow> 'w \<Rightarrow> (string + 'db) \<times> 'w"
  db_drop :: "'db \<Rightarrow> 'w \<Rightarrow> 'w"
  cypher_parse :: "string \<Rightarrow> query_error + 'q"
  tx_begin :: "'db \<Rightarrow> 'w \<Rightarrow> (string \<times> 'db + 'tx) \<times> 'w"
  tx_base :: "'tx \<Rightarrow> u64"
  tx_run :: "'q \<Rightarrow> nat \<Rightarrow> 'tx \<Rightarrow> 'w \<Rightarrow> (query_error + 'r) \<times> 'tx \<times> 'w"
  tx_writes :: "'tx \<Rightarrow> 's"
  tx_commit :: "'tx \<Rightarrow> 'w \<Rightarrow> (string + u64) \<times> 'db \<times> 'w"
  tx_rollback :: "'tx \<Rightarrow> 'w \<Rightarrow> 'db \<times> 'w"
  writes_empty :: "'s \<Rightarrow> bool"
  row_count :: "'r \<Rightarrow> nat"
  envelope_json :: "'r \<Rightarrow> u64 \<Rightarrow> 's option \<Rightarrow> json"

end
