(* ===== verification/Session.thy ===== *)
theory Session
  imports Engine
begin

section \<open>Sessions\<close>

text \<open>
  \<open>src/session.rs\<close>: a connection's slot, which holds no session or one, and the counter it
  mints identifiers from. A session identifier is its text.
\<close>

datatype open_error =
    OpenRefused refusal
  | UnknownName string
  | OpenCatalog catalog_error
  | OpenStorage string

fun open_error_display :: "open_error \<Rightarrow> string" where
  "open_error_display (OpenRefused r) = refusal_display r"
| "open_error_display (UnknownName name) = ''the catalog holds no database named '' @ name"
| "open_error_display (OpenCatalog e) = catalog_error_display e"
| "open_error_display (OpenStorage e) = e"

record 'db session =
  sess_id :: string
  sess_name :: string
  sess_path :: string
  sess_database :: 'db

record 'db slot =
  slot_session :: "'db session option"
  slot_next :: u64

definition slot_new :: "'db slot" where
  "slot_new = \<lparr>slot_session = None, slot_next = 1\<rparr>"

definition session_id_of :: "u64 \<Rightarrow> string" where
  "session_id_of n = CHR ''s'' # show_u64 n"

definition slot_open ::
  "('w, 'db, 'tx, 'q, 'r, 's) engine \<Rightarrow> string \<Rightarrow> catalog \<Rightarrow> 'db slot \<Rightarrow> 'w \<Rightarrow>
   (open_error + string) \<times> 'db slot \<times> 'w" where
  "slot_open E name c sl w = (case slot_session sl of
     Some existing \<Rightarrow>
       (Err (OpenRefused (Refusal SecondSessionOnOneConnection
          (''this connection already holds session '' @ sess_id existing @
           ''; open another connection instead''))), sl, w)
   | None \<Rightarrow> (case catalog_get c name of
         None \<Rightarrow> (Err (UnknownName name), sl, w)
       | Some e \<Rightarrow> (case db_open E (entry_path e) w of
             (Inl msg, w') \<Rightarrow> (Err (OpenStorage msg), sl, w')
           | (Inr db, w') \<Rightarrow>
               (let i = session_id_of (slot_next sl) in
                (Ok i,
                 \<lparr>slot_session = Some \<lparr>sess_id = i, sess_name = name,
                    sess_path = entry_path e, sess_database = db\<rparr>,
                  slot_next = slot_next sl + 1\<rparr>, w')))))"

definition slot_resolve :: "string option \<Rightarrow> 'db slot \<Rightarrow> refusal + 'db session" where
  "slot_resolve named sl = (case slot_session sl of
     None \<Rightarrow> Err (Refusal UnknownSession
       ''this connection has no open session; send open_session first'')
   | Some s \<Rightarrow> (case named of
         Some i \<Rightarrow>
           (if i \<noteq> sess_id s then Err (Refusal UnknownSession
              (''this connection holds session '' @ sess_id s @
               '', and the request names '' @ i))
            else Ok s)
       | None \<Rightarrow> Ok s))"

text \<open>Taking the session out of the slot drops it, and with it its database.\<close>

definition slot_close ::
  "('w, 'db, 'tx, 'q, 'r, 's) engine \<Rightarrow> 'db slot \<Rightarrow> 'w \<Rightarrow> bool \<times> 'db slot \<times> 'w" where
  "slot_close E sl w = (case slot_session sl of
     None \<Rightarrow> (False, sl, w)
   | Some s \<Rightarrow> (True, sl\<lparr>slot_session := None\<rparr>, db_drop E (sess_database s) w))"

definition slot_is_open :: "'db slot \<Rightarrow> bool" where
  "slot_is_open sl = (slot_session sl \<noteq> None)"

text \<open>Storing back through the mutable borrow of the session's database.\<close>

definition slot_put :: "'db \<Rightarrow> 'db slot \<Rightarrow> 'db slot" where
  "slot_put db sl = sl\<lparr>slot_session := map_option (\<lambda>s. s\<lparr>sess_database := db\<rparr>) (slot_session sl)\<rparr>"

end
