(* ===== verification/SessionProps.thy ===== *)
theory SessionProps
  imports Session
begin

section \<open>Properties of sessions\<close>

text \<open>The claims about \<open>src/session.rs\<close>.\<close>

text \<open>
  C30: the session a slot opens is the session of the slot: requests that name it or name none
  get it and no other request does, a second open is refused and changes nothing, and closing
  ends it.
\<close>

theorem opened_session_is_the_session:
  assumes "slot_open E name c sl w = (Ok i, sl', w')"
  shows "\<exists>s e. slot_session sl' = Some s \<and> catalog_get c name = Some e \<and>
    sess_id s = i \<and> sess_name s = name \<and> sess_path s = entry_path e \<and>
    (\<forall>named. slot_resolve named sl' = Ok s \<longleftrightarrow> named = None \<or> named = Some i) \<and>
    (\<forall>named s'. slot_resolve named sl' = Ok s' \<longrightarrow> s' = s) \<and>
    (\<forall>n c' u. \<exists>d. slot_open E n c' sl' u =
       (Err (OpenRefused (Refusal SecondSessionOnOneConnection d)), sl', u)) \<and>
    (\<forall>u. slot_close E sl' u = (True, sl'\<lparr>slot_session := None\<rparr>, db_drop E (sess_database s) u))"
proof -
  from assms obtain e db where e: "slot_session sl = None" "catalog_get c name = Some e"
      "i = session_id_of (slot_next sl)"
      "sl' = \<lparr>slot_session = Some \<lparr>sess_id = i, sess_name = name, sess_path = entry_path e,
         sess_database = db\<rparr>, slot_next = slot_next sl + 1\<rparr>"
    by (auto simp: slot_open_def Let_def split: option.splits sum.splits prod.splits)
  show ?thesis
    by (rule exI [of _ "\<lparr>sess_id = i, sess_name = name, sess_path = entry_path e, sess_database = db\<rparr>"],
        rule exI [of _ e])
      (auto simp: e(2,4) slot_resolve_def slot_open_def slot_close_def split: option.splits if_splits)
qed

text \<open>A concrete Engine whose databases are their paths.\<close>

definition path_engine :: "(nat, string, unit, unit, unit, unit) engine" where
  "path_engine = \<lparr>
     read_file = (\<lambda>p w. (Inr [], w)), db_open = (\<lambda>p w. (Inr p, Suc w)), db_drop = (\<lambda>db w. w),
     cypher_parse = (\<lambda>t. Inr ()), tx_begin = (\<lambda>db w. (Inl ([], db), w)), tx_base = (\<lambda>tx. 0),
     tx_run = (\<lambda>q t tx w. (Inr (), tx, w)), tx_writes = (\<lambda>tx. ()),
     tx_commit = (\<lambda>tx w. (Inr 0, [], w)), tx_rollback = (\<lambda>tx w. ([], w)),
     writes_empty = (\<lambda>s. True), row_count = (\<lambda>r. 0), envelope_json = (\<lambda>r g s. Null)\<rparr>"

definition one_name :: catalog where
  "one_name = \<lparr>databases = [(''work'', \<lparr>entry_path = ''/w'', entry_unknown = []\<rparr>)], cat_unknown = []\<rparr>"

lemma show_one: "session_id_of 1 = ''s1''"
  by (simp add: session_id_of_def show_u64_def show_nat.simps digit_def) code_simp

theorem opened_session_is_the_session_witness:
  "\<exists>s. slot_resolve None (fst (snd (slot_open path_engine ''work'' one_name slot_new 0))) = Ok s \<and>
    sess_path s = ''/w''"
proof -
  let ?r = "slot_open path_engine ''work'' one_name slot_new 0"
  have "?r = (Ok ''s1'', fst (snd ?r), snd (snd ?r))"
    by (simp add: slot_open_def slot_new_def catalog_get_def one_name_def bt_get_def path_engine_def
        Let_def show_one)
  from opened_session_is_the_session [OF this] show ?thesis
    by (auto simp: catalog_get_def one_name_def bt_get_def)
qed

subsection \<open>Identifiers\<close>

datatype slot_op = OpenOp string catalog | CloseOp

text \<open>A connection's opens and closes, and the identifiers they mint.\<close>

fun slot_run ::
  "('w, 'db, 'tx, 'q, 'r, 's) engine \<Rightarrow> slot_op list \<Rightarrow> 'db slot \<Rightarrow> 'w \<Rightarrow> string list \<times> 'db slot \<times> 'w" where
  "slot_run E [] sl w = ([], sl, w)"
| "slot_run E (OpenOp name c # ops) sl w = (case slot_open E name c sl w of
     (Inl e, sl', w') \<Rightarrow> slot_run E ops sl' w'
   | (Inr i, sl', w') \<Rightarrow> (let (is, r) = slot_run E ops sl' w' in (i # is, r)))"
| "slot_run E (CloseOp # ops) sl w = (let (b, sl', w') = slot_close E sl w in slot_run E ops sl' w')"

lemma slot_open_next:
  "slot_open E name c sl w = (r, sl', w') \<Longrightarrow>
   (case r of Inl e \<Rightarrow> slot_next sl' = slot_next sl
    | Inr i \<Rightarrow> i = session_id_of (slot_next sl) \<and> slot_next sl' = slot_next sl + 1)"
  by (auto simp: slot_open_def Let_def split: option.splits sum.splits prod.splits)

lemma slot_close_next: "slot_close E sl w = (b, sl', w') \<Longrightarrow> slot_next sl' = slot_next sl"
  by (auto simp: slot_close_def split: option.splits)

text \<open>The \<open>n\<close> identifiers from a counter on.\<close>

fun minted :: "nat \<Rightarrow> u64 \<Rightarrow> string list" where
  "minted 0 k = []"
| "minted (Suc n) k = session_id_of k # minted n (k + 1)"

lemma slot_run_minted:
  "\<exists>n \<le> length ops. fst (slot_run E ops sl w) = minted n (slot_next sl)"
proof (induction E ops sl w rule: slot_run.induct)
  case (1 E sl w)
  show ?case by (rule exI [of _ 0]) simp
next
  case (2 E name c ops sl w)
  obtain r sl' w' where o: "slot_open E name c sl w = (r, sl', w')"
    by (cases "slot_open E name c sl w") auto
  show ?case
  proof (cases r)
    case (Inl e)
    with 2(1) [OF o [symmetric] Inl refl] slot_open_next [OF o] o show ?thesis by (auto intro: le_SucI)
  next
    case (Inr i)
    with 2(2) [OF o [symmetric] Inr refl] obtain n where "n \<le> length ops"
      "fst (slot_run E ops sl' w') = minted n (slot_next sl')" by auto
    with slot_open_next [OF o] o Inr show ?thesis
      by (intro exI [of _ "Suc n"]) (simp add: case_prod_beta)
  qed
next
  case (3 E ops sl w)
  obtain b sl' w' where cl: "slot_close E sl w = (b, sl', w')" by (cases "slot_close E sl w") auto
  from 3 [OF cl [symmetric] refl] slot_close_next [OF cl] cl show ?case by (auto intro: le_SucI)
qed

lemma session_id_of_inject [simp]: "session_id_of k = session_id_of j \<longleftrightarrow> k = j"
  by (simp add: session_id_of_def)

lemma minted_nth: "minted n k = map (\<lambda>j. session_id_of (k + of_nat j)) [0..<n]"
proof (induction n arbitrary: k)
  case (Suc n)
  have "[0..<Suc n] = 0 # map Suc [0..<n]" by (simp add: upt_conv_Cons map_Suc_upt)
  with Suc show ?case by (simp add: comp_def add.assoc)
qed simp

lemma minted_distinct:
  assumes "n \<le> 2 ^ 64"
  shows "distinct (minted n k)"
proof -
  have "i = j" if "of_nat i = (of_nat j :: u64)" "i < n" "j < n" for i j
  proof -
    from that assms have "i < 2 ^ LENGTH(64)" "j < 2 ^ LENGTH(64)" by simp_all
    with that(1) show "i = j" by (metis of_nat_inverse)
  qed
  then show ?thesis by (auto simp: minted_nth distinct_map inj_on_def)
qed

text \<open>
  C31: the identifiers one connection mints are pairwise different, for as long as its counter
  has not gone around: over any sequence of at most \<open>2 ^ 64\<close> opens and closes.
\<close>

theorem minted_identifiers_are_distinct:
  assumes "length ops \<le> 2 ^ 64"
  shows "distinct (fst (slot_run E ops slot_new w))"
  using slot_run_minted [of ops E slot_new w] assms minted_distinct le_trans by metis

theorem minted_identifiers_are_distinct_witness:
  "distinct (fst (slot_run path_engine [OpenOp ''work'' one_name, CloseOp, OpenOp ''work'' one_name] slot_new 0))"
  by (rule minted_identifiers_are_distinct) simp

end
