(* ===== verification/Serve.thy ===== *)
theory Serve
  imports Session
begin

section \<open>The request loop\<close>

text \<open>
  \<open>src/serve.rs\<close>: the handshake, the dispatch of a request, the transaction region and the
  statement that runs in its own transaction, over any transport, any text library \<open>H\<close> and
  any Engine \<open>E\<close>. Each loop recurses on the rest of the transport's script, and terminates
  because every frame read uses some of it up.
\<close>

record limits =
  max_frame_bytes :: u32
  max_result_rows :: nat
  query_timeout :: nat

text \<open>The timeout is in nanoseconds, as \<open>Duration\<close> counts.\<close>

definition limits_default :: limits where
  "limits_default = \<lparr>max_frame_bytes = MINIMUM_MAXIMUM_FRAME_BYTES,
     max_result_rows = 100000, query_timeout = 30 * 10 ^ 9\<rparr>"

datatype ended = ClientClosed | HandshakeRefused | ShutdownRequested | TransportFailed

subsection \<open>Replies\<close>

definition ok_response :: "u64 \<Rightarrow> request \<Rightarrow> json \<Rightarrow> json" where
  "ok_response v req result = json_object
     [(''server_protocol_version'', num_u64 v),
      (''request_id'', String (request_id req)),
      (''outcome'', String ''ok''),
      (''result'', result)]"

definition error_response :: "u64 \<Rightarrow> request \<Rightarrow> string \<Rightarrow> json" where
  "error_response v req detail = json_object
     [(''server_protocol_version'', num_u64 v),
      (''request_id'', String (request_id req)),
      (''outcome'', String ''error''),
      (''detail'', String detail)]"

definition diagnostic_response :: "u64 \<Rightarrow> request \<Rightarrow> query_error \<Rightarrow> json" where
  "diagnostic_response v req e = json_object
     [(''server_protocol_version'', num_u64 v),
      (''request_id'', String (request_id req)),
      (''outcome'', String ''error''),
      (''diagnostics'', Array [json_object
         [(''code'', String (query_code e)), (''message'', String (query_message e))]])]"

definition refusal_response :: "u64 \<Rightarrow> string option \<Rightarrow> refusal \<Rightarrow> json" where
  "refusal_response v i r = json_object
     ([(''server_protocol_version'', num_u64 v)] @
      (case i of None \<Rightarrow> [] | Some t \<Rightarrow> [(''request_id'', String t)]) @
      [(''outcome'', String ''error''),
       (''rule'', String (rule_as_str (refusal_rule r)))] @
      (case refusal_code r of None \<Rightarrow> [] | Some c \<Rightarrow> [(''code'', String (code_as_str c))]) @
      [(''detail'', String (refusal_detail r))])"

definition too_large_response :: "u64 \<Rightarrow> u32 \<Rightarrow> u32 \<Rightarrow> json" where
  "too_large_response v n m = json_object
     [(''server_protocol_version'', num_u64 v),
      (''outcome'', String ''error''),
      (''rule'', String ''frame_too_large''),
      (''detail'', String (''the peer declared a '' @ show_u32 n @
         ''-byte frame, and the maximum is '' @ show_u32 m))]"

definition envelope_response ::
  "('w, 'db, 'tx, 'q, 'r, 's) engine \<Rightarrow> u64 \<Rightarrow> request \<Rightarrow> 'r \<Rightarrow> u64 \<Rightarrow> 's option \<Rightarrow> limits \<Rightarrow> json" where
  "envelope_response E v req result generation writes lim =
     (if row_count E result > max_result_rows lim then
        json_object
          [(''server_protocol_version'', num_u64 v),
           (''request_id'', String (request_id req)),
           (''outcome'', String ''error''),
           (''limit'', String ''max_result_rows''),
           (''detail'', String (''the query produced '' @ show_nat (row_count E result) @
              '' rows, and the per-session ceiling is '' @ show_nat (max_result_rows lim)))]
      else
        json_object
          [(''server_protocol_version'', num_u64 v),
           (''request_id'', String (request_id req)),
           (''outcome'', String ''ok''),
           (''result'', envelope_json E result generation writes)])"

definition invalid_data_error :: "string \<Rightarrow> io_error" where
  "invalid_data_error msg = IoError InvalidData msg"

definition send :: "textlib \<Rightarrow> limits \<Rightarrow> json \<Rightarrow> stream \<Rightarrow> (frame_error + unit) \<times> stream" where
  "send H lim v s = (case to_string H v of
     Inl msg \<Rightarrow> (Err (Io (invalid_data_error msg)), s)
   | Inr body \<Rightarrow> write_frame body (max_frame_bytes lim) s)"

subsection \<open>A statement in its own transaction\<close>

definition run_one ::
  "('w, 'db, 'tx, 'q, 'r, 's) engine \<Rightarrow> limits \<Rightarrow> u64 \<Rightarrow> request \<Rightarrow> string \<Rightarrow> 'db \<Rightarrow> 'w \<Rightarrow>
   json \<times> 'db \<times> 'w" where
  "run_one E lim v req stmt db w = (case cypher_parse E stmt of
     Inl e \<Rightarrow> (diagnostic_response v req e, db, w)
   | Inr query \<Rightarrow> (case tx_begin E db w of
         (Inl (msg, db'), w1) \<Rightarrow> (error_response v req msg, db', w1)
       | (Inr tx, w1) \<Rightarrow>
          (let base = tx_base E tx in
           (case tx_run E query (query_timeout lim) tx w1 of
              (Inl e, tx', w2) \<Rightarrow>
                (let (db', w3) = tx_rollback E tx' w2
                 in (diagnostic_response v req e, db', w3))
            | (Inr result, tx', w2) \<Rightarrow>
                (let writes = tx_writes E tx' in
                 if \<not> writes_empty E writes then
                   (case tx_commit E tx' w2 of
                      (Inr generation, db', w3) \<Rightarrow>
                        (envelope_response E v req result generation (Some writes) lim, db', w3)
                    | (Inl msg, db', w3) \<Rightarrow> (error_response v req msg, db', w3))
                 else
                   (let (db', w3) = tx_rollback E tx' w2
                    in (envelope_response E v req result base None lim, db', w3)))))))"

subsection \<open>Dispatch\<close>

datatype reply = Send json | Transaction | Shutdown_Reply json

text \<open>\<open>usize::from(slot.is_open())\<close>.\<close>

definition session_count :: "'db slot \<Rightarrow> u64" where
  "session_count sl = (if slot_is_open sl then 1 else 0)"

definition dispatch_open ::
  "textlib \<Rightarrow> ('w, 'db, 'tx, 'q, 'r, 's) engine \<Rightarrow> string \<Rightarrow> u64 \<Rightarrow> request \<Rightarrow> 'db slot \<Rightarrow> 'w \<Rightarrow>
   reply \<times> 'db slot \<times> 'w" where
  "dispatch_open H E catalog_path v req sl w = (case request.database req of
     None \<Rightarrow> (Send (error_response v req ''open_session names the database to open''), sl, w)
   | Some name \<Rightarrow>
      (let (contents, w1) = read_file E catalog_path w in
       (case catalog_load H contents of
          Inl e \<Rightarrow> (Send (error_response v req (catalog_error_display e)), sl, w1)
        | Inr c \<Rightarrow> (case slot_open E name c sl w1 of
              (Inr i, sl', w2) \<Rightarrow>
                (Send (ok_response v req (json_object [(''session_id'', String i)])), sl', w2)
            | (Inl (OpenRefused r), sl', w2) \<Rightarrow>
                (Send (refusal_response v (Some (request_id req)) r), sl', w2)
            | (Inl e, sl', w2) \<Rightarrow> (Send (error_response v req (open_error_display e)), sl', w2)))))"

definition dispatch_query ::
  "('w, 'db, 'tx, 'q, 'r, 's) engine \<Rightarrow> limits \<Rightarrow> u64 \<Rightarrow> request \<Rightarrow> 'db slot \<Rightarrow> 'w \<Rightarrow>
   reply \<times> 'db slot \<times> 'w" where
  "dispatch_query E lim v req sl w = (case slot_resolve (session_id req) sl of
     Inl r \<Rightarrow> (Send (refusal_response v (Some (request_id req)) r), sl, w)
   | Inr s \<Rightarrow> (case statement req of
         None \<Rightarrow> (Send (error_response v req ''a query carries a statement''), sl, w)
       | Some stmt \<Rightarrow>
          (let (value, db', w') = run_one E lim v req stmt (sess_database s) w
           in (Send value, slot_put db' sl, w'))))"

fun dispatch ::
  "textlib \<Rightarrow> ('w, 'db, 'tx, 'q, 'r, 's) engine \<Rightarrow> limits \<Rightarrow> string \<Rightarrow> string \<Rightarrow> u64 \<Rightarrow>
   request \<Rightarrow> 'db slot \<Rightarrow> 'w \<Rightarrow> reply \<times> 'db slot \<times> 'w" where
  "dispatch H E lim catalog_path endpoint v req sl w = (case req_operation req of
     OpenSession \<Rightarrow> dispatch_open H E catalog_path v req sl w
   | CloseSession \<Rightarrow>
      (let (closed, sl', w') = slot_close E sl w
       in (Send (ok_response v req (json_object [(''closed'', Bool closed)])), sl', w'))
   | Status \<Rightarrow>
      (Send (ok_response v req (json_object
         [(''endpoint'', String endpoint),
          (''sessions'', num_u64 (session_count sl)),
          (''server_protocol_version'', num_u64 v)])), sl, w)
   | Shutdown \<Rightarrow> (Shutdown_Reply (ok_response v req (json_object [])), sl, w)
   | Query \<Rightarrow> dispatch_query E lim v req sl w
   | Begin \<Rightarrow> (case slot_resolve (session_id req) sl of
         Inl r \<Rightarrow> (Send (refusal_response v (Some (request_id req)) r), sl, w)
       | Inr _ \<Rightarrow> (Transaction, sl, w))
   | Commit \<Rightarrow>
      (Send (error_response v req ''there is no open transaction; send begin first''), sl, w)
   | Rollback \<Rightarrow>
      (Send (error_response v req ''there is no open transaction; send begin first''), sl, w))"

declare dispatch.simps [simp del]

subsection \<open>The transaction region\<close>

text \<open>
  What one decoded request does inside the region: \<open>Finish\<close> sends a reply and leaves with
  the database back (\<open>commit\<close>, \<open>rollback\<close>), \<open>Respond\<close> goes on to the end of the loop's body,
  where the request's identifier is released and the reply sent, and \<open>RespondKeep\<close> is the
  \<open>pipe_send\<close> and \<open>continue\<close> of a query without a statement.
\<close>

datatype ('tx, 'db, 'w) region_act =
    Finish json 'db 'w
  | Respond json 'tx 'w
  | RespondKeep json

definition region_query ::
  "('w, 'db, 'tx, 'q, 'r, 's) engine \<Rightarrow> limits \<Rightarrow> u64 \<Rightarrow> u64 \<Rightarrow> request \<Rightarrow> 'tx \<Rightarrow> 'w \<Rightarrow>
   ('tx, 'db, 'w) region_act" where
  "region_query E lim v base req tx w = (case statement req of
     None \<Rightarrow> RespondKeep (error_response v req ''a query carries a statement'')
   | Some stmt \<Rightarrow> (case cypher_parse E stmt of
         Inl e \<Rightarrow> Respond (diagnostic_response v req e) tx w
       | Inr query \<Rightarrow> (case tx_run E query (query_timeout lim) tx w of
             (Inl e, tx', w') \<Rightarrow> Respond (diagnostic_response v req e) tx' w'
           | (Inr result, tx', w') \<Rightarrow>
               Respond (envelope_response E v req result base (Some (tx_writes E tx')) lim) tx' w')))"

definition region_request ::
  "('w, 'db, 'tx, 'q, 'r, 's) engine \<Rightarrow> limits \<Rightarrow> u64 \<Rightarrow> u64 \<Rightarrow> request \<Rightarrow> 'tx \<Rightarrow> 'w \<Rightarrow>
   ('tx, 'db, 'w) region_act" where
  "region_request E lim v base req tx w = (case req_operation req of
     Commit \<Rightarrow> (case tx_commit E tx w of
         (Inr generation, db, w') \<Rightarrow>
           Finish (ok_response v req (json_object [(''generation'', num_u64 generation)])) db w'
       | (Inl msg, db, w') \<Rightarrow> Finish (error_response v req msg) db w')
   | Rollback \<Rightarrow>
      (let (db, w') = tx_rollback E tx w
       in Finish (ok_response v req (json_object [(''rolled_back'', Bool True)])) db w')
   | Query \<Rightarrow> region_query E lim v base req tx w
   | Begin \<Rightarrow> Respond (error_response v req
       ''this session already has an open transaction; commit or roll back first'') tx w
   | Status \<Rightarrow> Respond (ok_response v req (json_object
       [(''in_transaction'', Bool True), (''base_generation'', num_u64 base)])) tx w
   | _ \<Rightarrow> Respond (error_response v req
       ''finish the open transaction before changing the session or stopping the daemon'') tx w)"

datatype region_end = Continue | RegionClientClosed | RegionTransportFailed

text \<open>Rolling back on the way out of the region.\<close>

definition region_abort ::
  "('w, 'db, 'tx, 'q, 'r, 's) engine \<Rightarrow> region_end \<Rightarrow> 'tx \<Rightarrow> stream \<Rightarrow> 'w \<Rightarrow>
   region_end \<times> 'db \<times> stream \<times> 'w" where
  "region_abort E e tx s w = (let (db, w') = tx_rollback E tx w in (e, db, s, w'))"

lemma send_inp: "send H lim v s = (r, s') \<Longrightarrow> inp s' = inp s"
  by (auto simp: send_def split: sum.splits dest: write_frame_prefix)

lemma send_inp_size [simp]: "inp_size (snd (send H lim v s)) = inp_size s"
  by (cases "send H lim v s") (auto dest: send_inp intro: inp_size_eq)

lemma send_progress:
  "read_frame m s = (Ok t, s1) \<Longrightarrow> send H lim v s1 = (r, s2) \<Longrightarrow> inp_size s2 < inp_size s"
  using read_frame_progress send_inp inp_size_eq by metis

lemma read_frame_progress_snd:
  "fst (read_frame m s) = Ok t \<Longrightarrow> inp_size (snd (read_frame m s)) < inp_size s"
  by (cases "read_frame m s") (auto dest: read_frame_progress)

lemma read_frame_le_snd: "inp_size (snd (read_frame m s)) \<le> inp_size s"
  by (cases "read_frame m s") (auto dest: read_frame_frame)

function region_loop ::
  "textlib \<Rightarrow> ('w, 'db, 'tx, 'q, 'r, 's) engine \<Rightarrow> limits \<Rightarrow> u64 \<Rightarrow> u64 \<Rightarrow> string set \<Rightarrow>
   'tx \<Rightarrow> stream \<Rightarrow> 'w \<Rightarrow> region_end \<times> 'db \<times> stream \<times> 'w" where
  "region_loop H E lim v base outstanding tx s w =
     (case read_frame (max_frame_bytes lim) s of
        (Inl Closed, s1) \<Rightarrow> region_abort E RegionClientClosed tx s1 w
      | (Inl _, s1) \<Rightarrow> region_abort E RegionTransportFailed tx s1 w
      | (Inr body, s1) \<Rightarrow>
         (case decode_request H body outstanding of
            Inl r \<Rightarrow>
              (case send H lim (refusal_response v None r) s1 of
                 (Inl _, s2) \<Rightarrow> region_abort E RegionTransportFailed tx s2 w
               | (Inr _, s2) \<Rightarrow> region_loop H E lim v base outstanding tx s2 w)
          | Inr req \<Rightarrow>
              (case region_request E lim v base req tx w of
                 Finish value db w' \<Rightarrow> (Continue, db, snd (send H lim value s1), w')
               | RespondKeep value \<Rightarrow>
                   region_loop H E lim v base (insert (request_id req) outstanding) tx
                     (snd (send H lim value s1)) w
               | Respond value tx' w' \<Rightarrow>
                   (case send H lim value s1 of
                      (Inl _, s2) \<Rightarrow> region_abort E RegionTransportFailed tx' s2 w'
                    | (Inr _, s2) \<Rightarrow>
                        region_loop H E lim v base
                          (insert (request_id req) outstanding - {request_id req}) tx' s2 w'))))"
  by pat_completeness auto
termination
  by (relation "measure (\<lambda>(H, E, lim, v, base, outstanding, tx, s, w). inp_size s)")
    (auto dest!: sym [where s = "(_, _)"] intro: send_progress read_frame_progress)

declare region_loop.simps [simp del]

lemma region_abort_inp [simp]: "fst (snd (snd (region_abort E e tx s w))) = s"
  by (simp add: region_abort_def split: prod.split)

lemma region_loop_inp:
  "inp_size (fst (snd (snd (region_loop H E lim v base outstanding tx s w)))) \<le> inp_size s"
proof (induction H E lim v base outstanding tx s w rule: region_loop.induct)
  case (1 H E lim v base outstanding tx s w)
  obtain q s1 where q: "read_frame (max_frame_bytes lim) s = (q, s1)" by fastforce
  have le: "inp_size s1 \<le> inp_size s" using read_frame_frame [OF q] by simp
  show ?case
  proof (cases q)
    case (Inl e)
    with q le show ?thesis by (subst region_loop.simps) (cases e; simp)
  next
    case (Inr body)
    note IH = "1.IH" [OF q [symmetric] Inr]
    show ?thesis
    proof (cases "decode_request H body outstanding")
      case (Inl r)
      obtain q2 s2 where q2: "send H lim (refusal_response v None r) s1 = (q2, s2)" by fastforce
      have "inp_size s2 \<le> inp_size s" using send_inp_size [of H lim "refusal_response v None r" s1] q2 le by simp
      with q Inr Inl q2 IH(1) [OF Inl q2 [symmetric]] show ?thesis
        by (subst region_loop.simps) (cases q2; force intro: order.trans)
    next
      case (Inr req)
      note IH = IH(2,3) [OF Inr]
      show ?thesis
      proof (cases "region_request E lim v base req tx w")
        case (Finish x db w')
        with q \<open>q = Inr body\<close> Inr le show ?thesis by (subst region_loop.simps) simp
      next
        case (RespondKeep x)
        with q \<open>q = Inr body\<close> Inr le IH(2) [OF RespondKeep] show ?thesis
          by (subst region_loop.simps) (force intro: order.trans)
      next
        case (Respond x tx' w')
        obtain q2 s2 where q2: "send H lim x s1 = (q2, s2)" by fastforce
        have "inp_size s2 \<le> inp_size s" using send_inp_size [of H lim x s1] q2 le by simp
        with q \<open>q = Inr body\<close> Inr Respond q2 IH(1) [OF Respond q2 [symmetric]] show ?thesis
          by (subst region_loop.simps) (cases q2; force intro: order.trans)
      qed
    qed
  qed
qed

definition run_transaction_region ::
  "textlib \<Rightarrow> ('w, 'db, 'tx, 'q, 'r, 's) engine \<Rightarrow> limits \<Rightarrow> u64 \<Rightarrow> request \<Rightarrow> 'db slot \<Rightarrow>
   stream \<Rightarrow> 'w \<Rightarrow> region_end \<times> 'db slot \<times> stream \<times> 'w" where
  "run_transaction_region H E lim v req sl s w = (case slot_resolve (session_id req) sl of
     Inl r \<Rightarrow>
       (Continue, sl, snd (send H lim (refusal_response v (Some (request_id req)) r) s), w)
   | Inr sess \<Rightarrow> (case tx_begin E (sess_database sess) w of
         (Inl (msg, db), w1) \<Rightarrow>
           (Continue, slot_put db sl, snd (send H lim (error_response v req msg) s), w1)
       | (Inr tx, w1) \<Rightarrow>
          (let base = tx_base E tx in
           (case send H lim (ok_response v req (json_object [(''base_generation'', num_u64 base)])) s of
              (Inl _, s1) \<Rightarrow>
                (let (e, db, s2, w2) = region_abort E RegionTransportFailed tx s1 w1
                 in (e, slot_put db sl, s2, w2))
            | (Inr _, s1) \<Rightarrow>
                (let (e, db, s2, w2) = region_loop H E lim v base {} tx s1 w1
                 in (e, slot_put db sl, s2, w2))))))"

lemma run_transaction_region_inp:
  "run_transaction_region H E lim v req sl s w = (e, sl', s', w') \<Longrightarrow> inp_size s' \<le> inp_size s"
proof -
  have send_le: "send H lim x s = (r, t) \<Longrightarrow> inp_size t = inp_size s" for x r t
    using send_inp_size [of H lim x s] by simp
  assume "run_transaction_region H E lim v req sl s w = (e, sl', s', w')"
  then show ?thesis
    using region_loop_inp [of H E lim v _ "{}" _ _ _] send_le
    by (auto simp: run_transaction_region_def region_abort_def Let_def
        split: sum.splits prod.splits) (metis fst_conv snd_conv)
qed

subsection \<open>A connection\<close>

text \<open>
  Dropping the slot: what \<open>slot.close()\<close> does, and what leaving \<open>serve_connection\<close> does to a
  slot that still holds a session.
\<close>

definition slot_drop :: "('w, 'db, 'tx, 'q, 'r, 's) engine \<Rightarrow> 'db slot \<Rightarrow> 'w \<Rightarrow> 'w" where
  "slot_drop E sl w = snd (snd (slot_close E sl w))"

function serve_loop ::
  "textlib \<Rightarrow> ('w, 'db, 'tx, 'q, 'r, 's) engine \<Rightarrow> limits \<Rightarrow> string \<Rightarrow> string \<Rightarrow> u64 \<Rightarrow>
   string set \<Rightarrow> 'db slot \<Rightarrow> stream \<Rightarrow> 'w \<Rightarrow> ended \<times> stream \<times> 'w" where
  "serve_loop H E lim catalog_path endpoint v outstanding sl s w =
     (case read_frame (max_frame_bytes lim) s of
        (Inl Closed, s1) \<Rightarrow> (ClientClosed, s1, slot_drop E sl w)
      | (Inl (TooLarge n m), s1) \<Rightarrow>
          (TransportFailed, snd (send H lim (too_large_response v n m) s1), slot_drop E sl w)
      | (Inl _, s1) \<Rightarrow> (TransportFailed, s1, slot_drop E sl w)
      | (Inr body, s1) \<Rightarrow>
         (case decode_request H body outstanding of
            Inl r \<Rightarrow>
              serve_loop H E lim catalog_path endpoint v outstanding sl
                (snd (send H lim (refusal_response v None r) s1)) w
          | Inr req \<Rightarrow>
             (case dispatch H E lim catalog_path endpoint v req sl w of
                (Send value, sl1, w1) \<Rightarrow>
                  (case send H lim value s1 of
                     (Inl _, s2) \<Rightarrow> (TransportFailed, s2, slot_drop E sl1 w1)
                   | (Inr _, s2) \<Rightarrow>
                       serve_loop H E lim catalog_path endpoint v
                         (insert (request_id req) outstanding - {request_id req}) sl1 s2 w1)
              | (Transaction, sl1, w1) \<Rightarrow>
                  (case run_transaction_region H E lim v req sl1 s1 w1 of
                     (Continue, sl2, s2, w2) \<Rightarrow>
                       serve_loop H E lim catalog_path endpoint v
                         (insert (request_id req) outstanding - {request_id req}) sl2 s2 w2
                   | (RegionClientClosed, sl2, s2, w2) \<Rightarrow> (ClientClosed, s2, slot_drop E sl2 w2)
                   | (RegionTransportFailed, sl2, s2, w2) \<Rightarrow>
                       (TransportFailed, s2, slot_drop E sl2 w2))
              | (Shutdown_Reply value, sl1, w1) \<Rightarrow>
                  (ShutdownRequested, snd (send H lim value s1), slot_drop E sl1 w1))))"
  by pat_completeness auto
termination
proof (relation "measure (\<lambda>(H, E, lim, cp, ep, v, outstanding, sl, s, w). inp_size s)", goal_cases)
  case 1
  show ?case by simp
next
  case 2
  then show ?case by (simp, metis read_frame_progress)
next
  case 3
  show ?case
    using send_progress [OF 3(1) [symmetric, unfolded 3(2)] 3(7) [symmetric]] by simp
next
  case 4
  show ?case
    using order.strict_trans1
      [OF run_transaction_region_inp [OF 4(7) [symmetric, folded 4(9), folded 4(10)]]
        read_frame_progress [OF 4(1) [symmetric, unfolded 4(2)]]]
    by simp
qed

declare serve_loop.simps [simp del]

definition handshake :: "textlib \<Rightarrow> string \<Rightarrow> refusal + u64" where
  "handshake H opening = (case decode_hello H opening of
     Inl r \<Rightarrow> Err r
   | Inr h \<Rightarrow> negotiate h)"

definition serve_connection ::
  "textlib \<Rightarrow> ('w, 'db, 'tx, 'q, 'r, 's) engine \<Rightarrow> limits \<Rightarrow> string \<Rightarrow> string \<Rightarrow>
   stream \<Rightarrow> 'w \<Rightarrow> ended \<times> stream \<times> 'w" where
  "serve_connection H E lim catalog_path endpoint s w =
     (case read_frame (max_frame_bytes lim) s of
        (Inl Closed, s1) \<Rightarrow> (ClientClosed, s1, w)
      | (Inl _, s1) \<Rightarrow> (TransportFailed, s1, w)
      | (Inr opening, s1) \<Rightarrow>
         (case handshake H opening of
            Inl _ \<Rightarrow> (HandshakeRefused, snd (send H lim refused_reply s1), w)
          | Inr v \<Rightarrow>
             (case send H lim (welcome_reply v endpoint) s1 of
                (Inl _, s2) \<Rightarrow> (TransportFailed, s2, w)
              | (Inr _, s2) \<Rightarrow>
                  serve_loop H E lim catalog_path endpoint v {} slot_new s2 w)))"

end
