(* ===== verification/ConnSpec.thy ===== *)
theory ConnSpec
  imports Serve
begin

section \<open>A connection as a machine over messages\<close>

text \<open>
  The abstract specification of \<open>src/serve.rs\<close>: the nested loops over a transport, seen as one
  state machine over message bodies. It has two modes, outside a transaction and inside one;
  it answers each body with one reply, which may have no frame, and goes on or stops. The byte level is gone:
  \<open>frames_of\<close> cuts a byte stream into bodies and the way it ends. The loops refine the machine
  (\<open>serve_connection_refines\<close>).
\<close>

subsection \<open>Frames of a byte stream\<close>

lemma parse_frame_shorter:
  "parse_frame m bs = (Inr t, rest) \<Longrightarrow> length rest < length bs"
  by (auto simp: parse_frame_def Let_def split: if_splits sum.splits)

function frames_of :: "u32 \<Rightarrow> u8 list \<Rightarrow> string list \<times> frame_error" where
  "frames_of m bs = (case parse_frame m bs of
     (Inl e, _) \<Rightarrow> ([], e)
   | (Inr t, rest) \<Rightarrow> (let (ts, e) = frames_of m rest in (t # ts, e)))"
  by pat_completeness auto
termination
  by (relation "measure (\<lambda>(m, bs). length bs)") (auto dest: sym intro: parse_frame_shorter)

declare frames_of.simps [simp del]

lemma frames_of_Inl: "parse_frame m bs = (Inl e, rest) \<Longrightarrow> frames_of m bs = ([], e)"
  by (subst frames_of.simps) simp

lemma frames_of_Inr:
  "parse_frame m bs = (Inr t, rest) \<Longrightarrow>
   frames_of m bs = (t # fst (frames_of m rest), snd (frames_of m rest))"
  by (subst frames_of.simps) (simp add: case_prod_beta Let_def)

lemma frames_of_messages:
  "\<forall>t \<in> set ts. sendable m t \<Longrightarrow> frames_of m (concat (map frame_bytes ts)) = (ts, Closed)"
  by (induction ts) (simp_all add: frames_of_Inl [OF fr.dec_Nil] frames_of_Inr [OF fr.dec_enc])

subsection \<open>What a clean transport delivers\<close>

definition deliverable :: "textlib \<Rightarrow> limits \<Rightarrow> json \<Rightarrow> bool" where
  "deliverable H lim v = (case to_string H v of
     Inl _ \<Rightarrow> False | Inr body \<Rightarrow> length body \<le> unat (max_frame_bytes lim))"

definition delivery :: "textlib \<Rightarrow> limits \<Rightarrow> json \<Rightarrow> u8 list" where
  "delivery H lim v = (case to_string H v of
     Inl _ \<Rightarrow> []
   | Inr body \<Rightarrow> if length body \<le> unat (max_frame_bytes lim) then frame_bytes body else [])"

lemma write_frame_too_long:
  assumes "\<not> length body \<le> unat maximum"
  shows "\<exists>e. write_frame body maximum s = (Err e, s)"
proof -
  have "of_nat (length body) > maximum" if "length body \<le> u32_max"
  proof -
    have "unat (of_nat (length body) :: u32) = length body"
      using that by (intro of_nat_inverse) (simp_all add: u32_max_def)
    with assms show ?thesis by (simp add: word_less_nat_alt)
  qed
  then show ?thesis by (auto simp: write_frame_def Let_def)
qed

lemma send_clean:
  assumes "wev s = []" "send H lim v s = (r, s')"
  shows "s' = s\<lparr>out := out s @ delivery H lim v\<rparr> \<and> (r = Inr () \<longleftrightarrow> deliverable H lim v)"
proof (cases "to_string H v")
  case (Inr body)
  then show ?thesis
    using assms write_frame_clean [OF assms(1), of body "max_frame_bytes lim"]
      write_frame_too_long [of body "max_frame_bytes lim" s]
    by (auto simp: send_def deliverable_def delivery_def split: if_splits)
qed (use assms in \<open>auto simp: send_def deliverable_def delivery_def\<close>)

subsection \<open>The machine\<close>

text \<open>
  \<open>Inside sl base held tx\<close>: the slot whose session lent its database, the generation the
  transaction began at, the identifiers still held as outstanding, and the transaction.
\<close>

datatype ('db, 'tx) mode =
    Outside "'db slot"
  | Inside "'db slot" u64 "string set" 'tx

datatype ('db, 'tx) verdict = Go "('db, 'tx) mode" | Stop ended

text \<open>The world after a connection ends in a mode.\<close>

fun hangup :: "('w, 'db, 'tx, 'q, 'r, 's) engine \<Rightarrow> ('db, 'tx) mode \<Rightarrow> 'w \<Rightarrow> 'w" where
  "hangup E (Outside sl) w = slot_drop E sl w"
| "hangup E (Inside sl base held tx) w =
     (let (db, w') = tx_rollback E tx w in slot_drop E (slot_put db sl) w')"

text \<open>A reply whose sending is checked.\<close>

definition checked ::
  "textlib \<Rightarrow> ('w, 'db, 'tx, 'q, 'r, 's) engine \<Rightarrow> limits \<Rightarrow> ('db, 'tx) mode \<Rightarrow> json \<Rightarrow> 'w \<Rightarrow>
   ('db, 'tx) verdict \<times> json \<times> 'w" where
  "checked H E lim m x w =
     (if deliverable H lim x then (Go m, x, w) else (Stop TransportFailed, x, hangup E m w))"

definition begin_step ::
  "textlib \<Rightarrow> ('w, 'db, 'tx, 'q, 'r, 's) engine \<Rightarrow> limits \<Rightarrow> u64 \<Rightarrow> request \<Rightarrow> 'db slot \<Rightarrow> 'w \<Rightarrow>
   ('db, 'tx) verdict \<times> json \<times> 'w" where
  "begin_step H E lim v req sl w = (case slot_resolve (session_id req) sl of
     Inl r \<Rightarrow> (Go (Outside sl), refusal_response v (Some (request_id req)) r, w)
   | Inr sess \<Rightarrow> (case tx_begin E (sess_database sess) w of
         (Inl (msg, db), w1) \<Rightarrow> (Go (Outside (slot_put db sl)), error_response v req msg, w1)
       | (Inr tx, w1) \<Rightarrow>
          checked H E lim (Inside sl (tx_base E tx) {} tx)
            (ok_response v req (json_object [(''base_generation'', num_u64 (tx_base E tx))])) w1))"

definition outside_step ::
  "textlib \<Rightarrow> ('w, 'db, 'tx, 'q, 'r, 's) engine \<Rightarrow> limits \<Rightarrow> string \<Rightarrow> string \<Rightarrow> u64 \<Rightarrow>
   request \<Rightarrow> 'db slot \<Rightarrow> 'w \<Rightarrow> ('db, 'tx) verdict \<times> json \<times> 'w" where
  "outside_step H E lim cp ep v req sl w = (case dispatch H E lim cp ep v req sl w of
     (Send x, sl1, w1) \<Rightarrow> checked H E lim (Outside sl1) x w1
   | (Transaction, sl1, w1) \<Rightarrow> begin_step H E lim v req sl1 w1
   | (Shutdown_Reply x, sl1, w1) \<Rightarrow> (Stop ShutdownRequested, x, slot_drop E sl1 w1))"

definition inside_step ::
  "textlib \<Rightarrow> ('w, 'db, 'tx, 'q, 'r, 's) engine \<Rightarrow> limits \<Rightarrow> u64 \<Rightarrow> request \<Rightarrow> 'db slot \<Rightarrow>
   u64 \<Rightarrow> string set \<Rightarrow> 'tx \<Rightarrow> 'w \<Rightarrow> ('db, 'tx) verdict \<times> json \<times> 'w" where
  "inside_step H E lim v req sl base held tx w = (case region_request E lim v base req tx w of
     Finish x db w' \<Rightarrow> (Go (Outside (slot_put db sl)), x, w')
   | RespondKeep x \<Rightarrow> (Go (Inside sl base (insert (request_id req) held) tx), x, w)
   | Respond x tx' w' \<Rightarrow> checked H E lim (Inside sl base (held - {request_id req}) tx') x w')"

fun conn_step ::
  "textlib \<Rightarrow> ('w, 'db, 'tx, 'q, 'r, 's) engine \<Rightarrow> limits \<Rightarrow> string \<Rightarrow> string \<Rightarrow> u64 \<Rightarrow>
   ('db, 'tx) mode \<Rightarrow> string \<Rightarrow> 'w \<Rightarrow> ('db, 'tx) verdict \<times> json \<times> 'w" where
  "conn_step H E lim cp ep v (Outside sl) body w = (case decode_request H body {} of
     Inl r \<Rightarrow> (Go (Outside sl), refusal_response v None r, w)
   | Inr req \<Rightarrow> outside_step H E lim cp ep v req sl w)"
| "conn_step H E lim cp ep v (Inside sl base held tx) body w = (case decode_request H body held of
     Inl r \<Rightarrow> checked H E lim (Inside sl base held tx) (refusal_response v None r) w
   | Inr req \<Rightarrow> inside_step H E lim v req sl base held tx w)"

text \<open>How a stream that ends without another body ends the connection.\<close>

definition ended_by :: "frame_error \<Rightarrow> ended" where
  "ended_by e = (if e = Closed then ClientClosed else TransportFailed)"

fun farewell :: "u64 \<Rightarrow> ('db, 'tx) mode \<Rightarrow> frame_error \<Rightarrow> json list" where
  "farewell v (Outside sl) (TooLarge n m) = [too_large_response v n m]"
| "farewell v m e = []"

fun conn_run ::
  "textlib \<Rightarrow> ('w, 'db, 'tx, 'q, 'r, 's) engine \<Rightarrow> limits \<Rightarrow> string \<Rightarrow> string \<Rightarrow> u64 \<Rightarrow>
   ('db, 'tx) mode \<Rightarrow> string list \<Rightarrow> frame_error \<Rightarrow> 'w \<Rightarrow> ended \<times> json list \<times> 'w" where
  "conn_run H E lim cp ep v m [] e w = (ended_by e, farewell v m e, hangup E m w)"
| "conn_run H E lim cp ep v m (body # bodies) e w = (case conn_step H E lim cp ep v m body w of
     (Stop x, reply, w') \<Rightarrow> (x, [reply], w')
   | (Go m', reply, w') \<Rightarrow>
      (let (x, replies, w'') = conn_run H E lim cp ep v m' bodies e w'
       in (x, reply # replies, w'')))"

text \<open>A whole connection, the handshake first.\<close>

definition conn_script ::
  "textlib \<Rightarrow> ('w, 'db, 'tx, 'q, 'r, 's) engine \<Rightarrow> limits \<Rightarrow> string \<Rightarrow> string \<Rightarrow>
   string list \<Rightarrow> frame_error \<Rightarrow> 'w \<Rightarrow> ended \<times> json list \<times> 'w" where
  "conn_script H E lim cp ep bodies e w = (case bodies of
     [] \<Rightarrow> (ended_by e, [], w)
   | opening # rest \<Rightarrow> (case handshake H opening of
         Inl _ \<Rightarrow> (HandshakeRefused, [refused_reply], w)
       | Inr v \<Rightarrow>
          (if deliverable H lim (welcome_reply v ep) then
             (let (x, replies, w') = conn_run H E lim cp ep v (Outside slot_new) rest e w
              in (x, welcome_reply v ep # replies, w'))
           else (TransportFailed, [welcome_reply v ep], w))))"

text \<open>A whole connection on the bytes the peer sends.\<close>

definition conn_on_bytes ::
  "textlib \<Rightarrow> ('w, 'db, 'tx, 'q, 'r, 's) engine \<Rightarrow> limits \<Rightarrow> string \<Rightarrow> string \<Rightarrow>
   u8 list \<Rightarrow> 'w \<Rightarrow> ended \<times> json list \<times> 'w" where
  "conn_on_bytes H E lim cp ep bytes w =
     (let (bodies, e) = frames_of (max_frame_bytes lim) bytes
      in conn_script H E lim cp ep bodies e w)"

end
