(* ===== verification/ConnRefine.thy ===== *)
theory ConnRefine
  imports ConnSpec
begin

section \<open>The loops refine the machine\<close>

text \<open>
  \<open>serve_loop\<close> and \<open>region_loop\<close> on a transport that neither fails nor refuses a write do what
  \<open>conn_run\<close> does on the bodies of its byte stream.
\<close>

definition clean :: "stream \<Rightarrow> bool" where
  "clean s = (healthy (inp s) \<and> wev s = [])"

definition script :: "u32 \<Rightarrow> stream \<Rightarrow> string list \<times> frame_error" where
  "script m s = frames_of m (bytes_of (inp s))"

lemma clean_out [simp]: "clean (s\<lparr>out := x\<rparr>) = clean s" "script m (s\<lparr>out := x\<rparr>) = script m s"
  by (simp_all add: clean_def script_def)

lemma clean_read:
  assumes "clean s"
  obtains (finish) e s1 where "read_frame m s = (Inl e, s1)" "script m s = ([], e)"
      "clean s1" "out s1 = out s"
  | (body) t s1 where "read_frame m s = (Inr t, s1)" "clean s1" "out s1 = out s"
      "script m s = (t # fst (script m s1), snd (script m s1))"
proof -
  from read_frame_refines [of s m] assms obtain evs where e: "healthy evs"
      "read_frame m s = (fst (parse_frame m (bytes_of (inp s))), s\<lparr>inp := evs\<rparr>)"
      "bytes_of evs = snd (parse_frame m (bytes_of (inp s)))"
    by (auto simp: clean_def)
  obtain q rest where p: "parse_frame m (bytes_of (inp s)) = (q, rest)" by fastforce
  show ?thesis
  proof (cases q)
    case (Inl x)
    with e p assms show ?thesis
      by (intro finish [of x "s\<lparr>inp := evs\<rparr>"]) (simp_all add: clean_def script_def frames_of_Inl)
  next
    case (Inr t)
    with e p assms show ?thesis
      by (intro body [of t "s\<lparr>inp := evs\<rparr>"]) (simp_all add: clean_def script_def frames_of_Inr)
  qed
qed

lemma clean_send:
  assumes "clean s"
  obtains r where "send H lim v s = (r, s\<lparr>out := out s @ delivery H lim v\<rparr>)"
    "r = Inr () \<longleftrightarrow> deliverable H lim v"
proof -
  obtain r s' where "send H lim v s = (r, s')" by fastforce
  with send_clean [OF _ this] assms show thesis by (intro that [of r]) (auto simp: clean_def)
qed

text \<open>The bytes of a list of replies, and replies put in front of a run's.\<close>

abbreviation deliveries :: "textlib \<Rightarrow> limits \<Rightarrow> json list \<Rightarrow> u8 list" where
  "deliveries H lim replies \<equiv> concat (map (delivery H lim) replies)"

definition before :: "json list \<Rightarrow> ended \<times> json list \<times> 'w \<Rightarrow> ended \<times> json list \<times> 'w" where
  "before rs r = (fst r, rs @ fst (snd r), snd (snd r))"

lemma before_simps [simp]:
  "before rs (x, rs', w) = (x, rs @ rs', w)"
  "before [] r = r"
  "before rs (before rs' r) = before (rs @ rs') r"
  by (simp_all add: before_def)

lemma conn_run_Cons:
  "conn_run H E lim cp ep v m (body # bodies) e w = (case conn_step H E lim cp ep v m body w of
     (Stop x, reply, w') \<Rightarrow> (x, [reply], w')
   | (Go m', reply, w') \<Rightarrow> before [reply] (conn_run H E lim cp ep v m' bodies e w'))"
  by (simp add: before_def Let_def case_prod_beta split: verdict.split)

text \<open>The rest of a connection, from a mode and what is left of the transport.\<close>

definition rest_of ::
  "textlib \<Rightarrow> ('w, 'db, 'tx, 'q, 'r, 's) engine \<Rightarrow> limits \<Rightarrow> string \<Rightarrow> string \<Rightarrow> u64 \<Rightarrow>
   ('db, 'tx) mode \<Rightarrow> stream \<Rightarrow> 'w \<Rightarrow> ended \<times> json list \<times> 'w" where
  "rest_of H E lim cp ep v m s w =
     conn_run H E lim cp ep v m (fst (script (max_frame_bytes lim) s))
       (snd (script (max_frame_bytes lim) s)) w"

lemma rest_of_out [simp]: "rest_of H E lim cp ep v m (s\<lparr>out := x\<rparr>) = rest_of H E lim cp ep v m s"
  by (simp add: rest_of_def fun_eq_iff)

lemma rest_of_end:
  "script (max_frame_bytes lim) s = ([], e) \<Longrightarrow>
   rest_of H E lim cp ep v m s w = (ended_by e, farewell v m e, hangup E m w)"
  by (simp add: rest_of_def)

lemma rest_of_body:
  "script (max_frame_bytes lim) s =
     (t # fst (script (max_frame_bytes lim) s1), snd (script (max_frame_bytes lim) s1)) \<Longrightarrow>
   rest_of H E lim cp ep v m s w = (case conn_step H E lim cp ep v m t w of
     (Stop x, reply, w') \<Rightarrow> (x, [reply], w')
   | (Go m', reply, w') \<Rightarrow> before [reply] (rest_of H E lim cp ep v m' s1 w'))"
  unfolding rest_of_def by (simp only: conn_run_Cons fst_conv snd_conv)

text \<open>What the region does to the rest of the connection.\<close>

definition region_meets ::
  "textlib \<Rightarrow> ('w, 'db, 'tx, 'q, 'r, 's) engine \<Rightarrow> limits \<Rightarrow> string \<Rightarrow> string \<Rightarrow> u64 \<Rightarrow>
   ended \<times> json list \<times> 'w \<Rightarrow> 'db slot \<Rightarrow> stream \<Rightarrow> region_end \<times> 'db \<times> stream \<times> 'w \<Rightarrow> bool" where
  "region_meets H E lim cp ep v rest sl s = (\<lambda>(x, db, s', w'). clean s' \<and>
     (\<exists>replies. out s' = out s @ deliveries H lim replies \<and>
       rest = (case x of
         Continue \<Rightarrow> before replies (rest_of H E lim cp ep v (Outside (slot_put db sl)) s' w')
       | RegionClientClosed \<Rightarrow> (ClientClosed, replies, slot_drop E (slot_put db sl) w')
       | RegionTransportFailed \<Rightarrow> (TransportFailed, replies, slot_drop E (slot_put db sl) w'))))"

lemma region_meets_before:
  assumes "region_meets H E lim cp ep v rest sl (s\<lparr>out := out s @ delivery H lim v'\<rparr>) y"
  shows "region_meets H E lim cp ep v (before [v'] rest) sl s y"
proof -
  obtain x db s' w' where y: "y = (x, db, s', w')" by (cases y) auto
  from assms obtain replies where "clean s'"
      "out s' = out s @ deliveries H lim (v' # replies)"
      "rest = (case x of
         Continue \<Rightarrow> before replies (rest_of H E lim cp ep v (Outside (slot_put db sl)) s' w')
       | RegionClientClosed \<Rightarrow> (ClientClosed, replies, slot_drop E (slot_put db sl) w')
       | RegionTransportFailed \<Rightarrow> (TransportFailed, replies, slot_drop E (slot_put db sl) w'))"
    by (auto simp: y region_meets_def)
  then show ?thesis
    unfolding y region_meets_def prod.case
    by (intro conjI exI [of _ "v' # replies"]) (auto split: region_end.split)
qed

lemma region_meets_abort:
  assumes "clean s1" "out s1 = out s @ deliveries H lim replies"
  shows "region_meets H E lim cp ep v (TransportFailed, replies, hangup E (Inside sl base held tx) w) sl s
      (region_abort E RegionTransportFailed tx s1 w)"
    "region_meets H E lim cp ep v (ClientClosed, replies, hangup E (Inside sl base held tx) w) sl s
      (region_abort E RegionClientClosed tx s1 w)"
  using assms by (auto simp: region_meets_def region_abort_def split: prod.split)

text \<open>What a verdict leaves of the connection, when the stream left is \<open>s\<close>.\<close>

definition continue_with ::
  "textlib \<Rightarrow> ('w, 'db, 'tx, 'q, 'r, 's) engine \<Rightarrow> limits \<Rightarrow> string \<Rightarrow> string \<Rightarrow> u64 \<Rightarrow>
   stream \<Rightarrow> ('db, 'tx) verdict \<times> json \<times> 'w \<Rightarrow> ended \<times> json list \<times> 'w" where
  "continue_with H E lim cp ep v s r = (case r of
     (Stop x, reply, w') \<Rightarrow> (x, [reply], w')
   | (Go m', reply, w') \<Rightarrow> before [reply] (rest_of H E lim cp ep v m' s w'))"

lemma continue_with_checked:
  "continue_with H E lim cp ep v s (checked H E lim m x w) =
     (if deliverable H lim x then before [x] (rest_of H E lim cp ep v m s w)
      else (TransportFailed, [x], hangup E m w))"
  by (simp add: continue_with_def checked_def)

lemma rest_of_step:
  "script (max_frame_bytes lim) s =
     (t # fst (script (max_frame_bytes lim) s1), snd (script (max_frame_bytes lim) s1)) \<Longrightarrow>
   rest_of H E lim cp ep v m s w =
     continue_with H E lim cp ep v s1 (conn_step H E lim cp ep v m t w)"
  unfolding continue_with_def by (rule rest_of_body)

lemma region_checked:
  assumes "clean s1" "out s1 = out s" and send: "send H lim x s1 = (q, s2)"
    and go: "\<And>u. q = Inr u \<Longrightarrow> clean s2 \<Longrightarrow>
      region_meets H E lim cp ep v (rest_of H E lim cp ep v (Inside sl base held tx) s2 w) sl s2 y"
  shows "region_meets H E lim cp ep v
    (continue_with H E lim cp ep v s1 (checked H E lim (Inside sl base held tx) x w)) sl s
    (case q of Inl _ \<Rightarrow> region_abort E RegionTransportFailed tx s2 w | Inr _ \<Rightarrow> y)"
proof -
  obtain q' where q': "send H lim x s1 = (q', s1\<lparr>out := out s1 @ delivery H lim x\<rparr>)"
      "q' = Inr () \<longleftrightarrow> deliverable H lim x"
    by (rule clean_send [OF assms(1)])
  with send have q: "q' = q" and s2: "s2 = s1\<lparr>out := out s @ delivery H lim x\<rparr>"
    using assms(2) by simp_all
  show ?thesis
  proof (cases "deliverable H lim x")
    case True
    with q q' have u: "q = Inr ()" by simp
    have "clean s2" using assms(1) s2 by simp
    note meets = go [OF u this]
    have "region_meets H E lim cp ep v
        (rest_of H E lim cp ep v (Inside sl base held tx) s1 w) sl (s\<lparr>out := out s2\<rparr>) y"
      using meets by (simp add: s2 region_meets_def)
    then have "region_meets H E lim cp ep v
        (before [x] (rest_of H E lim cp ep v (Inside sl base held tx) s1 w)) sl s y"
      by (intro region_meets_before) (simp add: s2)
    with True u show ?thesis by (simp add: continue_with_checked)
  next
    case False
    with q q' obtain e where "q = Inl e" by (cases q) auto
    with False show ?thesis
      using region_meets_abort(1) [of s2 s H lim "[x]"] assms(1)
      by (simp add: continue_with_checked s2 del: hangup.simps)
  qed
qed

lemma region_loop_meets:
  "clean s \<Longrightarrow>
   region_meets H E lim cp ep v (rest_of H E lim cp ep v (Inside sl base held tx) s w) sl s
     (region_loop H E lim v base held tx s w)"
proof (induction H E lim v base held tx s w rule: region_loop.induct)
  case (1 H E lim v base held tx s w)
  show ?case
  proof (cases rule: clean_read [OF "1.prems", of "max_frame_bytes lim", case_names finish body])
    case (finish e s1)
    have far: "farewell v (Inside sl base held tx) e = []" by (cases e) simp_all
    show ?thesis
      using region_meets_abort [of s1 s H lim "[]"] finish far
      by (subst region_loop.simps) (cases e; simp add: rest_of_end ended_by_def del: hangup.simps)
  next
    case (body t s1)
    note IH = "1.IH" [OF body(1) [symmetric] refl]
    note rest = rest_of_step [OF body(4), of H E cp ep v "Inside sl base held tx" w]
    show ?thesis
    proof (cases "decode_request H t held")
      case (Inl r)
      obtain q s2 where q: "send H lim (refusal_response v None r) s1 = (q, s2)" by fastforce
      from region_checked [OF body(2,3) q IH(1) [OF Inl q [symmetric]]] Inl q body(1) rest
      show ?thesis by (subst region_loop.simps) simp
    next
      case (Inr req)
      note IH = IH(2,3) [OF Inr]
      show ?thesis
      proof (cases "region_request E lim v base req tx w")
        case (Finish x db w')
        obtain q where "send H lim x s1 = (q, s1\<lparr>out := out s1 @ delivery H lim x\<rparr>)"
          by (rule clean_send [OF body(2)])
        with Finish Inr body rest show ?thesis
          by (subst region_loop.simps)
            (auto simp: inside_step_def continue_with_def region_meets_def intro!: exI [of _ "[x]"])
      next
        case (RespondKeep x)
        obtain q where q: "send H lim x s1 = (q, s1\<lparr>out := out s1 @ delivery H lim x\<rparr>)"
          by (rule clean_send [OF body(2)])
        let ?s2 = "s1\<lparr>out := out s1 @ delivery H lim x\<rparr>"
        have "region_meets H E lim cp ep v
            (rest_of H E lim cp ep v (Inside sl base (insert (request_id req) held) tx) ?s2 w) sl ?s2
            (region_loop H E lim v base (insert (request_id req) held) tx ?s2 w)"
          using IH(2) [OF RespondKeep] body(2) q by simp
        then have "region_meets H E lim cp ep v
            (before [x] (rest_of H E lim cp ep v (Inside sl base (insert (request_id req) held) tx) s1 w)) sl s
            (region_loop H E lim v base (insert (request_id req) held) tx ?s2 w)"
          using body(3) by (intro region_meets_before) (simp add: region_meets_def)
        with RespondKeep Inr body(1) rest q show ?thesis
          by (subst region_loop.simps) (simp add: inside_step_def continue_with_def)
      next
        case (Respond x tx' w')
        obtain q s2 where q: "send H lim x s1 = (q, s2)" by fastforce
        have held: "insert (request_id req) held - {request_id req} = held - {request_id req}" by simp
        from region_checked [OF body(2,3) q IH(1) [OF Respond q [symmetric], unfolded held]]
          Respond Inr q body(1) rest
        show ?thesis by (subst region_loop.simps) (cases q; simp add: inside_step_def held)
      qed
    qed
  qed
qed

text \<open>What \<open>begin\<close> leads to: the region, and then the rest.\<close>

lemma region_entry_meets:
  fixes s s1 :: stream
  assumes "clean s1" "out s1 = out s"
    and "run_transaction_region H E lim v req sl s1 w = (x, sl', s', w')"
  shows "clean s' \<and> (\<exists>replies. out s' = out s @ deliveries H lim replies \<and>
    continue_with H E lim cp ep v s1 (begin_step H E lim v req sl w) =
      (case x of
         Continue \<Rightarrow> before replies (rest_of H E lim cp ep v (Outside sl') s' w')
       | RegionClientClosed \<Rightarrow> (ClientClosed, replies, slot_drop E sl' w')
       | RegionTransportFailed \<Rightarrow> (TransportFailed, replies, slot_drop E sl' w')))"
proof (cases "slot_resolve (session_id req) sl")
  case (Inl r)
  obtain q where "send H lim (refusal_response v (Some (request_id req)) r) s1 =
      (q, s1\<lparr>out := out s1 @ delivery H lim (refusal_response v (Some (request_id req)) r)\<rparr>)"
    by (rule clean_send [OF assms(1)])
  with Inl assms show ?thesis
    by (auto simp: run_transaction_region_def begin_step_def continue_with_def
        intro!: exI [of _ "[refusal_response v (Some (request_id req)) r]"])
next
  case (Inr sess)
  obtain o1 w1 where o: "tx_begin E (sess_database sess) w = (o1, w1)" by fastforce
  show ?thesis
  proof (cases o1)
    case (Inl e)
    obtain msg db where e: "e = (msg, db)" by fastforce
    obtain q where "send H lim (error_response v req msg) s1 =
        (q, s1\<lparr>out := out s1 @ delivery H lim (error_response v req msg)\<rparr>)"
      by (rule clean_send [OF assms(1)])
    with Inl Inr o e assms show ?thesis
      by (auto simp: run_transaction_region_def begin_step_def continue_with_def
          intro!: exI [of _ "[error_response v req msg]"])
  next
    case (Inr tx)
    let ?x = "ok_response v req (json_object [(''base_generation'', num_u64 (tx_base E tx))])"
    obtain q s2 where q: "send H lim ?x s1 = (q, s2)" by fastforce
    let ?y = "case q of Inl _ \<Rightarrow> region_abort E RegionTransportFailed tx s2 w1
      | Inr _ \<Rightarrow> region_loop H E lim v (tx_base E tx) {} tx s2 w1"
    obtain x' db s3 w3 where y: "?y = (x', db, s3, w3)" by (cases ?y) auto
    have m: "region_meets H E lim cp ep v (continue_with H E lim cp ep v s1
        (checked H E lim (Inside sl (tx_base E tx) {} tx) ?x w1)) sl s ?y"
      using assms(1,2) q by (rule region_checked) (rule region_loop_meets)
    have eqs: "x = x'" "sl' = slot_put db sl" "s' = s3" "w' = w3"
      using assms(3) o \<open>slot_resolve (session_id req) sl = Inr sess\<close> Inr q y
      by (auto simp: run_transaction_region_def Let_def split: sum.splits prod.splits)
    show ?thesis
      using m y o \<open>slot_resolve (session_id req) sl = Inr sess\<close> Inr
      unfolding eqs by (simp add: begin_step_def region_meets_def)
  qed
qed

lemma serve_loop_meets:
  "clean s \<Longrightarrow> outstanding = {} \<Longrightarrow>
   (case serve_loop H E lim cp ep v outstanding sl s w of (x, s', w') \<Rightarrow>
      \<exists>replies. out s' = out s @ deliveries H lim replies \<and>
        rest_of H E lim cp ep v (Outside sl) s w = (x, replies, w'))"
proof (induction H E lim cp ep v outstanding sl s w rule: serve_loop.induct)
  case (1 H E lim cp ep v outstanding sl s w)
  show ?case
  proof (cases rule: clean_read [OF "1.prems"(1), of "max_frame_bytes lim", case_names finish body])
    case (finish e s1)
    show ?thesis
    proof (cases e)
      case (TooLarge n m)
      obtain q where "send H lim (too_large_response v n m) s1 =
          (q, s1\<lparr>out := out s1 @ delivery H lim (too_large_response v n m)\<rparr>)"
        by (rule clean_send [OF finish(3)])
      with finish TooLarge show ?thesis
        by (subst serve_loop.simps) (simp add: rest_of_end ended_by_def)
    qed (use finish in \<open>subst serve_loop.simps, simp add: rest_of_end ended_by_def\<close>)+
  next
    case (body t s1)
    note IH = "1.IH" [OF body(1) [symmetric] refl]
    note rest = rest_of_step [OF body(4), of H E cp ep v "Outside sl" w]
    note empty = "1.prems"(2)
    show ?thesis
    proof (cases "decode_request H t {}")
      case (Inl r)
      obtain q where q: "send H lim (refusal_response v None r) s1 =
          (q, s1\<lparr>out := out s1 @ delivery H lim (refusal_response v None r)\<rparr>)"
        by (rule clean_send [OF body(2)])
      have "case serve_loop H E lim cp ep v outstanding sl
          (snd (send H lim (refusal_response v None r) s1)) w of (x, s', w') \<Rightarrow>
        \<exists>replies. out s' = out s1 @ delivery H lim (refusal_response v None r) @ deliveries H lim replies \<and>
          rest_of H E lim cp ep v (Outside sl) s1 w = (x, replies, w')"
        using IH(1) [unfolded empty, OF Inl _ refl] body(2) q empty by simp
      with Inl body(1,3) rest empty show ?thesis
        by (subst serve_loop.simps)
          (fastforce simp: continue_with_def intro: exI [of _ "refusal_response v None r # _"])
    next
      case (Inr req)
      note IH = IH(2,3) [unfolded empty, OF Inr]
      have held: "insert (request_id req) {} - {request_id req} = {}" by simp
      show ?thesis
      proof (cases "dispatch H E lim cp ep v req sl w")
        case (fields y sl1 w1)
        show ?thesis
        proof (cases y)
          case (Send x)
          obtain q where q: "send H lim x s1 = (q, s1\<lparr>out := out s1 @ delivery H lim x\<rparr>)"
              "q = Inr () \<longleftrightarrow> deliverable H lim x"
            by (rule clean_send [OF body(2)])
          note go = IH(1) [OF fields [symmetric] Send refl q(1) [symmetric] _ _ held]
          show ?thesis
          proof (cases "deliverable H lim x")
            case True
            with q(2) have u: "q = Inr ()" by simp
            have "clean (s1\<lparr>out := out s1 @ delivery H lim x\<rparr>)" using body(2) by simp
            note go = go [OF u this, unfolded held]
            from go q u True fields Send Inr body(1,3) rest empty show ?thesis
              by (subst serve_loop.simps)
                (fastforce simp: continue_with_checked outside_step_def intro: exI [of _ "x # _"])
          next
            case False
            with q(2) obtain e where "q = Inl e" by (cases q) auto
            with q False fields Send Inr body(1,3) rest empty show ?thesis
              by (subst serve_loop.simps) (simp add: continue_with_checked outside_step_def)
          qed
        next
          case Transaction
          obtain x sl2 s2 w2 where r: "run_transaction_region H E lim v req sl1 s1 w1 = (x, sl2, s2, w2)"
            by (cases "run_transaction_region H E lim v req sl1 s1 w1") auto
          note meets = region_entry_meets [OF body(2,3) r, of cp ep]
          note go = IH(2) [OF fields [symmetric] Transaction refl r [symmetric] _ refl refl _ held]
          show ?thesis
          proof (cases x)
            case Continue
            with meets obtain replies where m: "clean s2" "out s2 = out s @ deliveries H lim replies"
                "continue_with H E lim cp ep v s1 (begin_step H E lim v req sl1 w1) =
                   before replies (rest_of H E lim cp ep v (Outside sl2) s2 w2)"
              by auto
            note go = go [OF Continue m(1), unfolded held]
            from go r Continue m(2,3) fields Transaction Inr body(1,3) rest empty show ?thesis
              by (subst serve_loop.simps)
                (fastforce simp: outside_step_def intro: exI [of _ "replies @ _"])
          qed (use meets r fields Transaction Inr body(1,3) rest empty in
            \<open>subst serve_loop.simps; auto simp: outside_step_def\<close>)+
        next
          case (Shutdown_Reply x)
          obtain q where "send H lim x s1 = (q, s1\<lparr>out := out s1 @ delivery H lim x\<rparr>)"
            by (rule clean_send [OF body(2)])
          with fields Shutdown_Reply Inr body(1,3) rest empty show ?thesis
            by (subst serve_loop.simps) (simp add: continue_with_def outside_step_def)
        qed
      qed
    qed
  qed
qed

text \<open>The whole connection.\<close>

lemma serve_connection_meets:
  assumes "clean s"
  shows "case serve_connection H E lim cp ep s w of (x, s', w') \<Rightarrow>
    \<exists>replies. out s' = out s @ deliveries H lim replies \<and>
      conn_script H E lim cp ep (fst (script (max_frame_bytes lim) s))
        (snd (script (max_frame_bytes lim) s)) w = (x, replies, w')"
proof (cases rule: clean_read [OF assms, of "max_frame_bytes lim", case_names finish body])
  case (finish e s1)
  then show ?thesis
    by (cases e) (simp_all add: serve_connection_def conn_script_def ended_by_def)
next
  case (body t s1)
  show ?thesis
  proof (cases "handshake H t")
    case (Inl r)
    obtain q where "send H lim refused_reply s1 =
        (q, s1\<lparr>out := out s1 @ delivery H lim refused_reply\<rparr>)"
      by (rule clean_send [OF body(2)])
    with Inl body(1,3,4) show ?thesis
      by (simp add: serve_connection_def conn_script_def)
  next
    case (Inr v)
    let ?x = "welcome_reply v ep"
    obtain q where q: "send H lim ?x s1 = (q, s1\<lparr>out := out s1 @ delivery H lim ?x\<rparr>)"
        "q = Inr () \<longleftrightarrow> deliverable H lim ?x"
      by (rule clean_send [OF body(2)])
    let ?s2 = "s1\<lparr>out := out s1 @ delivery H lim ?x\<rparr>"
    show ?thesis
    proof (cases "deliverable H lim ?x")
      case True
      have "clean ?s2" using body(2) by simp
      from serve_loop_meets [OF this refl, where H = H and E = E and lim = lim and cp = cp and ep = ep and v = v and sl = slot_new and w = w] True q Inr body(1,3)
      show ?thesis
        by (fastforce simp: serve_connection_def conn_script_def rest_of_def body(4)
            intro: exI [of _ "?x # _"])
    next
      case False
      with q obtain e where "q = Inl e" by (cases q) auto
      with False q Inr body(1,3,4) show ?thesis
        by (simp add: serve_connection_def conn_script_def)
    qed
  qed
qed

end
