(* ===== verification/EngineProtocol.thy ===== *)
theory EngineProtocol
  imports Serve
begin

section \<open>The protocol of Engine calls\<close>

text \<open>
  What the Engine's types make the daemon respect, and what the daemon adds to it: a database is
  opened, lends itself to one transaction at a time, gets every transaction back by one commit
  or rollback, and is dropped. The locale \<open>engine_protocol\<close> states it as three predicates on
  the world and the laws that move between them; its lemmas carry them through every operation
  of \<open>src/session.rs\<close> and \<open>src/serve.rs\<close>, on any transport. It is interpreted on \<open>traced E\<close>,
  any Engine with a log of the calls made of it.
\<close>

locale engine_protocol =
  fixes E :: "('w, 'db, 'tx, 'q, 'r, 's) engine"
    and vacant :: "'w \<Rightarrow> bool"
    and idle :: "'db \<Rightarrow> 'w \<Rightarrow> bool"
    and busy :: "'tx \<Rightarrow> 'w \<Rightarrow> bool"
  assumes read_vacant: "vacant w \<Longrightarrow> vacant (snd (read_file E p w))"
    and read_idle: "idle db w \<Longrightarrow> idle db (snd (read_file E p w))"
    and open_Inr: "vacant w \<Longrightarrow> db_open E p w = (Inr db, w') \<Longrightarrow> idle db w'"
    and open_Inl: "vacant w \<Longrightarrow> db_open E p w = (Inl msg, w') \<Longrightarrow> vacant w'"
    and drop_idle: "idle db w \<Longrightarrow> vacant (db_drop E db w)"
    and begin_Inr: "idle db w \<Longrightarrow> tx_begin E db w = (Inr tx, w') \<Longrightarrow> busy tx w'"
    and begin_Inl: "idle db w \<Longrightarrow> tx_begin E db w = (Inl (msg, db'), w') \<Longrightarrow> idle db' w'"
    and run_busy: "busy tx w \<Longrightarrow> tx_run E q t tx w = (res, tx', w') \<Longrightarrow> busy tx' w'"
    and commit_idle: "busy tx w \<Longrightarrow> tx_commit E tx w = (g, db, w') \<Longrightarrow> idle db w'"
    and rollback_idle: "busy tx w \<Longrightarrow> tx_rollback E tx w = (db, w') \<Longrightarrow> idle db w'"
begin

definition slot_inv :: "'db slot \<Rightarrow> 'w \<Rightarrow> bool" where
  "slot_inv sl w = (case slot_session sl of None \<Rightarrow> vacant w | Some s \<Rightarrow> idle (sess_database s) w)"

lemma slot_inv_new: "vacant w \<Longrightarrow> slot_inv slot_new w"
  by (simp add: slot_inv_def slot_new_def)

lemma slot_inv_read: "slot_inv sl w \<Longrightarrow> slot_inv sl (snd (read_file E p w))"
  by (auto simp: slot_inv_def read_vacant read_idle split: option.splits)

lemma slot_open_inv:
  assumes "slot_inv sl w" "slot_open E name c sl w = (r, sl', w')"
  shows "slot_inv sl' w'"
proof (cases "slot_session sl")
  case None
  with assms(1) have v: "vacant w" by (simp add: slot_inv_def)
  show ?thesis
    using assms open_Inr [OF v] open_Inl [OF v] None
    by (fastforce simp: slot_inv_def slot_open_def Let_def split: option.splits prod.splits sum.splits)
qed (use assms in \<open>simp add: slot_open_def\<close>)

lemma slot_close_inv:
  "slot_inv sl w \<Longrightarrow> slot_close E sl w = (b, sl', w') \<Longrightarrow> slot_inv sl' w' \<and> vacant w'"
  by (auto simp: slot_inv_def slot_close_def intro: drop_idle split: option.splits)

lemma slot_drop_vacant: "slot_inv sl w \<Longrightarrow> vacant (slot_drop E sl w)"
  using slot_close_inv by (simp add: slot_drop_def) (metis prod.collapse)

lemma slot_resolve_inv:
  "slot_inv sl w \<Longrightarrow> slot_resolve named sl = Inr s \<Longrightarrow> idle (sess_database s) w"
  by (auto simp: slot_inv_def slot_resolve_def split: option.splits if_splits)

lemma slot_put_inv:
  "slot_resolve named sl = Inr s \<Longrightarrow> idle db w \<Longrightarrow> slot_inv (slot_put db sl) w"
  by (auto simp: slot_inv_def slot_resolve_def slot_put_def split: option.splits)

lemma run_one_inv:
  assumes "idle db w" "run_one E lim v req stmt db w = (x, db', w')"
  shows "idle db' w'"
  using assms
  by (auto simp: run_one_def Let_def split: sum.splits prod.splits if_splits
      dest: begin_Inr begin_Inl run_busy intro: commit_idle rollback_idle)

lemma dispatch_open_inv:
  assumes "slot_inv sl w" "dispatch_open H E cp v req sl w = (y, sl', w')"
  shows "slot_inv sl' w'"
proof (cases "request.database req")
  case (Some name)
  obtain contents w1 where r: "read_file E cp w = (contents, w1)" by fastforce
  with slot_inv_read [OF assms(1), of cp] have "slot_inv sl w1" by simp
  with assms(2) r Some slot_open_inv [of sl w1] show ?thesis
    by (auto simp: dispatch_open_def Let_def split: sum.splits prod.splits open_error.splits)
qed (use assms in \<open>simp add: dispatch_open_def\<close>)

lemma dispatch_query_inv:
  assumes "slot_inv sl w" "dispatch_query E lim v req sl w = (y, sl', w')"
  shows "slot_inv sl' w'"
  using assms
  by (auto simp: dispatch_query_def Let_def split: sum.splits option.splits prod.splits
      dest: slot_resolve_inv intro: slot_put_inv run_one_inv)

lemma dispatch_inv:
  assumes "slot_inv sl w" "dispatch H E lim cp ep v req sl w = (y, sl', w')"
  shows "slot_inv sl' w'"
  using assms
  by (cases "req_operation req")
    (auto simp: dispatch.simps Let_def split: sum.splits prod.splits
      dest: dispatch_open_inv dispatch_query_inv slot_close_inv)

lemma region_request_inv:
  assumes "busy tx w"
  shows "case region_request E lim v base req tx w of
    Finish x db w' \<Rightarrow> idle db w' | Respond x tx' w' \<Rightarrow> busy tx' w' | RespondKeep x \<Rightarrow> True"
  using assms
  by (cases "req_operation req")
    (auto simp: region_request_def region_query_def split: sum.splits prod.splits option.splits
      intro: commit_idle rollback_idle run_busy)

lemma region_abort_inv:
  "busy tx w \<Longrightarrow> region_abort E x tx s w = (x', db, s', w') \<Longrightarrow> idle db w'"
  by (auto simp: region_abort_def split: prod.splits intro: rollback_idle)

lemma region_loop_inv:
  "busy tx w \<Longrightarrow> region_loop H E lim v base held tx s w = (x, db, s', w') \<Longrightarrow> idle db w'"
proof (induction H E\<equiv>E lim v base held tx s w rule: region_loop.induct)
  case (1 H lim v base held tx s w)
  obtain q s1 where q: "read_frame (max_frame_bytes lim) s = (q, s1)" by fastforce
  note abort = region_abort_inv [OF "1.prems"(1)]
  show ?case
  proof (cases q)
    case (Inl e)
    with q "1.prems"(2) abort show ?thesis by (subst (asm) region_loop.simps) (cases e; simp)
  next
    case (Inr body)
    note IH = "1.hyps" [OF q [symmetric] Inr]
    show ?thesis
    proof (cases "decode_request H body held")
      case (Inl r)
      obtain q2 s2 where q2: "send H lim (refusal_response v None r) s1 = (q2, s2)" by fastforce
      show ?thesis
      proof (cases q2)
        case Inr': (Inr u)
        from IH(1) [OF Inl q2 [symmetric] Inr' "1.prems"(1)] "1.prems"(2) q Inr Inl q2 Inr'
        show ?thesis by (subst (asm) region_loop.simps) simp
      qed (use "1.prems"(2) q Inr Inl q2 abort in \<open>subst (asm) region_loop.simps, simp\<close>)
    next
      case Inr': (Inr req)
      note IH = IH(2,3) [OF Inr']
      note step = region_request_inv [OF "1.prems"(1), of lim v base req]
      show ?thesis
      proof (cases "region_request E lim v base req tx w")
        case (Finish x db w')
        with step "1.prems"(2) q Inr Inr' show ?thesis
          by (subst (asm) region_loop.simps) simp
      next
        case (RespondKeep x)
        from IH(2) [OF this "1.prems"(1)] "1.prems"(2) q Inr Inr' this show ?thesis
          by (subst (asm) region_loop.simps) simp
      next
        case (Respond x tx' w')
        with step have busy: "busy tx' w'" by simp
        obtain q2 s2 where q2: "send H lim x s1 = (q2, s2)" by fastforce
        show ?thesis
        proof (cases q2)
          case ok: (Inr u)
          from IH(1) [OF Respond q2 [symmetric] ok busy] "1.prems"(2) q Inr Inr' Respond q2 ok
          show ?thesis by (subst (asm) region_loop.simps) simp
        qed (use "1.prems"(2) q Inr Inr' Respond q2 region_abort_inv [OF busy] in
          \<open>subst (asm) region_loop.simps, simp\<close>)
      qed
    qed
  qed
qed

lemma run_transaction_region_inv:
  assumes "slot_inv sl w" "run_transaction_region H E lim v req sl s w = (x, sl', s', w')"
  shows "slot_inv sl' w'"
proof (cases "slot_resolve (session_id req) sl")
  case (Inr sess)
  note idle = slot_resolve_inv [OF assms(1) Inr] and put = slot_put_inv [OF Inr]
  show ?thesis
    using assms(2) Inr idle
    by (auto simp: run_transaction_region_def Let_def split: sum.splits prod.splits
        intro!: put dest: begin_Inl begin_Inr region_abort_inv region_loop_inv)
qed (use assms in \<open>simp add: run_transaction_region_def\<close>)

lemma serve_loop_vacant:
  "slot_inv sl w \<Longrightarrow> serve_loop H E lim cp ep v held sl s w = (x, s', w') \<Longrightarrow> vacant w'"
proof (induction H E\<equiv>E lim cp ep v held sl s w rule: serve_loop.induct)
  case (1 H lim cp ep v held sl s w)
  obtain q s1 where q: "read_frame (max_frame_bytes lim) s = (q, s1)" by fastforce
  note hang = slot_drop_vacant [OF "1.prems"(1)]
  show ?case
  proof (cases q)
    case (Inl e)
    with q "1.prems"(2) hang show ?thesis by (subst (asm) serve_loop.simps) (cases e; auto)
  next
    case (Inr body)
    note IH = "1.hyps" [OF q [symmetric] Inr]
    show ?thesis
    proof (cases "decode_request H body held")
      case (Inl r)
      from IH(1) [OF Inl "1.prems"(1)] "1.prems"(2) q Inr Inl
      show ?thesis by (subst (asm) serve_loop.simps) simp
    next
      case Inr': (Inr req)
      note IH = IH(2,3) [OF Inr']
      obtain y sl1 w1 where d: "dispatch H E lim cp ep v req sl w = (y, sl1, w1)"
        by (cases "dispatch H E lim cp ep v req sl w") auto
      note inv = dispatch_inv [OF "1.prems"(1) d]
      show ?thesis
      proof (cases y)
        case (Send x)
        obtain q2 s2 where q2: "send H lim x s1 = (q2, s2)" by fastforce
        show ?thesis
        proof (cases q2)
          case ok: (Inr u)
          from IH(1) [OF d [symmetric] Send refl q2 [symmetric] ok inv] "1.prems"(2) q Inr Inr' d Send q2 ok
          show ?thesis by (subst (asm) serve_loop.simps) simp
        qed (use "1.prems"(2) q Inr Inr' d Send q2 slot_drop_vacant [OF inv] in
          \<open>subst (asm) serve_loop.simps, auto\<close>)
      next
        case Transaction
        obtain x' sl2 s2 w2 where r: "run_transaction_region H E lim v req sl1 s1 w1 = (x', sl2, s2, w2)"
          by (cases "run_transaction_region H E lim v req sl1 s1 w1") auto
        note inv2 = run_transaction_region_inv [OF inv r]
        show ?thesis
        proof (cases x')
          case Continue
          from IH(2) [OF d [symmetric] Transaction refl r [symmetric] Continue refl refl inv2]
            "1.prems"(2) q Inr Inr' d Transaction r Continue
          show ?thesis by (subst (asm) serve_loop.simps) simp
        qed (use "1.prems"(2) q Inr Inr' d Transaction r slot_drop_vacant [OF inv2] in
          \<open>subst (asm) serve_loop.simps, auto\<close>)+
      next
        case (Shutdown_Reply x)
        with "1.prems"(2) q Inr Inr' d slot_drop_vacant [OF inv] show ?thesis
          by (subst (asm) serve_loop.simps) auto
      qed
    qed
  qed
qed

lemma serve_connection_vacant:
  "vacant w \<Longrightarrow> serve_connection H E lim cp ep s w = (x, s', w') \<Longrightarrow> vacant w'"
  by (auto simp: serve_connection_def split: sum.splits prod.splits frame_error.splits
      dest: serve_loop_vacant [OF slot_inv_new])

end

subsection \<open>Any Engine, with a log of its calls\<close>

datatype engine_call =
    OpenedDb | OpenFailed | DroppedDb | BeganTx | BeginFailed | RanStatement
  | Committed | CommitFailed | RolledBack

definition traced ::
  "('w, 'db, 'tx, 'q, 'r, 's) engine \<Rightarrow> ('w \<times> engine_call list, 'db, 'tx, 'q, 'r, 's) engine" where
  "traced E = \<lparr>
     read_file = (\<lambda>p (w, log). let (r, w') = read_file E p w in (r, w', log)),
     db_open = (\<lambda>p (w, log). case db_open E p w of
         (Inl msg, w') \<Rightarrow> (Inl msg, w', log @ [OpenFailed])
       | (Inr db, w') \<Rightarrow> (Inr db, w', log @ [OpenedDb])),
     db_drop = (\<lambda>db (w, log). (db_drop E db w, log @ [DroppedDb])),
     cypher_parse = cypher_parse E,
     tx_begin = (\<lambda>db (w, log). case tx_begin E db w of
         (Inl e, w') \<Rightarrow> (Inl e, w', log @ [BeginFailed])
       | (Inr tx, w') \<Rightarrow> (Inr tx, w', log @ [BeganTx])),
     tx_base = tx_base E,
     tx_run = (\<lambda>q t tx (w, log). let (r, tx', w') = tx_run E q t tx w
       in (r, tx', w', log @ [RanStatement])),
     tx_writes = tx_writes E,
     tx_commit = (\<lambda>tx (w, log). case tx_commit E tx w of
         (Inl msg, db, w') \<Rightarrow> (Inl msg, db, w', log @ [CommitFailed])
       | (Inr g, db, w') \<Rightarrow> (Inr g, db, w', log @ [Committed])),
     tx_rollback = (\<lambda>tx (w, log). let (db, w') = tx_rollback E tx w
       in (db, w', log @ [RolledBack])),
     writes_empty = writes_empty E,
     row_count = row_count E,
     envelope_json = envelope_json E\<rparr>"

text \<open>Where a log leaves the database; a call out of order leaves it nowhere.\<close>

datatype phase = NoDatabase | IdleDb | InTx

fun next_phase :: "phase \<Rightarrow> engine_call \<Rightarrow> phase option" where
  "next_phase NoDatabase OpenedDb = Some IdleDb"
| "next_phase NoDatabase OpenFailed = Some NoDatabase"
| "next_phase IdleDb DroppedDb = Some NoDatabase"
| "next_phase IdleDb BeganTx = Some InTx"
| "next_phase IdleDb BeginFailed = Some IdleDb"
| "next_phase InTx RanStatement = Some InTx"
| "next_phase InTx Committed = Some IdleDb"
| "next_phase InTx CommitFailed = Some IdleDb"
| "next_phase InTx RolledBack = Some IdleDb"
| "next_phase _ _ = None"

definition log_phase :: "phase \<Rightarrow> engine_call list \<Rightarrow> phase option" where
  "log_phase p log = foldl (\<lambda>q c. Option.bind q (\<lambda>p. next_phase p c)) (Some p) log"

lemma log_phase_snoc: "log_phase p (log @ [c]) = Option.bind (log_phase p log) (\<lambda>p. next_phase p c)"
  by (simp add: log_phase_def)

lemma log_phase_Nil [simp]: "log_phase p [] = Some p"
  by (simp add: log_phase_def)

interpretation tr: engine_protocol "traced E"
  "\<lambda>(w, log). log_phase NoDatabase log = Some NoDatabase"
  "\<lambda>db (w, log). log_phase NoDatabase log = Some IdleDb"
  "\<lambda>tx (w, log). log_phase NoDatabase log = Some InTx"
  for E :: "('w, 'db, 'tx, 'q, 'r, 's) engine"
  by unfold_locales
    (auto simp: traced_def log_phase_snoc split: prod.splits sum.splits)

end
