(* ===== verification/EngineMap.thy ===== *)
theory EngineMap
  imports EngineProtocol
begin

section \<open>Engines over related worlds\<close>

text \<open>
  Two Engines are related by a map \<open>h\<close> of their worlds when every call on the mapped world is
  the mapped call. The daemon then does the same with both: the locale \<open>engine_map\<close> carries
  the relation through every operation. Its interpretation forgets the log of \<open>traced E\<close>, so a
  fact about a traced run is a fact about the run.
\<close>

locale engine_map =
  fixes E :: "('w, 'db, 'tx, 'q, 'r, 's) engine"
    and F :: "('v, 'db, 'tx, 'q, 'r, 's) engine"
    and h :: "'w \<Rightarrow> 'v"
  assumes map_read: "read_file F p (h w) = apsnd h (read_file E p w)"
    and map_open: "db_open F p (h w) = apsnd h (db_open E p w)"
    and map_drop: "db_drop F db (h w) = h (db_drop E db w)"
    and map_begin: "tx_begin F db (h w) = apsnd h (tx_begin E db w)"
    and map_run: "tx_run F q t tx (h w) = apsnd (apsnd h) (tx_run E q t tx w)"
    and map_commit: "tx_commit F tx (h w) = apsnd (apsnd h) (tx_commit E tx w)"
    and map_rollback: "tx_rollback F tx (h w) = apsnd h (tx_rollback E tx w)"
    and map_pure: "cypher_parse F = cypher_parse E" "tx_base F = tx_base E"
      "tx_writes F = tx_writes E" "writes_empty F = writes_empty E"
      "row_count F = row_count E" "envelope_json F = envelope_json E"
begin

lemmas map_simps = map_read map_open map_drop map_begin map_run map_commit map_rollback map_pure

lemma envelope_response_map:
  "envelope_response F v req res g wr lim = envelope_response E v req res g wr lim"
  by (simp add: envelope_response_def map_pure)

lemma slot_open_map: "slot_open F name c sl (h w) = apsnd (apsnd h) (slot_open E name c sl w)"
  by (simp add: slot_open_def map_simps Let_def apsnd_def map_prod_def
      split: option.split prod.split sum.split)

lemma slot_close_map: "slot_close F sl (h w) = apsnd (apsnd h) (slot_close E sl w)"
  by (simp add: slot_close_def map_simps split: option.split)

lemma slot_drop_map: "slot_drop F sl (h w) = h (slot_drop E sl w)"
  by (simp add: slot_drop_def slot_close_map)

lemma run_one_map: "run_one F lim v req stmt db (h w) = apsnd (apsnd h) (run_one E lim v req stmt db w)"
  by (simp add: run_one_def map_simps envelope_response_map Let_def apsnd_def map_prod_def
      split: prod.split sum.split)

lemma dispatch_map:
  "dispatch F' F lim cp ep v req sl (h w) = apsnd (apsnd h) (dispatch F' E lim cp ep v req sl w)"
  by (simp add: dispatch.simps dispatch_open_def dispatch_query_def slot_open_map slot_close_map
      run_one_map map_read Let_def apsnd_def map_prod_def
      split: operation.split prod.split sum.split option.split open_error.split)

lemma region_request_map:
  "region_request F lim v base req tx (h w) =
     map_region_act (\<lambda>x. x) (\<lambda>x. x) h (region_request E lim v base req tx w)"
  by (simp add: region_request_def region_query_def map_simps envelope_response_map Let_def
      apsnd_def map_prod_def split: operation.split prod.split sum.split option.split)

lemma region_abort_map:
  "region_abort F x tx s (h w) = apsnd (apsnd (apsnd h)) (region_abort E x tx s w)"
  by (simp add: region_abort_def map_rollback Let_def split: prod.split)

lemma region_loop_map:
  "region_loop H F lim v base held tx s (h w) =
     apsnd (apsnd (apsnd h)) (region_loop H E lim v base held tx s w)"
proof (induction H E\<equiv>E lim v base held tx s w rule: region_loop.induct)
  case (1 H lim v base held tx s w)
  obtain q s1 where q: "read_frame (max_frame_bytes lim) s = (q, s1)" by fastforce
  note unfold = region_loop.simps [of H F lim v base held tx s "h w"]
    region_loop.simps [of H E lim v base held tx s w]
  show ?case
  proof (cases q)
    case (Inl e)
    with q show ?thesis by (cases e) (simp_all add: unfold region_abort_map)
  next
    case (Inr body)
    note IH = "1.hyps" [OF q [symmetric] Inr]
    show ?thesis
    proof (cases "decode_request H body held")
      case (Inl r)
      obtain q2 s2 where q2: "send H lim (refusal_response v None r) s1 = (q2, s2)" by fastforce
      show ?thesis
      proof (cases q2)
        case Inr': (Inr u)
        from IH(1) [OF Inl q2 [symmetric] Inr'] q Inr Inl q2 Inr' show ?thesis by (simp add: unfold)
      qed (use q Inr Inl q2 in \<open>simp add: unfold region_abort_map\<close>)
    next
      case Inr': (Inr req)
      note IH = IH(2,3) [OF Inr']
      show ?thesis
      proof (cases "region_request E lim v base req tx w")
        case (RespondKeep x)
        from IH(2) [OF this] q Inr Inr' this show ?thesis by (simp add: unfold region_request_map)
      next
        case (Respond x tx' w')
        obtain q2 s2 where q2: "send H lim x s1 = (q2, s2)" by fastforce
        show ?thesis
        proof (cases q2)
          case ok: (Inr u)
          from IH(1) [OF Respond q2 [symmetric] ok] q Inr Inr' Respond q2 ok
          show ?thesis by (simp add: unfold region_request_map)
        qed (use q Inr Inr' Respond q2 in \<open>simp add: unfold region_request_map region_abort_map\<close>)
      qed (use q Inr Inr' in \<open>simp add: unfold region_request_map\<close>)
    qed
  qed
qed

lemma run_transaction_region_map:
  "run_transaction_region H F lim v req sl s (h w) =
     apsnd (apsnd (apsnd h)) (run_transaction_region H E lim v req sl s w)"
  by (simp add: run_transaction_region_def map_simps region_loop_map region_abort_map Let_def
      apsnd_def map_prod_def split: sum.split prod.split)

lemma serve_loop_map:
  "serve_loop H F lim cp ep v held sl s (h w) =
     apsnd (apsnd h) (serve_loop H E lim cp ep v held sl s w)"
proof (induction H E\<equiv>E lim cp ep v held sl s w rule: serve_loop.induct)
  case (1 H lim cp ep v held sl s w)
  obtain q s1 where q: "read_frame (max_frame_bytes lim) s = (q, s1)" by fastforce
  note unfold = serve_loop.simps [of H F lim cp ep v held sl s "h w"]
    serve_loop.simps [of H E lim cp ep v held sl s w] slot_drop_map dispatch_map
    run_transaction_region_map
  show ?case
  proof (cases q)
    case (Inl e)
    with q show ?thesis by (cases e) (simp_all add: unfold)
  next
    case (Inr body)
    note IH = "1.hyps" [OF q [symmetric] Inr]
    show ?thesis
    proof (cases "decode_request H body held")
      case (Inl r)
      from IH(1) [OF Inl] q Inr Inl show ?thesis by (simp add: unfold)
    next
      case Inr': (Inr req)
      note IH = IH(2,3) [OF Inr']
      obtain y sl1 w1 where d: "dispatch H E lim cp ep v req sl w = (y, sl1, w1)"
        by (cases "dispatch H E lim cp ep v req sl w") auto
      show ?thesis
      proof (cases y)
        case (Send x)
        obtain q2 s2 where q2: "send H lim x s1 = (q2, s2)" by fastforce
        show ?thesis
        proof (cases q2)
          case ok: (Inr u)
          from IH(1) [OF d [symmetric] Send refl q2 [symmetric] ok] q Inr Inr' d Send q2 ok
          show ?thesis by (simp add: unfold)
        qed (use q Inr Inr' d Send q2 in \<open>simp add: unfold\<close>)
      next
        case Transaction
        obtain x' sl2 s2 w2 where r: "run_transaction_region H E lim v req sl1 s1 w1 = (x', sl2, s2, w2)"
          by (cases "run_transaction_region H E lim v req sl1 s1 w1") auto
        show ?thesis
        proof (cases x')
          case Continue
          from IH(2) [OF d [symmetric] Transaction refl r [symmetric] Continue refl refl]
            q Inr Inr' d Transaction r Continue
          show ?thesis by (simp add: unfold)
        qed (use q Inr Inr' d Transaction r in \<open>simp add: unfold\<close>)+
      qed (use q Inr Inr' d in \<open>simp add: unfold\<close>)
    qed
  qed
qed

lemma serve_connection_map:
  "serve_connection H F lim cp ep s (h w) = apsnd (apsnd h) (serve_connection H E lim cp ep s w)"
  by (simp add: serve_connection_def serve_loop_map split: sum.split prod.split frame_error.split)

end

interpretation untrace: engine_map "traced E" E fst for E :: "('w, 'db, 'tx, 'q, 'r, 's) engine"
  by unfold_locales (auto simp: traced_def Let_def split: prod.splits sum.splits)

end
