(* ===== verification/RegionTrace.thy ===== *)
theory RegionTrace
  imports EngineMap
begin

section \<open>The calls of a region\<close>

text \<open>
  What a transaction region, and a statement in its own transaction, call of the Engine: the
  statements run, and one call that ends the transaction.
\<close>

lemma traced_simps [simp]:
  "cypher_parse (traced E) = cypher_parse E" "tx_base (traced E) = tx_base E"
  "tx_writes (traced E) = tx_writes E" "writes_empty (traced E) = writes_empty E"
  "row_count (traced E) = row_count E" "envelope_json (traced E) = envelope_json E"
  by (simp_all add: traced_def)

lemma traced_calls:
  "tx_begin (traced E) db (w, log) = (case tx_begin E db w of
     (Inl e, w') \<Rightarrow> (Inl e, w', log @ [BeginFailed]) | (Inr tx, w') \<Rightarrow> (Inr tx, w', log @ [BeganTx]))"
  "tx_run (traced E) q t tx (w, log) =
     (let (r, tx', w') = tx_run E q t tx w in (r, tx', w', log @ [RanStatement]))"
  "tx_commit (traced E) tx (w, log) = (case tx_commit E tx w of
     (Inl msg, db, w') \<Rightarrow> (Inl msg, db, w', log @ [CommitFailed])
   | (Inr g, db, w') \<Rightarrow> (Inr g, db, w', log @ [Committed]))"
  "tx_rollback (traced E) tx (w, log) =
     (let (db, w') = tx_rollback E tx w in (db, w', log @ [RolledBack]))"
  by (simp_all add: traced_def)

text \<open>\<open>region_calls x calls\<close>: the calls of a region that left with \<open>x\<close>.\<close>

definition region_calls :: "region_end \<Rightarrow> engine_call list \<Rightarrow> bool" where
  "region_calls x calls = (\<exists>k c. calls = replicate k RanStatement @ [c] \<and>
     (case x of Continue \<Rightarrow> c = Committed \<or> c = CommitFailed \<or> c = RolledBack
      | _ \<Rightarrow> c = RolledBack))"

lemma region_calls_run: "region_calls x calls \<Longrightarrow> region_calls x (RanStatement # calls)"
  unfolding region_calls_def by (metis append_Cons replicate_Suc)

lemma region_calls_end:
  "region_calls x [RolledBack]" "region_calls Continue [Committed]" "region_calls Continue [CommitFailed]"
  unfolding region_calls_def by (rule exI [of _ 0], cases x, simp_all)+

text \<open>The log of a run grows by a region's calls.\<close>

definition logs :: "region_end \<Rightarrow> engine_call list \<Rightarrow> engine_call list \<Rightarrow> bool" where
  "logs x log log' = (\<exists>calls. log' = log @ calls \<and> region_calls x calls)"

lemma logs_run: "logs x (log @ [RanStatement]) log' \<Longrightarrow> logs x log log'"
  unfolding logs_def by (auto intro: region_calls_run)

lemma region_abort_traced:
  "region_abort (traced E) x tx s (w, log) = (x', db, s', (w', log')) \<Longrightarrow> x' = x \<and> logs x log log'"
  by (auto simp: region_abort_def traced_def logs_def region_calls_end split: prod.splits)

lemma region_request_traced:
  "case region_request (traced E) lim v base req tx (w, log) of
     Finish x db wl \<Rightarrow> logs Continue log (snd wl)
   | Respond x tx' wl \<Rightarrow> snd wl = log \<or> snd wl = log @ [RanStatement]
   | RespondKeep x \<Rightarrow> True"
  by (cases "req_operation req")
    (auto simp: region_request_def region_query_def traced_def logs_def region_calls_end
      split: prod.splits sum.splits option.splits)

lemma region_loop_traced:
  "region_loop H (traced E) lim v base held tx s wl = (x, db, s', wl') \<Longrightarrow> logs x (snd wl) (snd wl')"
proof (induction H "traced E" lim v base held tx s wl rule: region_loop.induct)
  case (1 H lim v base held tx s wl)
  obtain q s1 where q: "read_frame (max_frame_bytes lim) s = (q, s1)" by fastforce
  obtain w log where wl: "wl = (w, log)" by fastforce
  have abort: "region_abort (traced E) y t u z = (x, db, s', wl') \<Longrightarrow> logs x (snd z) (snd wl')" for y t u z
    using region_abort_traced [of E y t u "fst z" "snd z" x db s' "fst wl'" "snd wl'"] by auto
  show ?case
  proof (cases q)
    case (Inl e)
    with q "1.prems" abort show ?thesis by (subst (asm) region_loop.simps) (cases e; fastforce)
  next
    case (Inr body)
    note IH = "1.hyps" [OF q [symmetric] Inr]
    show ?thesis
    proof (cases "decode_request H body held")
      case (Inl r)
      obtain q2 s2 where q2: "send H lim (refusal_response v None r) s1 = (q2, s2)" by fastforce
      show ?thesis
      proof (cases q2)
        case Inr': (Inr u)
        from IH(1) [OF Inl q2 [symmetric] Inr'] "1.prems" q Inr Inl q2 Inr'
        show ?thesis by (subst (asm) region_loop.simps) simp
      qed (use "1.prems" q Inr Inl q2 abort in \<open>subst (asm) region_loop.simps, fastforce\<close>)
    next
      case Inr': (Inr req)
      note IH = IH(2,3) [OF Inr']
      note step = region_request_traced [where E = E and lim = lim and v = v and base = base and req = req
          and tx = tx and w = w and log = log]
      show ?thesis
      proof (cases "region_request (traced E) lim v base req tx wl")
        case (Finish y db' wl1)
        with step "1.prems" q Inr Inr' wl show ?thesis
          by (subst (asm) region_loop.simps) simp
      next
        case (RespondKeep y)
        from IH(2) [OF this] "1.prems" q Inr Inr' this show ?thesis
          by (subst (asm) region_loop.simps) simp
      next
        case (Respond y tx' wl1)
        with step wl have log1: "snd wl1 = log \<or> snd wl1 = log @ [RanStatement]" by simp
        obtain q2 s2 where q2: "send H lim y s1 = (q2, s2)" by fastforce
        have "logs x (snd wl1) (snd wl')"
        proof (cases q2)
          case ok: (Inr u)
          from IH(1) [OF Respond q2 [symmetric] ok] "1.prems" q Inr Inr' Respond q2 ok
          show ?thesis by (subst (asm) region_loop.simps) simp
        qed (use "1.prems" q Inr Inr' Respond q2 abort in \<open>subst (asm) region_loop.simps, fastforce\<close>)
        with log1 wl show ?thesis by (auto intro: logs_run)
      qed
    qed
  qed
qed

subsection \<open>What a log says of transactions\<close>

text \<open>In a log that follows the protocol, begins and ends match, opens and drops match.\<close>

fun open_count :: "phase \<Rightarrow> nat" where
  "open_count NoDatabase = 0"
| "open_count _ = 1"

fun tx_count :: "phase \<Rightarrow> nat" where
  "tx_count InTx = 1"
| "tx_count _ = 0"

lemma log_phase_counts:
  "log_phase NoDatabase log = Some p \<Longrightarrow>
   count_list log BeganTx =
     count_list log Committed + count_list log CommitFailed + count_list log RolledBack + tx_count p \<and>
   count_list log OpenedDb = count_list log DroppedDb + open_count p"
proof (induction log arbitrary: p rule: rev_induct)
  case Nil
  then show ?case by (auto simp: log_phase_def)
next
  case (snoc c log)
  then obtain q where q: "log_phase NoDatabase log = Some q" "next_phase q c = Some p"
    by (auto simp: log_phase_snoc split: Option.bind_splits)
  with snoc.IH [OF q(1)] show ?case by (cases q; cases c) auto
qed

end
