(* ===== verification/ServeProps.thy ===== *)
theory ServeProps
  imports ConnRefine RegionTrace MessageProps
begin

section \<open>Properties of the request loop\<close>

text \<open>
  The refinement of \<open>src/serve.rs\<close>, and the header each shape of reply has; with the small Engine and text
  library of the witnesses.
\<close>

subsection \<open>A concrete text library and Engine\<close>

definition demo_request :: "string \<Rightarrow> string \<Rightarrow> json" where
  "demo_request i operation = Object
     [(''operation'', String operation), (''request_id'', String i),
      (''server_protocol_version'', num_u64 1)]"

definition demo_json :: "string \<Rightarrow> string + json" where
  "demo_json text =
     (if text = ''H'' then Inr (Object [(''message'', String ''hello''),
        (''supported_versions'', Array [num_u64 1])])
      else if text = ''S'' then Inr (demo_request ''a'' ''status'')
      else if text = ''Q'' then Inr (demo_request ''b'' ''query'')
      else Inl ''expected value'')"

definition demo_text :: textlib where
  "demo_text = \<lparr>from_str = demo_json, to_string = (\<lambda>v. Inr ''{}''),
     to_string_pretty = (\<lambda>v. Inr ''{}''), char_debug = id\<rparr>"

text \<open>The world is the generation; a statement writes when it is \<open>w\<close>, and yields its length in rows.\<close>

definition demo_engine :: "(u64, unit, bool, string, nat, bool) engine" where
  "demo_engine = \<lparr>
     read_file = (\<lambda>p w. (Inr [], w)), db_open = (\<lambda>p w. (Inr (), w)), db_drop = (\<lambda>db w. w),
     cypher_parse = (\<lambda>t. if t = [] then Inl (QueryError ''E'' ''empty'') else Inr t),
     tx_begin = (\<lambda>db w. (Inr False, w)), tx_base = (\<lambda>tx. 7),
     tx_run = (\<lambda>q t tx w. (Inr (length q), tx \<or> q = ''w'', w)),
     tx_writes = (\<lambda>tx. tx), tx_commit = (\<lambda>tx w. (Inr (w + 1), (), w + 1)),
     tx_rollback = (\<lambda>tx w. ((), w)), writes_empty = (\<lambda>s. \<not> s), row_count = id,
     envelope_json = (\<lambda>r g s. Null)\<rparr>"

definition demo_limits :: limits where
  "demo_limits = \<lparr>max_frame_bytes = 8, max_result_rows = 2, query_timeout = 1\<rparr>"

definition demo_stream :: stream where
  "demo_stream = \<lparr>inp = [Chunk [0, 0, 0, 1, 0x48, 0, 0], RdErr (IoError Interrupted ''''),
     Chunk [0, 1, 0x53, 0, 0, 0, 1, 0x21]], wev = [], out = []\<rparr>"

lemma demo_frames:
  "frames_of (max_frame_bytes demo_limits) (bytes_of (inp demo_stream)) = ([''H'', ''S'', ''!''], Closed)"
proof -
  have "\<forall>t \<in> set [''H'', ''S'', ''!'']. sendable (max_frame_bytes demo_limits) t" by code_simp
  from frames_of_messages [OF this] show ?thesis
    by (simp add: demo_stream_def frame_bytes_def to_be_bytes_def as_bytes_def)
qed

subsection \<open>The refinement\<close>

text \<open>
  C37: on a transport that neither fails nor refuses a write, and however it splits the bytes,
  a connection does what the message machine does on the bodies of its byte stream: it ends
  the same way, leaves the same world, and sends the frames of the machine's replies in order.
\<close>

theorem serve_connection_refines:
  assumes "healthy (inp s)" "wev s = []"
  shows "case conn_on_bytes H E lim cp ep (bytes_of (inp s)) w of (x, replies, w') \<Rightarrow>
    \<exists>s'. serve_connection H E lim cp ep s w = (x, s', w') \<and>
      out s' = out s @ concat (map (delivery H lim) replies)"
proof -
  have "clean s" using assms by (simp add: clean_def)
  from serve_connection_meets [OF this, where H = H and E = E and lim = lim and cp = cp
      and ep = ep and w = w]
  show ?thesis
    by (cases "serve_connection H E lim cp ep s w")
      (auto simp: script_def conn_on_bytes_def case_prod_beta)
qed

theorem serve_connection_refines_witness:
  "\<exists>s'. serve_connection demo_text demo_engine demo_limits ''/c'' ''/e'' demo_stream 0 =
      (ClientClosed, s', 0) \<and> out s' = concat (replicate 3 [0, 0, 0, 2, 0x7B, 0x7D])"
proof -
  note demo_frames
  moreover have "(case conn_script demo_text demo_engine demo_limits ''/c'' ''/e'' [''H'', ''S'', ''!''] Closed 0
      of (x, replies, w') \<Rightarrow> (x, w', concat (map (delivery demo_text demo_limits) replies))) =
      (ClientClosed, 0, concat (replicate 3 [0, 0, 0, 2, 0x7B, 0x7D]))"
    by code_simp
  moreover have "healthy (inp demo_stream)" "wev demo_stream = []" "out demo_stream = []"
    by (simp_all add: demo_stream_def)
  ultimately show ?thesis
    using serve_connection_refines [of demo_stream demo_text demo_engine demo_limits "''/c''" "''/e''" 0]
    by (auto simp: case_prod_beta conn_on_bytes_def)
qed

subsection \<open>Replies\<close>

definition reply_header :: "u64 \<Rightarrow> string option \<Rightarrow> json \<Rightarrow> bool" where
  "reply_header v i x =
     (member ''server_protocol_version'' x = Some (num_u64 v) \<and>
      member ''request_id'' x = map_option String i \<and>
      (member ''outcome'' x = Some (String ''ok'') \<or> member ''outcome'' x = Some (String ''error'')))"

named_theorems headers \<open>the header of each shape of reply\<close>

lemma header_responses [headers]:
  "reply_header v (Some (request_id req)) (ok_response v req r)"
  "reply_header v (Some (request_id req)) (error_response v req d)"
  "reply_header v (Some (request_id req)) (diagnostic_response v req e)"
  "reply_header v (Some (request_id req)) (envelope_response E v req res g wr lim)"
  by (simp_all add: reply_header_def ok_response_def error_response_def diagnostic_response_def
      envelope_response_def member_json_object)

lemma header_refusal [headers]: "reply_header v i (refusal_response v i r)"
  by (simp add: reply_header_def refusal_response_def member_json_object split: option.split)

lemma header_run_one [headers]:
  "reply_header v (Some (request_id req)) (fst (run_one E lim v req stmt db w))"
  by (simp add: run_one_def Let_def headers split: sum.split prod.split)

lemma header_dispatch:
  "case fst (dispatch H E lim cp ep v req sl w) of
     Send x \<Rightarrow> reply_header v (Some (request_id req)) x
   | Shutdown_Reply x \<Rightarrow> reply_header v (Some (request_id req)) x
   | Transaction \<Rightarrow> True"
proof (cases "req_operation req")
  case Query
  have "reply_header v (Some (request_id req)) (fst (run_one E lim v req stmt db w))" for stmt db
    by (rule headers)
  with Query show ?thesis
    by (auto simp: dispatch.simps dispatch_query_def Let_def headers case_prod_beta
        split: sum.split option.split)
qed (auto simp: dispatch.simps dispatch_open_def Let_def headers
    split: sum.split option.split prod.split open_error.split)

lemma header_region_request:
  "case region_request E lim v base req tx w of
     Finish x db w' \<Rightarrow> reply_header v (Some (request_id req)) x
   | Respond x tx' w' \<Rightarrow> reply_header v (Some (request_id req)) x
   | RespondKeep x \<Rightarrow> reply_header v (Some (request_id req)) x"
  by (cases "req_operation req")
    (auto simp: region_request_def region_query_def Let_def headers
      split: sum.split option.split prod.split)

end
