(* ===== verification/ServeSafety.thy ===== *)
theory ServeSafety
  imports ServeProps
begin

section \<open>Transactions and databases\<close>

text \<open>
  The claims about what the request loop does to the Engine: on any transport, healthy or not,
  and for any Engine.
\<close>

text \<open>
  C38: whatever the peer sends and however the transport fails, the daemon's calls of the Engine
  follow the protocol from a vacant connection to a vacant one: a database is opened before it
  is used and dropped before the connection is over, a transaction is begun only on an idle
  database, and every transaction begun is ended by exactly one commit or rollback. The run
  that is logged is the run.
\<close>

theorem engine_calls_follow_the_protocol:
  "case serve_connection H (traced E) lim cp ep s (w, []) of (x, s', (w', log)) \<Rightarrow>
     serve_connection H E lim cp ep s w = (x, s', w') \<and>
     log_phase NoDatabase log = Some NoDatabase \<and>
     count_list log OpenedDb = count_list log DroppedDb \<and>
     count_list log BeganTx =
       count_list log Committed + count_list log CommitFailed + count_list log RolledBack"
proof -
  obtain x s' w' log where run: "serve_connection H (traced E) lim cp ep s (w, []) = (x, s', (w', log))"
    by (cases "serve_connection H (traced E) lim cp ep s (w, [])") auto
  have "log_phase NoDatabase log = Some NoDatabase"
    using tr.serve_connection_vacant [OF _ run] by simp
  moreover have "serve_connection H E lim cp ep s w = (x, s', w')"
    using untrace.serve_connection_map [where H = H and lim = lim and cp = cp and ep = ep
        and s = s and w = "(w, [])" and E = E] run by simp
  ultimately show ?thesis
    using log_phase_counts [of log NoDatabase] run by simp
qed

text \<open>
  C39: a transaction region makes at most one attempt to commit, as its last call, and only when
  it leaves to go on with the connection. When the peer disconnects, the transport fails or a
  reply cannot be sent, the region's last call is a rollback and nothing was committed.
\<close>

theorem abandoned_region_rolls_back:
  "case run_transaction_region H (traced E) lim v req sl s (w, log) of (x, sl', s', (w', log')) \<Rightarrow>
     (\<exists>k last. log' = log @ BeganTx # replicate k RanStatement @ [last] \<and>
        (case x of
           Continue \<Rightarrow> last = Committed \<or> last = CommitFailed \<or> last = RolledBack
         | _ \<Rightarrow> last = RolledBack)) \<or>
     x = Continue \<and> (log' = log \<or> log' = log @ [BeginFailed])"
proof (cases "slot_resolve (session_id req) sl")
  case (Inl r)
  then show ?thesis by (simp add: run_transaction_region_def)
next
  case (Inr sess)
  obtain o1 w1 where o: "tx_begin E (sess_database sess) w = (o1, w1)" by fastforce
  show ?thesis
  proof (cases o1)
    case (Inl e)
    with Inr o show ?thesis
      by (cases e) (simp add: run_transaction_region_def traced_def)
  next
    case tx: (Inr tx)
    obtain q s1 where q: "send H lim (ok_response v req
        (json_object [(''base_generation'', num_u64 (tx_base E tx))])) s = (q, s1)" by fastforce
    let ?y = "case q of Inl _ \<Rightarrow> region_abort (traced E) RegionTransportFailed tx s1 (w1, log @ [BeganTx])
      | Inr _ \<Rightarrow> region_loop H (traced E) lim v (tx_base E tx) {} tx s1 (w1, log @ [BeganTx])"
    obtain x db s2 w2 log2 where y: "?y = (x, db, s2, (w2, log2))" by (cases ?y) auto
    have "logs x (log @ [BeganTx]) log2"
      using y by (cases q) (auto dest: region_abort_traced region_loop_traced)
    moreover have began: "tx_begin (traced E) (sess_database sess) (w, log) = (Inr tx, w1, log @ [BeganTx])"
      using o tx by (simp add: traced_def)
    moreover have "run_transaction_region H (traced E) lim v req sl s (w, log) =
        (x, slot_put db sl, s2, (w2, log2))"
      using Inr began q y by (cases q) (simp_all add: run_transaction_region_def)
    ultimately show ?thesis by (auto simp: logs_def region_calls_def)
  qed
qed








text \<open>
  The row ceiling is checked after the commit, so a statement that wrote can be answered
  with an error although its writes are permanent.
\<close>

theorem row_ceiling_after_commit:
  assumes "cypher_parse E stmt = Inr q" "tx_begin E db w = (Inr tx, w1)"
    and "tx_run E q (query_timeout lim) tx w1 = (Inr res, tx', w2)"
    and "\<not> writes_empty E (tx_writes E tx')" "tx_commit E tx' w2 = (Inr g, db', w3)"
    and "row_count E res > max_result_rows lim"
  shows "\<exists>reply. run_one E lim v req stmt db w = (reply, db', w3) \<and>
    member ''outcome'' reply = Some (String ''error'')"
  using assms by (simp add: run_one_def envelope_response_def member_json_object)

theorem row_ceiling_after_commit_witness:
  "\<exists>reply. run_one demo_engine (demo_limits\<lparr>max_result_rows := 0\<rparr>) 1
       \<lparr>req_version = 1, request_id = ''q'', session_id = None, req_operation = Query, database = None,
         statement = Some ''w''\<rparr> ''w'' () 4 = (reply, (), 5) \<and>
    member ''outcome'' reply = Some (String ''error'')"
  by (rule row_ceiling_after_commit [where q = "''w''" and tx = False and tx' = True and res = 1
        and g = 5 and ?w1.0 = 4 and ?w2.0 = 4])
    (simp_all add: demo_engine_def demo_limits_def)

subsection \<open>Outstanding identifiers\<close>

definition statementless :: "request \<Rightarrow> bool" where
  "statementless req = (req_operation req = Query \<and> statement req = None)"

lemma region_request_keeps:
  "(\<exists>x. region_request E lim v base req tx w = RespondKeep x) \<longleftrightarrow> statementless req"
  by (cases "req_operation req")
    (auto simp: region_request_def region_query_def statementless_def Let_def
      split: sum.splits prod.splits option.splits)

text \<open>
  A message inside the region changes neither the slot nor the base generation, and the
  identifiers held as outstanding afterwards are those held before, except that a query with
  no statement leaves its own behind.
\<close>

theorem region_keeps_statementless_identifiers:
  "case fst (conn_step H E lim cp ep v (Inside sl base held tx) body w) of
     Go (Inside sl' base' held' tx') \<Rightarrow> sl' = sl \<and> base' = base \<and>
       held' = (case decode_request H body held of
         Inl r \<Rightarrow> held
       | Inr req \<Rightarrow> if statementless req then insert (request_id req) held else held)
   | _ \<Rightarrow> True"
proof (cases "decode_request H body held")
  case (Inr req)
  have eq: "held - {request_id req} = held" using decode_request_fresh [OF Inr] by simp
  show ?thesis
  proof (cases "region_request E lim v base req tx w")
    case (RespondKeep x)
    with region_request_keeps [of E lim v base req tx w] have "statementless req" by blast
    with Inr RespondKeep show ?thesis by (simp add: inside_step_def)
  next
    case (Respond x tx' w')
    with region_request_keeps [of E lim v base req tx w] have "\<not> statementless req" by simp
    with Inr Respond eq show ?thesis by (simp add: inside_step_def checked_def)
  qed (use Inr in \<open>simp add: inside_step_def\<close>)
qed (simp add: checked_def)

text \<open>The messages of a region, as long as it goes on; \<open>None\<close> once it is left or abandoned.\<close>

fun in_region ::
  "textlib \<Rightarrow> ('w, 'db, 'tx, 'q, 'r, 's) engine \<Rightarrow> limits \<Rightarrow> string \<Rightarrow> string \<Rightarrow> u64 \<Rightarrow>
   ('db, 'tx) mode \<Rightarrow> string list \<Rightarrow> 'w \<Rightarrow> (('db, 'tx) mode \<times> 'w) option" where
  "in_region H E lim cp ep v m [] w = Some (m, w)"
| "in_region H E lim cp ep v m (body # bodies) w = (case conn_step H E lim cp ep v m body w of
     (Go (Inside sl base held tx), _, w') \<Rightarrow> in_region H E lim cp ep v (Inside sl base held tx) bodies w'
   | _ \<Rightarrow> None)"

lemma in_region_step:
  assumes "in_region H E lim cp ep v m (body # bodies) w = Some (m', w')"
  obtains sl base held tx x w1
  where "conn_step H E lim cp ep v m body w = (Go (Inside sl base held tx), x, w1)"
    "in_region H E lim cp ep v (Inside sl base held tx) bodies w1 = Some (m', w')"
  using assms by (auto split: prod.splits verdict.splits mode.splits simp del: conn_step.simps)

lemma in_region_held:
  assumes "in_region H E lim cp ep v (Inside sl base held tx) bodies w = Some (m, w')"
  shows "\<exists>held' tx'. m = Inside sl base held' tx' \<and> held \<subseteq> held'"
  using assms
proof (induction bodies arbitrary: held tx w)
  case (Cons body bodies)
  from Cons.prems obtain sl1 base1 held1 tx1 x w1
    where s: "conn_step H E lim cp ep v (Inside sl base held tx) body w = (Go (Inside sl1 base1 held1 tx1), x, w1)"
      "in_region H E lim cp ep v (Inside sl1 base1 held1 tx1) bodies w1 = Some (m, w')"
    by (rule in_region_step)
  have "sl1 = sl \<and> base1 = base \<and> held1 = (case decode_request H body held of
       Inl r \<Rightarrow> held
     | Inr req \<Rightarrow> if statementless req then insert (request_id req) held else held)"
    using region_keeps_statementless_identifiers [where H = H and E = E and lim = lim and cp = cp and ep = ep
      and v = v and sl = sl and base = base and held = held and tx = tx and body = body and w = w]
    by (simp only: s(1) fst_conv verdict.case mode.case)
  then have same: "sl1 = sl" "base1 = base" and "held \<subseteq> held1"
    by (auto split: sum.splits if_splits)
  from s(2) have "in_region H E lim cp ep v (Inside sl base held1 tx1) bodies w1 = Some (m, w')"
    by (simp only: same)
  from Cons.IH [OF this] obtain held' tx' where "m = Inside sl base held' tx'" "held1 \<subseteq> held'" by auto
  with \<open>held \<subseteq> held1\<close> show ?case by (intro exI [of _ held'] exI [of _ tx']) auto
qed auto

lemma decode_request_outstanding:
  assumes "decode_request H body {} = Ok req" "request_id req \<in> held"
  shows "decode_request H body held = Err (Refusal RequestIdAbsent
    (''request_id '' @ request_id req @ '' is already outstanding on this connection''))"
  using assms
  by (auto simp: decode_request_def object_of_def decode_object_def decode_request_id_def
      split: sum.splits json.splits option.splits if_splits)

text \<open>
  C34: a query with no statement in a region is answered with an error, and its identifier is lost
  to the rest of the region: after any further messages that the region goes on through, a message
  that would be a request with the same identifier is refused as already outstanding, though the
  query was answered and nothing is outstanding. The region goes on from that refusal as it was.
\<close>

theorem statementless_identifier_is_lost:
  assumes "decode_request H body held = Ok req" "statementless req"
    and "in_region H E lim cp ep v (Inside sl base held tx) (body # bodies) w = Some (m, w')"
    and "decode_request H body' {} = Ok req'" "request_id req' = request_id req"
  shows "fst (snd (conn_step H E lim cp ep v (Inside sl base held tx) body w)) =
      error_response v req ''a query carries a statement'' \<and>
    conn_step H E lim cp ep v m body' w' = checked H E lim m (refusal_response v None
      (Refusal RequestIdAbsent
        (''request_id '' @ request_id req @ '' is already outstanding on this connection''))) w'"
proof -
  have keep: "region_request E lim v base req tx w =
      RespondKeep (error_response v req ''a query carries a statement'')"
    using assms(2) by (simp add: statementless_def region_request_def region_query_def)
  then have first: "conn_step H E lim cp ep v (Inside sl base held tx) body w =
      (Go (Inside sl base (insert (request_id req) held) tx),
       error_response v req ''a query carries a statement'', w)"
    using assms(1) by (simp add: inside_step_def)
  with assms(3) have "in_region H E lim cp ep v (Inside sl base (insert (request_id req) held) tx) bodies w =
      Some (m, w')"
    by (simp del: conn_step.simps)
  from in_region_held [OF this] obtain held' tx'
    where m: "m = Inside sl base held' tx'" "insert (request_id req) held \<subseteq> held'"
    by blast
  with assms(5) have "request_id req' \<in> held'" by auto
  from decode_request_outstanding [OF assms(4) this]
  have "conn_step H E lim cp ep v m body' w' = checked H E lim m (refusal_response v None
      (Refusal RequestIdAbsent
        (''request_id '' @ request_id req @ '' is already outstanding on this connection''))) w'"
    by (simp add: m(1) assms(5))
  with first show ?thesis by (simp del: conn_step.simps)
qed

theorem statementless_identifier_is_lost_witness:
  "case in_region demo_text demo_engine demo_limits [] [] 1 (Inside slot_new 7 {} False) [''Q'', ''!'', ''S''] 0 of
     Some (m, w') \<Rightarrow> conn_step demo_text demo_engine demo_limits [] [] 1 m ''Q'' w' =
       (Go m, refusal_response 1 None
         (Refusal RequestIdAbsent ''request_id b is already outstanding on this connection''), w')
   | None \<Rightarrow> False"
proof -
  obtain req where req: "decode_request demo_text ''Q'' {} = Ok req" "statementless req"
      "request_id req = ''b''"
    by (cases "decode_request demo_text ''Q'' {}")
      (auto simp: decode_request_def object_of_def decode_object_def decode_version_def
        decode_request_id_def decode_operation_def decode_database_def operation_parse_def get_str_def
        get_u64_def demo_text_def demo_json_def demo_request_def bt_get_def num_u64_def
        SUPPORTED_VERSIONS_def statementless_def)
  have "in_region demo_text demo_engine demo_limits [] [] 1 (Inside slot_new 7 {} False) [''Q'', ''!'', ''S''] 0
      \<noteq> None"
    by code_simp
  then obtain m w' where m: "in_region demo_text demo_engine demo_limits [] [] 1
      (Inside slot_new 7 {} False) [''Q'', ''!'', ''S''] 0 = Some (m, w')"
    by auto
  have "deliverable demo_text demo_limits x" for x
    by (simp add: deliverable_def demo_text_def demo_limits_def)
  with statementless_identifier_is_lost [OF req(1,2) m req(1) refl] show ?thesis
    by (simp add: m checked_def req(3) del: in_region.simps conn_step.simps)
qed

subsection \<open>What a request in a region does not say\<close>

text \<open>
  Inside a region neither the session a request names nor the database it names changes
  anything: a request that names another session runs in this one's transaction. Outside, a
  query's database changes nothing either.
\<close>

theorem region_ignores_session_and_database:
  "region_request E lim v base (req\<lparr>session_id := i, database := d\<rparr>) tx w =
     region_request E lim v base req tx w \<and>
   dispatch_query E lim v (req\<lparr>database := d\<rparr>) sl w = dispatch_query E lim v req sl w"
proof -
  have resp: "ok_response v (req\<lparr>session_id := i, database := d\<rparr>) x = ok_response v req x"
    "error_response v (req\<lparr>session_id := i, database := d\<rparr>) t = error_response v req t"
    "diagnostic_response v (req\<lparr>session_id := i, database := d\<rparr>) e = diagnostic_response v req e"
    "envelope_response E v (req\<lparr>session_id := i, database := d\<rparr>) res g wr lim =
       envelope_response E v req res g wr lim" for x t e res g wr i
    by (simp_all add: ok_response_def error_response_def diagnostic_response_def envelope_response_def)
  have "run_one E lim v (req\<lparr>database := d\<rparr>) = run_one E lim v req"
    using resp [where i = "session_id req"] by (intro ext) (simp add: run_one_def Let_def split: sum.split prod.split)
  with resp [where i = "session_id req"] show ?thesis
    by (simp add: region_request_def region_query_def dispatch_query_def resp
        split: operation.split sum.split option.split prod.split)
qed

end
