(* ===== verification/RegionEquiv.thy ===== *)
theory RegionEquiv
  imports ServeSafety
begin

section \<open>A region of one statement\<close>

text \<open>
  A statement sent by itself runs in a transaction of its own. This is the equivalence of that
  with the region a client writes out around it: \<open>begin\<close>, the statement, and the way of
  finishing that the daemon would have chosen.
\<close>

text \<open>How \<open>run_one\<close> finishes the transaction of a statement.\<close>

definition finished_by ::
  "('w, 'db, 'tx, 'q, 'r, 's) engine \<Rightarrow> limits \<Rightarrow> 'q \<Rightarrow> 'tx \<Rightarrow> 'w \<Rightarrow> operation" where
  "finished_by E lim q tx w = (case tx_run E q (query_timeout lim) tx w of
     (Inr res, tx', w') \<Rightarrow> if writes_empty E (tx_writes E tx') then Rollback else Commit
   | _ \<Rightarrow> Rollback)"

text \<open>What the statement leaves, by itself and in its region.\<close>

lemma run_one_finish:
  assumes "cypher_parse E stmt = Inr q" "tx_begin E db w = (Inr tx, w1)" "statement rq = Some stmt"
    "req_operation rf = finished_by E lim q tx w1"
  obtains x x' y tx2 w2 db' w' where
    "run_one E lim v rq stmt db w = (x, db', w')"
    "region_query E lim v base rq tx w1 = Respond x' tx2 w2"
    "region_request E lim v base rf tx2 w2 = Finish y db' w'"
proof -
  obtain o2 tx2 w2 where r: "tx_run E q (query_timeout lim) tx w1 = (o2, tx2, w2)"
    by (cases "tx_run E q (query_timeout lim) tx w1") auto
  obtain db1 w3 where roll: "tx_rollback E tx2 w2 = (db1, w3)" by fastforce
  obtain c db2 w4 where com: "tx_commit E tx2 w2 = (c, db2, w4)" by (cases "tx_commit E tx2 w2") auto
  show thesis
  proof (cases o2)
    case (Inl e)
    with assms r roll that show thesis
      by (simp add: run_one_def region_query_def region_request_def finished_by_def)
  next
    case (Inr res)
    show thesis
    proof (cases "writes_empty E (tx_writes E tx2)")
      case True
      with Inr assms r roll that show thesis
        by (simp add: run_one_def region_query_def region_request_def finished_by_def)
    next
      case False
      with Inr assms r com that show thesis
        by (cases c) (simp_all add: run_one_def region_query_def region_request_def finished_by_def)
    qed
  qed
qed

lemma conn_run_goes:
  "conn_step H E lim cp ep v m body w = (Go m', r, w') \<Longrightarrow>
   conn_run H E lim cp ep v m (body # bodies) e w =
     (case conn_run H E lim cp ep v m' bodies e w' of (x, replies, w'') \<Rightarrow> (x, r # replies, w''))"
  by simp

text \<open>
  C29: three messages for one. On a connection with an open session, \<open>begin\<close>, a statement and the
  \<open>commit\<close> or \<open>rollback\<close> that fits it leave the database, the slot and the world exactly as the
  statement by itself does: the rest of the connection has the same replies and the same end.
\<close>

theorem region_of_one_statement:
  assumes opened: "decode_request H bb {} = Ok rb" "req_operation rb = Begin"
      "slot_resolve (session_id rb) sl = Ok sess"
    and query: "decode_request H bq {} = Ok rq" "req_operation rq = Query" "statement rq = Some stmt"
      "slot_resolve (session_id rq) sl = Ok sess"
    and finish: "decode_request H bf {} = Ok rf" "req_operation rf = finished_by E lim q tx w1"
    and engine: "cypher_parse E stmt = Inr q" "tx_begin E (sess_database sess) w = (Inr tx, w1)"
    and sent: "deliverable H lim (ok_response v rb
        (json_object [(''base_generation'', num_u64 (tx_base E tx))]))"
      "deliverable H lim (fst (run_one E lim v rq stmt (sess_database sess) w))"
      "\<And>x tx' w'. region_query E lim v (tx_base E tx) rq tx w1 = Respond x tx' w' \<Longrightarrow> deliverable H lim x"
  shows "\<exists>r1 r2 r3 r. case conn_run H E lim cp ep v (Outside sl) (bq # rest) e w of
    (x, replies, w') \<Rightarrow> \<exists>rs. replies = r # rs \<and>
      conn_run H E lim cp ep v (Outside sl) (bb # bq # bf # rest) e w = (x, r1 # r2 # r3 # rs, w')"
proof -
  let ?base = "tx_base E tx"
  obtain x x' y tx2 w2 db' w' where
    one: "run_one E lim v rq stmt (sess_database sess) w = (x, db', w')" and
    two: "region_query E lim v ?base rq tx w1 = Respond x' tx2 w2"
      "region_request E lim v ?base rf tx2 w2 = Finish y db' w'"
    by (rule run_one_finish [OF engine query(3) finish(2)])
  have alone: "conn_step H E lim cp ep v (Outside sl) bq w = (Go (Outside (slot_put db' sl)), x, w')"
    using query one sent(2)
    by (simp add: outside_step_def dispatch.simps dispatch_query_def checked_def)
  have first: "conn_step H E lim cp ep v (Outside sl) bb w =
      (Go (Inside sl ?base {} tx), ok_response v rb (json_object [(''base_generation'', num_u64 ?base)]), w1)"
    using opened engine(2) sent(1)
    by (simp add: outside_step_def dispatch.simps begin_step_def checked_def)
  have second: "conn_step H E lim cp ep v (Inside sl ?base {} tx) bq w1 = (Go (Inside sl ?base {} tx2), x', w2)"
    using query two(1) sent(3) [OF two(1)]
    by (simp add: inside_step_def region_request_def checked_def)
  have third: "conn_step H E lim cp ep v (Inside sl ?base {} tx2) bf w2 = (Go (Outside (slot_put db' sl)), y, w')"
    using finish(1) two(2) by (simp add: inside_step_def)
  obtain a rs z where "conn_run H E lim cp ep v (Outside (slot_put db' sl)) rest e w' = (a, rs, z)"
    by (cases "conn_run H E lim cp ep v (Outside (slot_put db' sl)) rest e w'") auto
  then show ?thesis by (simp only: conn_run_goes [OF alone] conn_run_goes [OF first] conn_run_goes [OF second]
        conn_run_goes [OF third]) simp
qed

text \<open>A client that opens a region for the statement \<open>w\<close>, which writes.\<close>

definition region_json :: "string \<Rightarrow> string + json" where
  "region_json text =
     (if text = ''B'' then Inr (demo_request ''a'' ''begin'')
      else if text = ''C'' then Inr (demo_request ''c'' ''commit'')
      else if text = ''W'' then Inr (Object
        [(''operation'', String ''query''), (''request_id'', String ''b''),
         (''server_protocol_version'', num_u64 1), (''statement'', String ''w'')])
      else Inl ''expected value'')"

definition region_text :: textlib where
  "region_text = demo_text\<lparr>from_str := region_json\<rparr>"

definition open_slot :: "unit slot" where
  "open_slot = \<lparr>slot_session = Some \<lparr>sess_id = ''s1'', sess_name = ''work'', sess_path = ''/w'',
     sess_database = ()\<rparr>, slot_next = 2\<rparr>"

definition region_client :: "operation \<Rightarrow> string \<Rightarrow> string option \<Rightarrow> request" where
  "region_client oper i stmt = \<lparr>req_version = 1, request_id = i, session_id = None,
     req_operation = oper, database = None, statement = stmt\<rparr>"

lemma region_requests:
  "decode_request region_text ''B'' {} = Ok (region_client Begin ''a'' None)"
  "decode_request region_text ''W'' {} = Ok (region_client Query ''b'' (Some ''w''))"
  "decode_request region_text ''C'' {} = Ok (region_client Commit ''c'' None)"
  by (simp_all add: decode_request_def object_of_def decode_object_def decode_version_def
      decode_request_id_def decode_operation_def decode_database_def operation_parse_def get_str_def
      get_u64_def region_text_def demo_text_def region_json_def demo_request_def bt_get_def num_u64_def
      SUPPORTED_VERSIONS_def region_client_def)

lemma region_sends: "deliverable region_text demo_limits x"
  by (simp add: deliverable_def region_text_def demo_text_def demo_limits_def)

lemma region_of_one_statement_witness:
  "\<exists>rs r1 r2 r3 r. 
     conn_run region_text demo_engine demo_limits [] [] 1 (Outside open_slot) [''W''] Closed 4 =
       (ClientClosed, r # rs, 5) \<and>
     conn_run region_text demo_engine demo_limits [] [] 1 (Outside open_slot) [''B'', ''W'', ''C''] Closed 4 =
       (ClientClosed, r1 # r2 # r3 # rs, 5)"
proof -
  let ?run = "conn_run region_text demo_engine demo_limits [] [] 1 (Outside open_slot) [''W''] Closed 4"
  have alone: "\<exists>replies. ?run = (ClientClosed, replies, 5)"
    by (simp add: region_requests outside_step_def dispatch.simps region_client_def dispatch_query_def
        slot_resolve_def open_slot_def run_one_def demo_engine_def checked_def region_sends
        ended_by_def slot_drop_def slot_close_def slot_put_def)
  have "\<exists>r1 r2 r3 r. case ?run of (x, replies, w') \<Rightarrow> \<exists>rs. replies = r # rs \<and>
      conn_run region_text demo_engine demo_limits [] [] 1 (Outside open_slot) [''B'', ''W'', ''C''] Closed 4 =
        (x, r1 # r2 # r3 # rs, w')"
  proof (rule region_of_one_statement [OF region_requests(1) _ _ region_requests(2) _ _ _ region_requests(3)])
    show "slot_resolve (session_id (region_client Begin ''a'' None)) open_slot = Ok (the (slot_session open_slot))"
      "slot_resolve (session_id (region_client Query ''b'' (Some ''w''))) open_slot = Ok (the (slot_session open_slot))"
      by (simp_all add: slot_resolve_def open_slot_def region_client_def)
    show "cypher_parse demo_engine ''w'' = Inr ''w''"
      "tx_begin demo_engine (sess_database (the (slot_session open_slot))) 4 = (Inr False, 4)"
      by (simp_all add: demo_engine_def)
    show "req_operation (region_client Commit ''c'' None) = finished_by demo_engine demo_limits ''w'' False 4"
      by (simp add: finished_by_def region_client_def demo_engine_def)
  qed (simp_all add: region_client_def region_sends)
  with alone show ?thesis by auto
qed

end
