(* ===== verification/FileSystem.thy ===== *)
theory FileSystem
  imports Prelude
begin

section \<open>The operating system, as the daemon calls it\<close>

text \<open>
  The calls of \<open>std::fs\<close>, of the advisory file lock and of the Unix socket that
  \<open>src/lock.rs\<close>, \<open>src/endpoint.rs\<close>, \<open>src/catalog.rs\<close>, \<open>src/lib.rs\<close> and \<open>src/main.rs\<close> make, over
  an explicit file system. A piece of code that makes them is a \<open>prog\<close>: a tree of calls and
  what follows each answer. The same tree is run alone (\<open>run\<close>) and interleaved with other
  processes (\<open>System\<close>), so there is one definition of each function of the source.

  A path's key is its components, as \<open>std::path\<close> compares paths: repeated separators and
  \<open>.\<close> are dropped. Symbolic links and \<open>..\<close> are not resolved.
\<close>

type_synonym fpath = "bool \<times> string list"

fun split_slash :: "string \<Rightarrow> string list" where
  "split_slash [] = [[]]"
| "split_slash (c # s) =
     (if c = CHR ''/'' then [] # split_slash s
      else (case split_slash s of [] \<Rightarrow> [[c]] | w # ws \<Rightarrow> (c # w) # ws))"

definition path_key :: "string \<Rightarrow> fpath" where
  "path_key p = (is_absolute p, filter (\<lambda>w. w \<noteq> [] \<and> w \<noteq> ''.'') (split_slash p))"

definition parent_key :: "fpath \<Rightarrow> fpath option" where
  "parent_key k = (if snd k = [] then None else Some (fst k, butlast (snd k)))"

definition child_key :: "fpath \<Rightarrow> string \<Rightarrow> fpath" where
  "child_key k name = (fst k, snd k @ [name])"

lemma parent_child [simp]: "parent_key (child_key k name) = Some k"
  by (simp add: parent_key_def child_key_def)

lemma child_key_inject [simp]: "child_key k n = child_key k n' \<longleftrightarrow> n = n'"
  by (simp add: child_key_def)

lemma child_key_neq [simp]: "child_key k n \<noteq> k" "k \<noteq> child_key k n"
  by (auto simp: child_key_def prod_eq_iff)

lemma parent_key_shorter: "parent_key k = Some d \<Longrightarrow> length (snd d) < length (snd k)"
  by (auto simp: parent_key_def split: if_splits)

lemma parent_key_neq: "parent_key k = Some d \<Longrightarrow> d \<noteq> k"
  using parent_key_shorter by fastforce

text \<open>Joining a plain name goes to the child of that name.\<close>

lemma split_slash_nonempty [simp]: "split_slash s \<noteq> []"
  by (cases s) (auto split: list.split)

lemma split_slash_append:
  "split_slash (a @ CHR ''/'' # b) = split_slash a @ split_slash b"
  by (induction a) (auto split: list.split)

lemma split_slash_plain: "CHR ''/'' \<notin> set b \<Longrightarrow> split_slash b = [b]"
  by (induction b) auto

lemma path_key_join:
  assumes "CHR ''/'' \<notin> set name" "name \<noteq> []" "name \<noteq> ''.''"
  shows "path_key (path_join p name) = child_key (path_key p) name"
proof -
  have rel: "\<not> is_absolute name" using assms(1) by (cases name) (auto simp: is_absolute_def)
  consider "p = []" | q where "p = q @ [CHR ''/'']" | "p \<noteq> []" "last p \<noteq> CHR ''/''"
    by (cases p rule: rev_cases) auto
  then show ?thesis
  proof cases
    case 1
    with assms rel show ?thesis
      by (simp add: is_absolute_def path_join_def path_key_def child_key_def split_slash_plain)
  next
    case 2
    have "is_absolute (q @ CHR ''/'' # name) = is_absolute p"
      using 2 by (cases q) (auto simp: is_absolute_def)
    with 2 assms rel split_slash_append [of q name] split_slash_append [of q "[]"] show ?thesis
      by (simp add: path_join_def path_key_def child_key_def split_slash_plain)
  next
    case 3
    then have "is_absolute (p @ CHR ''/'' # name) = is_absolute p"
      by (cases p) (auto simp: is_absolute_def)
    with 3 assms rel split_slash_append [of p name] show ?thesis
      by (simp add: path_join_def path_key_def child_key_def split_slash_plain)
  qed
qed

subsection \<open>The state\<close>

text \<open>
  A node with its mode; a socket knows the handle of the listener it was bound by. \<open>fds\<close> are
  the open handles with their process and path, \<open>holders\<close> who holds the advisory lock of a
  file.
\<close>

datatype node = Dir u32 | File u32 string | Sock u32 nat

primrec node_mode :: "node \<Rightarrow> u32" where
  "node_mode (Dir m) = m"
| "node_mode (File m t) = m"
| "node_mode (Sock m h) = m"

primrec set_node_mode :: "u32 \<Rightarrow> node \<Rightarrow> node" where
  "set_node_mode m (Dir m') = Dir m"
| "set_node_mode m (File m' t) = File m t"
| "set_node_mode m (Sock m' h) = Sock m h"

record fs =
  nodes :: "fpath \<Rightarrow> node option"
  fds :: "nat \<Rightarrow> (nat \<times> fpath) option"
  holders :: "fpath \<Rightarrow> nat option"
  next_fd :: nat
  umasked :: u32

datatype syscall =
    CreateDirAll fpath
  | Metadata fpath
  | SetMode fpath u32
  | OpenFile fpath
  | TryLock nat
  | Close nat
  | RemoveFile fpath
  | BindSocket fpath
  | WriteFile fpath string
  | Rename fpath fpath
  | ReadFile fpath
  | AcceptLoop nat string

datatype answer =
    Done
  | Failed io_error
  | ModeIs u32
  | Handle nat
  | LockIs bool
  | Contents string

text \<open>
  A fault makes a call fail with its error. A call that does several things may have done some
  of them: \<open>n\<close> bytes of a write, \<open>n\<close> directories of a path.
\<close>

datatype fault = Fault io_error "nat option"

definition os_error :: "string \<Rightarrow> io_error" where
  "os_error t = IoError OtherKind t"

definition not_found :: io_error where
  "not_found = IoError NotFound ''No such file or directory (os error 2)''"

definition is_dir :: "fs \<Rightarrow> fpath \<Rightarrow> bool" where
  "is_dir s k = (case nodes s k of Some (Dir m) \<Rightarrow> True | _ \<Rightarrow> False)"

text \<open>Whether a new name can be made: its directory is there, or it has none of its own.\<close>

definition has_dir :: "fs \<Rightarrow> fpath \<Rightarrow> bool" where
  "has_dir s k = (case parent_key k of None \<Rightarrow> False | Some d \<Rightarrow> snd d = [] \<or> is_dir s d)"

text \<open>Making the missing directories of a path, from the top.\<close>

fun make_dirs :: "u32 \<Rightarrow> fpath list \<Rightarrow> (fpath \<Rightarrow> node option) \<Rightarrow> bool \<times> (fpath \<Rightarrow> node option)" where
  "make_dirs m [] ns = (True, ns)"
| "make_dirs m (k # ks) ns = (case ns k of
     None \<Rightarrow> make_dirs m ks (ns(k \<mapsto> Dir m))
   | Some (Dir m') \<Rightarrow> make_dirs m ks ns
   | Some _ \<Rightarrow> (False, ns))"

definition path_prefixes :: "fpath \<Rightarrow> fpath list" where
  "path_prefixes k = map (\<lambda>n. (fst k, take n (snd k))) [1..<Suc (length (snd k))]"

lemma make_dirs_other: "k \<notin> set ks \<Longrightarrow> snd (make_dirs m ks ns) k = ns k"
  by (induction m ks ns rule: make_dirs.induct) (auto split: option.split node.split)

definition open_fd :: "nat \<Rightarrow> fpath \<Rightarrow> fs \<Rightarrow> answer \<times> fs" where
  "open_fd pid k s =
     (Handle (next_fd s), s\<lparr>fds := (fds s)(next_fd s \<mapsto> (pid, k)), next_fd := Suc (next_fd s)\<rparr>)"

definition close_fd :: "nat \<Rightarrow> fs \<Rightarrow> fs" where
  "close_fd h s = s\<lparr>fds := (fds s)(h := None),
     holders := (\<lambda>k. if holders s k = Some h then None else holders s k)\<rparr>"

text \<open>What a call does when nothing fails.\<close>

fun exec_ok :: "nat \<Rightarrow> syscall \<Rightarrow> fs \<Rightarrow> answer \<times> fs" where
  "exec_ok pid (CreateDirAll k) s =
     (let (b, ns) = make_dirs (umasked s) (path_prefixes k) (nodes s)
      in (if b then Done else Failed (os_error ''Not a directory''), s\<lparr>nodes := ns\<rparr>))"
| "exec_ok pid (Metadata k) s =
     (case nodes s k of None \<Rightarrow> (Failed not_found, s) | Some n \<Rightarrow> (ModeIs (node_mode n), s))"
| "exec_ok pid (SetMode k m) s =
     (case nodes s k of
        None \<Rightarrow> (Failed not_found, s)
      | Some n \<Rightarrow> (Done, s\<lparr>nodes := (nodes s)(k \<mapsto> set_node_mode m n)\<rparr>))"
| "exec_ok pid (OpenFile k) s =
     (case nodes s k of
        Some (File m t) \<Rightarrow> open_fd pid k s
      | None \<Rightarrow>
         (if has_dir s k then open_fd pid k (s\<lparr>nodes := (nodes s)(k \<mapsto> File (umasked s) [])\<rparr>)
          else (Failed not_found, s))
      | Some _ \<Rightarrow> (Failed (os_error ''Is a directory''), s))"
| "exec_ok pid (TryLock h) s =
     (case fds s h of
        None \<Rightarrow> (Failed (os_error ''Bad file descriptor''), s)
      | Some (p, k) \<Rightarrow>
         (if holders s k = None \<or> holders s k = Some h
          then (LockIs True, s\<lparr>holders := (holders s)(k \<mapsto> h)\<rparr>)
          else (LockIs False, s)))"
| "exec_ok pid (Close h) s = (Done, close_fd h s)"
| "exec_ok pid (RemoveFile k) s =
     (case nodes s k of
        None \<Rightarrow> (Failed not_found, s)
      | Some (Dir m) \<Rightarrow> (Failed (os_error ''Is a directory''), s)
      | Some _ \<Rightarrow> (Done, s\<lparr>nodes := (nodes s)(k := None)\<rparr>))"
| "exec_ok pid (BindSocket k) s =
     (if nodes s k \<noteq> None then (Failed (os_error ''Address already in use''), s)
      else if has_dir s k then
        open_fd pid k (s\<lparr>nodes := (nodes s)(k \<mapsto> Sock (umasked s) (next_fd s))\<rparr>)
      else (Failed not_found, s))"
| "exec_ok pid (WriteFile k t) s =
     (case nodes s k of
        Some (File m t') \<Rightarrow> (Done, s\<lparr>nodes := (nodes s)(k \<mapsto> File m t)\<rparr>)
      | None \<Rightarrow>
         (if has_dir s k then (Done, s\<lparr>nodes := (nodes s)(k \<mapsto> File (umasked s) t)\<rparr>)
          else (Failed not_found, s))
      | Some _ \<Rightarrow> (Failed (os_error ''Is a directory''), s))"
| "exec_ok pid (Rename a b) s =
     (case nodes s a of
        None \<Rightarrow> (Failed not_found, s)
      | Some n \<Rightarrow>
         (if is_dir s b \<or> \<not> has_dir s b \<or> is_dir s a then (Failed (os_error ''Is a directory''), s)
          else (Done, s\<lparr>nodes := (nodes s)(a := None, b \<mapsto> n)\<rparr>)))"
| "exec_ok pid (ReadFile k) s =
     (case nodes s k of
        None \<Rightarrow> (Failed not_found, s)
      | Some (File m t) \<Rightarrow>
         (if str_ok t then (Contents t, s)
          else (Failed (IoError InvalidData ''stream did not contain valid UTF-8''), s))
      | Some _ \<Rightarrow> (Failed (os_error ''Is a directory''), s))"
| "exec_ok pid (AcceptLoop h cp) s = (Done, s)"

text \<open>What it does when it fails. Closing a handle and asking for a lock cannot be left undone half way.\<close>

fun exec_fault :: "nat \<Rightarrow> io_error \<Rightarrow> nat option \<Rightarrow> syscall \<Rightarrow> fs \<Rightarrow> answer \<times> fs" where
  "exec_fault pid e (Some n) (WriteFile k t) s =
     (case exec_ok pid (WriteFile k (take n t)) s of
        (Done, s') \<Rightarrow> (Failed e, s')
      | r \<Rightarrow> r)"
| "exec_fault pid e (Some n) (CreateDirAll k) s =
     (Failed e, s\<lparr>nodes := snd (make_dirs (umasked s) (take n (path_prefixes k)) (nodes s))\<rparr>)"
| "exec_fault pid e n (Close h) s = (Done, close_fd h s)"
| "exec_fault pid e n c s = (Failed e, s)"

fun exec :: "nat \<Rightarrow> fault option \<Rightarrow> syscall \<Rightarrow> fs \<Rightarrow> answer \<times> fs" where
  "exec pid None c s = exec_ok pid c s"
| "exec pid (Some (Fault e n)) c s = exec_fault pid e n c s"

declare exec_ok.simps [simp del] exec_fault.simps [simp del]

subsection \<open>Programs\<close>

datatype 'a prog = Ret 'a | Call syscall "answer \<Rightarrow> 'a prog"

text \<open>A fallible program, and the \<open>?\<close> operator.\<close>

type_synonym 'a io = "(io_error + 'a) prog"

primrec prog_bind :: "'a prog \<Rightarrow> ('a \<Rightarrow> 'b prog) \<Rightarrow> 'b prog" where
  "prog_bind (Ret a) f = f a"
| "prog_bind (Call c k) f = Call c (\<lambda>r. prog_bind (k r) f)"

definition io_bind :: "'a io \<Rightarrow> ('a \<Rightarrow> 'b io) \<Rightarrow> 'b io" where
  "io_bind p f = prog_bind p (\<lambda>x. case x of Inl e \<Rightarrow> Ret (Err e) | Inr a \<Rightarrow> f a)"

definition io_ret :: "'a \<Rightarrow> 'a io" where
  "io_ret a = Ret (Ok a)"

text \<open>One call whose answer is only its success, and a call whose answer is ignored.\<close>

definition io_call :: "syscall \<Rightarrow> unit io" where
  "io_call c = Call c (\<lambda>r. case r of Failed e \<Rightarrow> Ret (Err e) | _ \<Rightarrow> Ret (Ok ()))"

definition ignoring :: "syscall \<Rightarrow> 'a prog \<Rightarrow> 'a prog" where
  "ignoring c p = Call c (\<lambda>_. p)"

lemma io_bind_simps [simp]:
  "io_bind (Ret (Inl e)) f = Ret (Inl e)"
  "io_bind (Ret (Inr a)) f = f a"
  "io_bind (io_ret a) f = f a"
  "io_bind (Call c k) f = Call c (\<lambda>r. io_bind (k r) f)"
  by (simp_all add: io_bind_def io_ret_def)

text \<open>A program alone, with a script of faults for its calls; past its end nothing fails.\<close>

primrec run :: "nat \<Rightarrow> 'a prog \<Rightarrow> fault option list \<Rightarrow> fs \<Rightarrow> 'a \<times> fs" where
  "run pid (Ret a) fl s = (a, s)"
| "run pid (Call c k) fl s =
     (let (r, s') = exec pid (case fl of [] \<Rightarrow> None | f # _ \<Rightarrow> f) c s
      in run pid (k r) (tl fl) s')"

lemma run_Call:
  "run pid (Call c k) fl s =
     run pid (k (fst (exec pid (case fl of [] \<Rightarrow> None | f # _ \<Rightarrow> f) c s))) (tl fl)
       (snd (exec pid (case fl of [] \<Rightarrow> None | f # _ \<Rightarrow> f) c s))"
  by (simp add: case_prod_beta Let_def)

subsection \<open>Contracts of programs\<close>

text \<open>
  \<open>along Q p\<close>: along every run of \<open>p\<close>, whatever the answers, each call satisfies \<open>Q\<close> of the state
  of a monitor, which the call and its answer move on; \<open>finish\<close> holds of the result.
\<close>

primrec along ::
  "('m \<Rightarrow> syscall \<Rightarrow> bool) \<Rightarrow> (syscall \<Rightarrow> answer \<Rightarrow> 'm \<Rightarrow> 'm) \<Rightarrow> ('m \<Rightarrow> 'a \<Rightarrow> bool) \<Rightarrow> 'a prog \<Rightarrow> 'm \<Rightarrow> bool"
  where
  "along Q mv fin (Ret a) m = fin m a"
| "along Q mv fin (Call c k) m = (Q m c \<and> (\<forall>r. along Q mv fin (k r) (mv c r m)))"

lemma along_bind:
  "along Q mv (\<lambda>m a. along Q mv fin (f a) m) p m \<Longrightarrow> along Q mv fin (prog_bind p f) m"
  by (induction p arbitrary: m) auto

lemma along_mono:
  "along Q mv fin p m \<Longrightarrow> (\<And>m a. fin m a \<Longrightarrow> fin' m a) \<Longrightarrow> along Q mv fin' p m"
  by (induction p arbitrary: m) auto

end
