(* ===== verification/Pool.thy ===== *)
theory Pool
  imports FileSystem
begin

section \<open>Many processes over one file system\<close>

text \<open>
  Any number of processes, interleaved call by call: any call may fail, and a process may end
  at any point, by its own exit or by a crash. The operating system then closes its handles,
  which releases the locks they hold. \<open>starts pid p\<close> says which programs a process may run.

  The locale \<open>pool\<close> is the way invariants of such a system are proved: a monitor per process
  that its calls respect and move on and its result finishes, and an invariant of the files and each monitor that a
  process's call keeps for itself and for every other process.
\<close>

definition kill :: "nat \<Rightarrow> fs \<Rightarrow> fs" where
  "kill pid s = s\<lparr>
     fds := (\<lambda>h. case fds s h of Some (p, k) \<Rightarrow> if p = pid then None else Some (p, k) | None \<Rightarrow> None),
     holders := (\<lambda>k. case holders s k of
         Some h \<Rightarrow> (case fds s h of Some (p, _) \<Rightarrow> if p = pid then None else Some h | None \<Rightarrow> Some h)
       | None \<Rightarrow> None)\<rparr>"

inductive pool_step ::
  "(nat \<Rightarrow> 'a prog \<Rightarrow> bool) \<Rightarrow> fs \<times> (nat \<Rightarrow> 'a prog option) \<Rightarrow> fs \<times> (nat \<Rightarrow> 'a prog option) \<Rightarrow> bool"
  for starts where
  spawn: "P pid = None \<Longrightarrow> starts pid p \<Longrightarrow> pool_step starts (s, P) (s, P(pid \<mapsto> p))"
| call: "P pid = Some (Call c k) \<Longrightarrow> exec pid f c s = (r, s') \<Longrightarrow>
    pool_step starts (s, P) (s', P(pid \<mapsto> k r))"
| leave: "P pid = Some p \<Longrightarrow> pool_step starts (s, P) (kill pid s, P(pid := None))"

inductive_cases pool_stepE: "pool_step starts (s, P) (s', P')"

text \<open>The machine starts with any files, and no process.\<close>

definition quiet :: "fs \<Rightarrow> bool" where
  "quiet s = ((\<forall>h. fds s h = None) \<and> (\<forall>k. holders s k = None))"

inductive pool_reach ::
  "(nat \<Rightarrow> 'a prog \<Rightarrow> bool) \<Rightarrow> fs \<Rightarrow> fs \<times> (nat \<Rightarrow> 'a prog option) \<Rightarrow> bool"
  for starts s0 where
  init: "quiet s0 \<Longrightarrow> pool_reach starts s0 (s0, \<lambda>_. None)"
| step: "pool_reach starts s0 st \<Longrightarrow> pool_step starts st st' \<Longrightarrow> pool_reach starts s0 st'"

text \<open>One process taking steps alone, with the fault of each.\<close>

fun solo :: "nat \<Rightarrow> fault option list \<Rightarrow> fs \<times> 'a prog \<Rightarrow> fs \<times> 'a prog" where
  "solo pid (f # fl) (s, Call c k) = (let (r, s') = exec pid f c s in solo pid fl (s', k r))"
| "solo pid fl (s, p) = (s, p)"

lemma reach_solo:
  "pool_reach starts s0 (s, P) \<Longrightarrow> P pid = Some p \<Longrightarrow>
   pool_reach starts s0 (fst (solo pid fl (s, p)), P(pid \<mapsto> snd (solo pid fl (s, p))))"
proof (induction pid fl "(s, p)" arbitrary: s p P rule: solo.induct)
  case (1 pid f fl s c k)
  obtain r s' where e: "exec pid f c s = (r, s')" by fastforce
  have "pool_reach starts s0 (s', P(pid \<mapsto> k r))"
    using 1(2) pool_step.call [of P pid c k f s r s', OF 1(3) e] by (rule pool_reach.step)
  from 1(1) [OF e [symmetric] refl this] e show ?case by simp
qed (simp_all add: map_upd_triv)

subsection \<open>Handles\<close>

definition fs_inv :: "fs \<Rightarrow> bool" where
  "fs_inv s = ((\<forall>h \<ge> next_fd s. fds s h = None) \<and>
     (\<forall>k h. holders s k = Some h \<longrightarrow> (\<exists>pid. fds s h = Some (pid, k))))"

lemma fs_inv_holder: "fs_inv s \<Longrightarrow> holders s k = Some h \<Longrightarrow> \<exists>pid. fds s h = Some (pid, k)"
  by (cases k) (simp add: fs_inv_def)

lemma quiet_fs_inv: "quiet s \<Longrightarrow> fs_inv s"
  by (simp add: quiet_def fs_inv_def)

lemma kill_fds: "fds (kill pid s) h = Some (q, k) \<longleftrightarrow> fds s h = Some (q, k) \<and> q \<noteq> pid"
  by (auto simp: kill_def split: option.splits)

lemma kill_holders:
  "fs_inv s \<Longrightarrow> holders (kill pid s) k = Some h \<longleftrightarrow>
   holders s k = Some h \<and> (\<exists>q. q \<noteq> pid \<and> fds s h = Some (q, k))"
  using fs_inv_holder [of s k h] by (auto simp: kill_def split: option.splits)

lemma kill_rest [simp]: "nodes (kill pid s) = nodes s" "next_fd (kill pid s) = next_fd s"
  by (simp_all add: kill_def)

lemma kill_fs_inv: "fs_inv s \<Longrightarrow> fs_inv (kill pid s)"
proof -
  assume inv: "fs_inv s"
  have "fds (kill pid s) h = None" if "next_fd s \<le> h" for h
    using that inv kill_fds [of pid s h] by (cases "fds (kill pid s) h") (auto simp: fs_inv_def)
  with inv show ?thesis by (auto simp: fs_inv_def kill_holders [OF inv] kill_fds)
qed

text \<open>A call gives new handles to its own process only.\<close>

lemma open_fd_new: "fds (snd (open_fd pid k s)) h = Some (q, x) \<Longrightarrow> fds s h = Some (q, x) \<or> q = pid"
  by (auto simp: open_fd_def split: if_splits)

lemma exec_ok_new:
  "exec_ok pid c s = (r, s') \<Longrightarrow> fds s' h = Some (q, x) \<Longrightarrow> fds s h = Some (q, x) \<or> q = pid"
  by (cases c) (auto simp: exec_ok.simps open_fd_def close_fd_def Let_def case_prod_beta
      split: option.splits node.splits if_splits)

lemma exec_new:
  assumes "exec pid f c s = (r, s')" "fds s' h = Some (q, x)"
  shows "fds s h = Some (q, x) \<or> q = pid"
proof (cases f)
  case None
  with assms exec_ok_new [of pid c s r s' h q x] show ?thesis by simp
next
  case (Some ft)
  obtain e n where ft: "ft = Fault e n" by (cases ft)
  show ?thesis
  proof (cases n)
    case None
    with Some ft assms show ?thesis
      by (cases c) (auto simp: exec_fault.simps close_fd_def split: if_splits)
  next
    case (Some i)
    with \<open>f = Some ft\<close> ft assms exec_ok_new [of pid _ s Done s' h q x] show ?thesis
      by (cases c) (auto simp: exec_fault.simps close_fd_def split: if_splits prod.splits answer.splits
          dest: exec_ok_new)
  qed
qed

text \<open>Every handle is a live process's.\<close>

lemma handles_live:
  "pool_reach starts s0 st \<Longrightarrow> fds (fst st) h = Some (pid, k) \<Longrightarrow> snd st pid \<noteq> None"
proof (induction arbitrary: h pid k rule: pool_reach.induct)
  case init
  then show ?case by (simp add: quiet_def)
next
  case (step st st')
  obtain s P s' P' where st: "st = (s, P)" "st' = (s', P')" by (cases st; cases st') auto
  have IH: "P q \<noteq> None" if "fds s g = Some (q, x)" for g q x
    using step.IH [of g q x] that st by simp
  have fd: "fds s' h = Some (pid, k)" using step.prems st by simp
  from step.hyps(2) have "pool_step starts (s, P) (s', P')" by (simp add: st)
  then have "P' pid \<noteq> None"
  proof (cases rule: pool_stepE [consumes 1, case_names spawn call leave])
    case (call q c k' f r)
    from exec_new [OF call(3) fd] IH [of h pid k] show ?thesis by (auto simp: call(1))
  qed (use fd IH [of h pid k] in \<open>auto simp: kill_fds\<close>)
  then show ?case by (simp add: st)
qed

subsection \<open>Invariants by monitors\<close>

locale pool =
  fixes starts :: "nat \<Rightarrow> 'a prog \<Rightarrow> bool"
    and allowed :: "nat \<Rightarrow> 'm \<Rightarrow> syscall \<Rightarrow> bool"
    and observe :: "nat \<Rightarrow> syscall \<Rightarrow> answer \<Rightarrow> 'm \<Rightarrow> 'm"
    and finish :: "'m \<Rightarrow> 'a \<Rightarrow> bool"
    and fresh :: 'm
    and files :: "fs \<Rightarrow> bool"
    and local :: "fs \<Rightarrow> nat \<Rightarrow> 'm \<Rightarrow> bool"
  assumes starts_along: "starts pid p \<Longrightarrow> along (allowed pid) (observe pid) finish p fresh"
    and local_fresh: "files s \<Longrightarrow> (\<And>h k. fds s h \<noteq> Some (pid, k)) \<Longrightarrow> local s pid fresh"
    and step_files: "files s \<Longrightarrow> local s pid m \<Longrightarrow> allowed pid m c \<Longrightarrow> exec pid f c s = (r, s') \<Longrightarrow>
      files s'"
    and step_local: "files s \<Longrightarrow> local s pid m \<Longrightarrow> allowed pid m c \<Longrightarrow> exec pid f c s = (r, s') \<Longrightarrow>
      local s' pid (observe pid c r m)"
    and step_other: "files s \<Longrightarrow> local s pid m \<Longrightarrow> allowed pid m c \<Longrightarrow> exec pid f c s = (r, s') \<Longrightarrow>
      local s q n \<Longrightarrow> q \<noteq> pid \<Longrightarrow> local s' q n"
    and kill_files: "files s \<Longrightarrow> files (kill pid s)"
    and kill_local: "files s \<Longrightarrow> local s q n \<Longrightarrow> q \<noteq> pid \<Longrightarrow> local (kill pid s) q n"
begin

definition pool_inv :: "fs \<times> (nat \<Rightarrow> 'a prog option) \<Rightarrow> bool" where
  "pool_inv st = (files (fst st) \<and> (\<forall>pid p. snd st pid = Some p \<longrightarrow>
     (\<exists>m. along (allowed pid) (observe pid) finish p m \<and> local (fst st) pid m)))"

lemma pool_invI:
  assumes "files s" "\<And>pid p. P pid = Some p \<Longrightarrow>
      \<exists>m. along (allowed pid) (observe pid) finish p m \<and> local s pid m"
  shows "pool_inv (s, P)"
  using assms by (simp add: pool_inv_def)

lemma pool_inv_files: "pool_inv (s, P) \<Longrightarrow> files s"
  by (simp add: pool_inv_def)

lemma pool_inv_local:
  assumes "pool_inv (s, P)" "P pid = Some p"
  obtains m where "along (allowed pid) (observe pid) finish p m" "local s pid m"
  using assms by (auto simp: pool_inv_def)

lemma pool_inv_call:
  assumes "pool_inv (s, P)" "P pid = Some (Call c k)"
  obtains m where "allowed pid m c" "local s pid m"
    "\<forall>r. along (allowed pid) (observe pid) finish (k r) (observe pid c r m)"
proof -
  obtain m where "along (allowed pid) (observe pid) finish (Call c k) m" "local s pid m"
    by (rule pool_inv_local [OF assms])
  then show thesis by (intro that [of m]) simp_all
qed

text \<open>A process that has come to its end has its monitor at an end of it.\<close>

lemma pool_inv_ret:
  assumes "pool_inv (s, P)" "P pid = Some (Ret a)"
  obtains m where "finish m a" "local s pid m"
  using pool_inv_local [OF assms] by (metis along.simps(1))

lemma step_inv:
  assumes inv: "pool_inv (s, P)" and step: "pool_step starts (s, P) (s', P')"
    and absent: "\<And>pid h k. P pid = None \<Longrightarrow> fds s h \<noteq> Some (pid, k)"
  shows "pool_inv (s', P')"
  using step
proof (cases rule: pool_stepE [consumes 1, case_names spawn call leave])
  case (spawn pid p)
  note files = pool_inv_files [OF inv]
  show ?thesis
    unfolding spawn(3,4)
  proof (rule pool_invI [OF files])
    show "\<exists>m. along (allowed q) (observe q) finish p' m \<and> local s q m"
      if "(P(pid \<mapsto> p)) q = Some p'" for q p'
    proof (cases "q = pid")
      case True
      with that starts_along [OF spawn(2)] local_fresh [OF files absent [OF spawn(1)]] show ?thesis by auto
    next
      case False
      with that pool_inv_local [OF inv, of q p'] show ?thesis by auto
    qed
  qed
next
  case (call pid c k f r)
  note files = pool_inv_files [OF inv]
  obtain m where m: "allowed pid m c" "local s pid m"
      "\<forall>r. along (allowed pid) (observe pid) finish (k r) (observe pid c r m)"
    by (rule pool_inv_call [OF inv call(2)])
  show ?thesis
    unfolding call(1)
  proof (rule pool_invI [OF step_files [OF files m(2,1) call(3)]])
    show "\<exists>m. along (allowed q) (observe q) finish p m \<and> local s' q m"
      if "(P(pid \<mapsto> k r)) q = Some p" for q p
    proof (cases "q = pid")
      case True
      with that m(3) step_local [OF files m(2,1) call(3)] show ?thesis by auto
    next
      case False
      with that obtain n where "along (allowed q) (observe q) finish p n" "local s q n"
        using pool_inv_local [OF inv, of q p] by auto
      with step_other [OF files m(2,1) call(3) _ False] show ?thesis by blast
    qed
  qed
next
  case (leave pid p)
  note files = pool_inv_files [OF inv]
  show ?thesis
    unfolding leave(2,3)
  proof (rule pool_invI [OF kill_files [OF files]])
    show "\<exists>m. along (allowed q) (observe q) finish p' m \<and> local (kill pid s) q m"
      if "(P(pid := None)) q = Some p'" for q p'
    proof -
      from that have q: "q \<noteq> pid" "P q = Some p'" by (auto split: if_splits)
      from pool_inv_local [OF inv q(2)] kill_local [OF files _ q(1)] show ?thesis by metis
    qed
  qed
qed

lemma reach_inv:
  assumes "files s0"
  shows "pool_reach starts s0 st \<Longrightarrow> pool_inv st"
proof (induction rule: pool_reach.induct)
  case init
  with assms show ?case by (simp add: pool_inv_def)
next
  case (step st st')
  obtain s P s' P' where st: "st = (s, P)" "st' = (s', P')" by (cases st; cases st') auto
  have "fds s h \<noteq> Some (pid, k)" if "P pid = None" for pid h k
    using handles_live [OF step(1), of h pid k] that by (auto simp: st)
  with step_inv [of s P s' P'] step(2) step.IH show ?case by (simp add: st)
qed

end

end
