(* ===== verification/Lock.thy ===== *)
theory Lock
  imports FileSystem
begin

section \<open>The single-instance lock\<close>

text \<open>
  \<open>src/lock.rs\<close>: a guard is the handle of the locked file and its path; dropping it closes the
  handle, which releases the lock.
\<close>

unbundle bit_operations_syntax

record guard =
  guard_handle :: nat
  guard_path :: string

datatype outcome = Acquired guard | AlreadyHeld

definition mode_0700 :: u32 where "mode_0700 = 0x1C0"
definition mode_0777 :: u32 where "mode_0777 = 0x1FF"

definition restrict_to_current_user :: "fpath \<Rightarrow> unit io" where
  "restrict_to_current_user d = Call (Metadata d) (\<lambda>r. case r of
     ModeIs m \<Rightarrow>
       (if m AND mode_0777 \<noteq> mode_0700 then io_call (SetMode d mode_0700) else io_ret ())
   | Failed e \<Rightarrow> Ret (Err e)
   | _ \<Rightarrow> io_ret ())"

text \<open>The same function on platforms other than Unix, where the endpoint carries the restriction.\<close>

definition restrict_elsewhere :: "fpath \<Rightarrow> unit io" where
  "restrict_elsewhere d = io_ret ()"

text \<open>The directory of a path, made and restricted when the path has one.\<close>

definition prepare_directory :: "string \<Rightarrow> unit io" where
  "prepare_directory path = (case parent_key (path_key path) of
     None \<Rightarrow> io_ret ()
   | Some d \<Rightarrow> io_bind (io_call (CreateDirAll d)) (\<lambda>_. restrict_to_current_user d))"

definition lock_file :: "string \<Rightarrow> outcome io" where
  "lock_file path = Call (OpenFile (path_key path)) (\<lambda>r. case r of
     Handle h \<Rightarrow> Call (TryLock h) (\<lambda>a. case a of
         LockIs True \<Rightarrow> io_ret (Acquired \<lparr>guard_handle = h, guard_path = path\<rparr>)
       | LockIs False \<Rightarrow> ignoring (Close h) (io_ret AlreadyHeld)
       | Failed e \<Rightarrow> ignoring (Close h) (Ret (Err e))
       | _ \<Rightarrow> ignoring (Close h) (io_ret AlreadyHeld))
   | Failed e \<Rightarrow> Ret (Err e)
   | _ \<Rightarrow> io_ret AlreadyHeld)"

definition acquire :: "string \<Rightarrow> outcome io" where
  "acquire path = io_bind (prepare_directory path) (\<lambda>_. lock_file path)"

definition guard_drop :: "guard \<Rightarrow> 'a prog \<Rightarrow> 'a prog" where
  "guard_drop g p = ignoring (Close (guard_handle g)) p"

end
