(* ===== verification/Endpoint.thy ===== *)
theory Endpoint
  imports Lock
begin

section \<open>The endpoint\<close>

text \<open>
  \<open>src/endpoint.rs\<close> on Unix: where the socket and the lock file are, binding the socket, and
  dropping the listener. \<open>home\<close> is the environment's \<open>HOME\<close>. A path value is its OS string.
\<close>

definition run_directory :: "string option \<Rightarrow> io_error + string" where
  "run_directory home = (case home of
     None \<Rightarrow> Err (IoError NotFound ''HOME is unset, so the per-user endpoint has no location'')
   | Some h \<Rightarrow>
      (if h = [] then Err (IoError NotFound ''HOME is unset, so the per-user endpoint has no location'')
       else Ok (path_join (path_join h ''.nostdb'') ''run'')))"

definition endpoint_address :: "string option \<Rightarrow> io_error + string" where
  "endpoint_address home =
     (case run_directory home of Inl e \<Rightarrow> Err e | Inr d \<Rightarrow> Ok (path_join d ''nostdb.sock''))"

text \<open>The same functions on platforms other than Unix: this \<open>address\<close> is an error.\<close>

definition address_elsewhere :: "io_error + string" where
  "address_elsewhere = Err (IoError Unsupported
     ''the Windows named-pipe endpoint is not implemented in this increment'')"

definition lock_path :: "string option \<Rightarrow> io_error + string" where
  "lock_path home =
     (case run_directory home of Inl e \<Rightarrow> Err e | Inr d \<Rightarrow> Ok (path_join d ''daemon.lock''))"

record listener =
  listener_handle :: nat
  listener_address :: string

definition mode_0600 :: u32 where "mode_0600 = 0x180"

text \<open>
  The part after the socket is bound. Its errors drop the raw listener, which closes the handle
  and leaves the socket file where it is.
\<close>

definition narrow_socket :: "nat \<Rightarrow> string \<Rightarrow> listener io" where
  "narrow_socket h address = Call (Metadata (path_key address)) (\<lambda>r. case r of
     Failed e \<Rightarrow> ignoring (Close h) (Ret (Err e))
   | _ \<Rightarrow> Call (SetMode (path_key address) mode_0600) (\<lambda>r. case r of
         Failed e \<Rightarrow> ignoring (Close h) (Ret (Err e))
       | _ \<Rightarrow> io_ret \<lparr>listener_handle = h, listener_address = address\<rparr>))"

definition bind_socket :: "string \<Rightarrow> listener io" where
  "bind_socket address = Call (BindSocket (path_key address)) (\<lambda>r. case r of
     Handle h \<Rightarrow> narrow_socket h address
   | Failed e \<Rightarrow> Ret (Err e)
   | _ \<Rightarrow> Ret (Err (os_error [])))"

definition endpoint_bind :: "string \<Rightarrow> listener io" where
  "endpoint_bind address = io_bind (prepare_directory address) (\<lambda>_.
     Call (RemoveFile (path_key address)) (\<lambda>r. case r of
       Failed e \<Rightarrow> (if io_kind e = NotFound then bind_socket address else Ret (Err e))
     | _ \<Rightarrow> bind_socket address))"

text \<open>\<open>Drop for Listener\<close>: the socket file is removed, then the handle is closed.\<close>

definition listener_drop :: "listener \<Rightarrow> 'a prog \<Rightarrow> 'a prog" where
  "listener_drop l p = ignoring (RemoveFile (path_key (listener_address l)))
     (ignoring (Close (listener_handle l)) p)"

end
