(* ===== verification/CatalogStore.thy ===== *)
theory CatalogStore
  imports Catalog Pool
begin

section \<open>The catalog on disk\<close>

text \<open>
  \<open>default_path\<close>, \<open>load\<close> and \<open>store\<close> of \<open>src/catalog.rs\<close> as programs over the file system.
  Every error of \<open>store\<close> is the source's \<open>Error::Io\<close>. The temporary file is named after the
  process, \<open>pid\<close>.
\<close>

definition catalog_default_path :: "string option \<Rightarrow> io_error + string" where
  "catalog_default_path home = (case home of
     None \<Rightarrow> Err (IoError NotFound ''HOME is unset, so the per-user catalog has no location'')
   | Some h \<Rightarrow>
      (if h = [] then Err (IoError NotFound ''HOME is unset, so the per-user catalog has no location'')
       else Ok (path_join (path_join h ''.nostdb'') ''catalog.json'')))"

definition catalog_load_at :: "textlib \<Rightarrow> string \<Rightarrow> (catalog_error + catalog) prog" where
  "catalog_load_at H path = Call (ReadFile (path_key path)) (\<lambda>r. Ret (catalog_load H (case r of
     Contents t \<Rightarrow> Ok t
   | Failed e \<Rightarrow> Err e
   | _ \<Rightarrow> Err (os_error []))))"

definition temp_name :: "nat \<Rightarrow> string" where
  "temp_name pid = ''.catalog.json.'' @ show_nat pid @ ''.partial''"

definition catalog_store :: "textlib \<Rightarrow> nat \<Rightarrow> catalog \<Rightarrow> string \<Rightarrow> unit io" where
  "catalog_store H pid c path = (case parent_key (path_key path) of
     None \<Rightarrow> Ret (Err (IoError InvalidInput ''the catalog path has no parent directory''))
   | Some d \<Rightarrow> io_bind (io_call (CreateDirAll d)) (\<lambda>_.
      (case to_string_pretty H (to_document c) of
         Inl e \<Rightarrow> Ret (Err (IoError InvalidData e))
       | Inr text \<Rightarrow>
          (let temporary = child_key d (temp_name pid) in
           io_bind (io_call (WriteFile temporary (text @ [CHR 0x0A]))) (\<lambda>_.
             Call (Rename temporary (path_key path)) (\<lambda>r. case r of
               Failed e \<Rightarrow> ignoring (RemoveFile temporary) (Ret (Err e))
             | _ \<Rightarrow> io_ret ()))))))"

end
