(* ===== verification/Daemon.thy ===== *)
theory Daemon
  imports Endpoint CatalogStore Serve
begin

section \<open>The daemon's life\<close>

text \<open>
  \<open>start\<close> and \<open>is_running\<close> of \<open>src/lib.rs\<close>, and \<open>src/main.rs\<close> over them. The accept loop is one
  call here (\<open>AcceptLoop\<close>), answered by how it ended; \<open>Accept\<close> models the inside of it.
\<close>

datatype started =
    Running (run_address: string) (run_listener: listener) (run_guard: guard)
  | AlreadyRunning (run_address: string) (run_code: code)

definition daemon_start :: "string option \<Rightarrow> started io" where
  "daemon_start home = (case endpoint_address home of
     Inl e \<Rightarrow> Ret (Err e)
   | Inr address \<Rightarrow> (case lock_path home of
         Inl e \<Rightarrow> Ret (Err e)
       | Inr lock \<Rightarrow> io_bind (acquire lock) (\<lambda>x. case x of
             AlreadyHeld \<Rightarrow> io_ret (AlreadyRunning address ServerAlreadyRunning)
           | Acquired g \<Rightarrow> prog_bind (endpoint_bind address) (\<lambda>b. case b of
                 Inl e \<Rightarrow> guard_drop g (Ret (Err e))
               | Inr l \<Rightarrow> io_ret (Running address l g)))))"

definition is_running :: "string option \<Rightarrow> bool io" where
  "is_running home = (case lock_path home of
     Inl e \<Rightarrow> Ret (Err e)
   | Inr lock \<Rightarrow> io_bind (acquire lock) (\<lambda>x. case x of
         Acquired g \<Rightarrow> guard_drop g (io_ret False)
       | AlreadyHeld \<Rightarrow> io_ret True))"

subsection \<open>The binary\<close>

text \<open>What a process printed on its two streams, and the status it exits with.\<close>

record exit_report =
  printed :: "string list"
  complained :: "string list"
  exit_code :: nat

definition failure_report :: "string list \<Rightarrow> io_error \<Rightarrow> exit_report" where
  "failure_report said e =
     \<lparr>printed = said, complained = [''nostdb-server: '' @ io_text e], exit_code = 1\<rparr>"

definition usage_text :: string where
  "usage_text =
     ''nostdb-server '' @ [CHR 0xE2, CHR 0x80, CHR 0x94] @ '' the NostDB per-user local daemon'' @ [CHR 0x0A, CHR 0x0A] @
     ''Usage:'' @ [CHR 0x0A] @
     ''  nostdb-server [run]      Acquire the single-instance lock and bind the endpoint'' @ [CHR 0x0A] @
     ''  nostdb-server status     Report whether a daemon is running for this user'' @ [CHR 0x0A] @
     ''  nostdb-server help       Show this text'' @ [CHR 0x0A, CHR 0x0A] @
     ''The user-facing surface is `nostdb server ...`, which starts this process.'' @ [CHR 0x0A]"

text \<open>
  The arm of a running daemon. The listener is a binding of the arm and is dropped at its end;
  the guard is part of the matched value and is dropped after it.
\<close>

definition run_daemon :: "string option \<Rightarrow> string \<Rightarrow> listener \<Rightarrow> guard \<Rightarrow> exit_report prog" where
  "run_daemon home address l g =
     (let said = [''listening on '' @ display address];
          leave = (\<lambda>rep. listener_drop l (guard_drop g (Ret rep)))
      in (case catalog_default_path home of
            Inl e \<Rightarrow> leave (failure_report said e)
          | Inr cp \<Rightarrow> Call (AcceptLoop (listener_handle l) cp) (\<lambda>r. case r of
                Failed e \<Rightarrow> leave (failure_report said e)
              | _ \<Rightarrow> leave \<lparr>printed = said, complained = [], exit_code = 0\<rparr>)))"

definition run_main :: "string option \<Rightarrow> exit_report prog" where
  "run_main home = prog_bind (daemon_start home) (\<lambda>x. case x of
     Inr (Running address l g) \<Rightarrow> run_daemon home address l g
   | Inr (AlreadyRunning address c) \<Rightarrow>
       Ret \<lparr>printed = [code_as_str c @ '': already listening on '' @ display address],
            complained = [], exit_code = 0\<rparr>
   | Inl e \<Rightarrow> Ret (failure_report [] e))"

definition status_main :: "string option \<Rightarrow> exit_report prog" where
  "status_main home = prog_bind (is_running home) (\<lambda>x. case x of
     Inr True \<Rightarrow> Ret \<lparr>printed = [''running''], complained = [], exit_code = 0\<rparr>
   | Inr False \<Rightarrow> Ret \<lparr>printed = [''not running''], complained = [], exit_code = 0\<rparr>
   | Inl e \<Rightarrow> Ret (failure_report [] e))"

text \<open>\<open>arguments\<close> are those after the program's own name.\<close>

definition main_prog :: "string option \<Rightarrow> string list \<Rightarrow> exit_report prog" where
  "main_prog home arguments =
     (let command = (case arguments of [] \<Rightarrow> ''run'' | a # _ \<Rightarrow> a) in
      if command = ''run'' then run_main home
      else if command = ''status'' then status_main home
      else if command = ''--help'' \<or> command = ''-h'' \<or> command = ''help'' then
        Ret \<lparr>printed = [usage_text], complained = [], exit_code = 0\<rparr>
      else
        Ret \<lparr>printed = [], complained = [''nostdb-server: unknown command '' @ command @
             [CHR 0x0A, CHR 0x0A] @ usage_text], exit_code = 2\<rparr>)"

end
