(* ===== verification/Discipline.thy ===== *)
theory Discipline
  imports Daemon
begin

section \<open>What one process may do\<close>

text \<open>
  The discipline of every process of this program, whatever the operating system answers: it
  opens only the lock file, touches the socket's path only while it holds the lock, accepts
  connections only on a socket it bound and narrowed, and closes only handles it was given.
\<close>

datatype lock_state = Unlocked | Opened nat | Holding nat
datatype bind_state = Unbound | Bound nat | Narrowed nat

record monitor =
  own :: "nat set"
  lk :: lock_state
  bd :: bind_state

definition fresh_monitor :: monitor where
  "fresh_monitor = \<lparr>own = {}, lk = Unlocked, bd = Unbound\<rparr>"

definition holding :: "monitor \<Rightarrow> bool" where
  "holding m = (case lk m of Holding h \<Rightarrow> True | _ \<Rightarrow> False)"

text \<open>\<open>d\<close> is the run directory: the socket and the lock file are in it.\<close>

definition sock_key :: "fpath \<Rightarrow> fpath" where "sock_key d = child_key d ''nostdb.sock''"
definition lock_key :: "fpath \<Rightarrow> fpath" where "lock_key d = child_key d ''daemon.lock''"

lemma run_keys_distinct [simp]: "sock_key d \<noteq> lock_key d" "lock_key d \<noteq> sock_key d"
  "sock_key d \<noteq> d" "d \<noteq> sock_key d" "lock_key d \<noteq> d" "d \<noteq> lock_key d"
  by (simp_all add: sock_key_def lock_key_def)

fun allowed :: "fpath \<Rightarrow> monitor \<Rightarrow> syscall \<Rightarrow> bool" where
  "allowed d m (CreateDirAll k) \<longleftrightarrow> k = d"
| "allowed d m (Metadata k) \<longleftrightarrow> True"
| "allowed d m (SetMode k md) \<longleftrightarrow>
     k = d \<or> (k = sock_key d \<and> holding m \<and> md = mode_0600 \<and> (\<exists>h. bd m = Bound h))"
| "allowed d m (OpenFile k) \<longleftrightarrow> k = lock_key d \<and> lk m = Unlocked"
| "allowed d m (TryLock h) \<longleftrightarrow> lk m = Opened h"
| "allowed d m (Close h) \<longleftrightarrow> h \<in> own m"
| "allowed d m (RemoveFile k) \<longleftrightarrow> k = sock_key d \<and> holding m"
| "allowed d m (BindSocket k) \<longleftrightarrow> k = sock_key d \<and> holding m"
| "allowed d m (AcceptLoop h cp) \<longleftrightarrow> holding m \<and> bd m = Narrowed h"
| "allowed d m (WriteFile k t) \<longleftrightarrow> False"
| "allowed d m (Rename a b) \<longleftrightarrow> False"
| "allowed d m (ReadFile k) \<longleftrightarrow> False"

fun observe :: "fpath \<Rightarrow> syscall \<Rightarrow> answer \<Rightarrow> monitor \<Rightarrow> monitor" where
  "observe d (OpenFile k) (Handle h) m = m\<lparr>own := insert h (own m), lk := Opened h\<rparr>"
| "observe d (BindSocket k) (Handle h) m = m\<lparr>own := insert h (own m), bd := Bound h\<rparr>"
| "observe d (TryLock h) (LockIs b) m = (if b then m\<lparr>lk := Holding h, bd := Unbound\<rparr> else m)"
| "observe d (RemoveFile k) r m = m\<lparr>bd := Unbound\<rparr>"
| "observe d (SetMode k md) r m =
     (if k = sock_key d \<and> (\<forall>e. r \<noteq> Failed e)
      then m\<lparr>bd := (case bd m of Bound h \<Rightarrow> Narrowed h | b \<Rightarrow> b)\<rparr> else m)"
| "observe d (Close h) r m = (if lk m = Opened h \<or> lk m = Holding h then m\<lparr>lk := Unlocked\<rparr> else m)"
| "observe d c r m = m"

definition disciplined :: "fpath \<Rightarrow> (monitor \<Rightarrow> 'a \<Rightarrow> bool) \<Rightarrow> 'a prog \<Rightarrow> monitor \<Rightarrow> bool" where
  "disciplined d fin p m = along (allowed d) (observe d) fin p m"

lemma disciplined_Ret [simp]: "disciplined d fin (Ret a) m = fin m a"
  by (simp add: disciplined_def)

lemma disciplined_Call:
  "disciplined d fin (Call c k) m =
     (allowed d m c \<and> (\<forall>r. disciplined d fin (k r) (observe d c r m)))"
  by (simp add: disciplined_def)

lemma disciplined_bind:
  "disciplined d (\<lambda>m a. disciplined d fin (f a) m) p m \<Longrightarrow> disciplined d fin (prog_bind p f) m"
  unfolding disciplined_def by (rule along_bind)

lemma disciplined_mono:
  "disciplined d fin p m \<Longrightarrow> (\<And>m a. fin m a \<Longrightarrow> fin' m a) \<Longrightarrow> disciplined d fin' p m"
  unfolding disciplined_def by (rule along_mono)

lemma disciplined_io_bind:
  assumes "disciplined d (\<lambda>m x. case x of Inl e \<Rightarrow> fin m (Inl e) | Inr a \<Rightarrow> disciplined d fin (f a) m) p m"
  shows "disciplined d fin (io_bind p f) m"
  unfolding io_bind_def
  by (rule disciplined_bind, rule disciplined_mono [OF assms]) (auto split: sum.splits)

lemma disciplined_ignoring:
  "disciplined d fin (ignoring c p) m =
     (allowed d m c \<and> (\<forall>r. disciplined d fin p (observe d c r m)))"
  by (simp add: ignoring_def disciplined_Call)

subsection \<open>The functions of the source\<close>

lemma prepare_disciplined:
  assumes "parent_key (path_key path) = Some d" "\<And>r. fin m r"
  shows "disciplined d fin (prepare_directory path) m"
  using assms
  by (auto simp: prepare_directory_def restrict_to_current_user_def io_call_def io_ret_def
      disciplined_Call split: answer.split)

definition acquired :: "monitor \<Rightarrow> monitor \<Rightarrow> io_error + outcome \<Rightarrow> bool" where
  "acquired m m' x = (case x of
     Inr (Acquired g) \<Rightarrow> m' = m\<lparr>own := insert (guard_handle g) (own m), lk := Holding (guard_handle g), bd := Unbound\<rparr>
   | _ \<Rightarrow> True)"

lemma lock_file_disciplined:
  assumes "path_key path = lock_key d" "lk m = Unlocked"
  shows "disciplined d (acquired m) (lock_file path) m"
  using assms
  by (auto simp: lock_file_def io_ret_def disciplined_Call disciplined_ignoring acquired_def
      split: answer.split bool.split)

lemma acquire_disciplined:
  assumes "path_key path = lock_key d" "lk m = Unlocked"
  shows "disciplined d (acquired m) (acquire path) m"
  unfolding acquire_def
proof (rule disciplined_io_bind, rule prepare_disciplined)
  show "parent_key (path_key path) = Some d" using assms by (simp add: lock_key_def)
  show "case r of Inl e \<Rightarrow> acquired m m (Inl e) | Inr a \<Rightarrow> disciplined d (acquired m) (lock_file path) m" for r
    using lock_file_disciplined [OF assms] by (simp add: acquired_def split: sum.split)
qed

text \<open>After a bind, the lock is still held, and on success the socket is this process's own.\<close>

definition bound_by :: "monitor \<Rightarrow> monitor \<Rightarrow> io_error + listener \<Rightarrow> bool" where
  "bound_by m m' x = (own m \<subseteq> own m' \<and> (case x of
     Inl e \<Rightarrow> True
   | Inr l \<Rightarrow> lk m' = lk m \<and> bd m' = Narrowed (listener_handle l) \<and> listener_handle l \<in> own m'))"

lemma endpoint_bind_disciplined:
  assumes "path_key address = sock_key d" "holding m"
  shows "disciplined d (\<lambda>m' x. bound_by m m' x \<and>
      (case x of Inl e \<Rightarrow> True | Inr l \<Rightarrow> listener_address l = address)) (endpoint_bind address) m"
proof -
  let ?fin = "\<lambda>m' x. bound_by m m' x \<and>
      (case x of Inl e \<Rightarrow> True | Inr l \<Rightarrow> listener_address l = address)"
  have sock: "disciplined d ?fin (bind_socket address) (m\<lparr>bd := Unbound\<rparr>)"
    using assms
    by (auto simp: bind_socket_def narrow_socket_def io_ret_def disciplined_Call disciplined_ignoring
        bound_by_def holding_def split: answer.split)
  have rest: "disciplined d ?fin (Call (RemoveFile (path_key address)) (\<lambda>r. case r of
       Failed e \<Rightarrow> (if io_kind e = NotFound then bind_socket address else Ret (Err e))
     | _ \<Rightarrow> bind_socket address)) m"
    using assms sock by (auto simp: disciplined_Call bound_by_def split: answer.split)
  show ?thesis
    unfolding endpoint_bind_def
  proof (rule disciplined_io_bind, rule prepare_disciplined)
    show "parent_key (path_key address) = Some d" using assms by (simp add: sock_key_def)
    show "case x of Inl e \<Rightarrow> ?fin m (Inl e) | Inr a \<Rightarrow> disciplined d ?fin
      (Call (RemoveFile (path_key address)) (\<lambda>r. case r of
         Failed e \<Rightarrow> (if io_kind e = NotFound then bind_socket address else Ret (Err e))
       | _ \<Rightarrow> bind_socket address)) m" for x
      using rest by (auto simp: bound_by_def split: sum.split)
  qed
qed

lemma keys_of_home:
  assumes "run_directory home = Ok dir"
  shows "\<exists>a l. endpoint_address home = Ok a \<and> lock_path home = Ok l \<and>
    path_key a = sock_key (path_key dir) \<and> path_key l = lock_key (path_key dir)"
  using assms by (auto simp: endpoint_address_def lock_path_def path_key_join sock_key_def lock_key_def)

text \<open>What a successful start leaves the process with.\<close>

definition started_by :: "fpath \<Rightarrow> monitor \<Rightarrow> io_error + started \<Rightarrow> bool" where
  "started_by d m x = (case x of
     Inr (Running a l g) \<Rightarrow> path_key a = sock_key d \<and> listener_address l = a \<and>
       lk m = Holding (guard_handle g) \<and> bd m = Narrowed (listener_handle l) \<and>
       guard_handle g \<in> own m \<and> listener_handle l \<in> own m
   | _ \<Rightarrow> True)"

lemma start_disciplined:
  assumes "run_directory home = Ok dir"
  shows "disciplined (path_key dir) (started_by (path_key dir)) (daemon_start home) fresh_monitor"
proof -
  obtain a l where al: "endpoint_address home = Ok a" "lock_path home = Ok l"
      "path_key a = sock_key (path_key dir)" "path_key l = lock_key (path_key dir)"
    using keys_of_home [OF assms] by blast
  let ?fin = "started_by (path_key dir)"
  have bind: "disciplined (path_key dir) ?fin
      (prog_bind (endpoint_bind a) (\<lambda>b. case b of
         Inl e \<Rightarrow> guard_drop g (Ret (Err e))
       | Inr l \<Rightarrow> io_ret (Running a l g))) m"
    if "m = fresh_monitor\<lparr>own := insert (guard_handle g) (own fresh_monitor),
      lk := Holding (guard_handle g), bd := Unbound\<rparr>"
    for m g
  proof -
    have "holding m" using that by (simp add: holding_def)
    from endpoint_bind_disciplined [OF al(3) this] show ?thesis
      by (rule disciplined_bind [OF disciplined_mono])
        (auto simp: that al(3) bound_by_def started_by_def guard_drop_def disciplined_ignoring
          io_ret_def split: sum.splits)
  qed
  have acq: "disciplined (path_key dir) (acquired fresh_monitor) (acquire l) fresh_monitor"
    by (rule acquire_disciplined [OF al(4)]) (simp add: fresh_monitor_def)
  show ?thesis
    unfolding daemon_start_def
    using disciplined_mono [OF acq] bind al(1,2)
    by (auto intro!: disciplined_io_bind disciplined_mono [OF acq]
        simp: acquired_def started_by_def io_ret_def split: sum.splits outcome.splits)
qed

lemma is_running_disciplined:
  assumes "run_directory home = Ok dir"
  shows "disciplined (path_key dir) (\<lambda>m x. True) (is_running home) fresh_monitor"
proof -
  obtain l where l: "lock_path home = Ok l" "path_key l = lock_key (path_key dir)"
    using keys_of_home [OF assms] by blast
  have acq: "disciplined (path_key dir) (acquired fresh_monitor) (acquire l) fresh_monitor"
    by (rule acquire_disciplined [OF l(2)]) (simp add: fresh_monitor_def)
  show ?thesis
    unfolding is_running_def
    using l(1)
    by (auto intro!: disciplined_io_bind disciplined_mono [OF acq]
        simp: acquired_def guard_drop_def disciplined_ignoring io_ret_def split: sum.splits outcome.splits)
qed

lemma run_daemon_disciplined:
  assumes "started_by d m (Inr (Running a l g))"
  shows "disciplined d (\<lambda>m x. True) (run_daemon home a l g) m"
  using assms
  by (auto simp: run_daemon_def started_by_def listener_drop_def guard_drop_def disciplined_ignoring
      disciplined_Call holding_def Let_def split: sum.split answer.split)

lemma main_disciplined:
  assumes "run_directory home = Ok dir"
  shows "disciplined (path_key dir) (\<lambda>m x. True) (main_prog home arguments) fresh_monitor"
proof -
  have "disciplined (path_key dir) (\<lambda>m x. True) (run_main home) fresh_monitor"
    unfolding run_main_def
    by (rule disciplined_bind, rule disciplined_mono [OF start_disciplined [OF assms]])
      (auto intro: run_daemon_disciplined split: sum.splits started.splits)
  moreover have "disciplined (path_key dir) (\<lambda>m x. True) (status_main home) fresh_monitor"
    unfolding status_main_def
    by (rule disciplined_bind, rule disciplined_mono [OF is_running_disciplined [OF assms]])
      (auto split: sum.splits bool.splits)
  ultimately show ?thesis by (simp add: main_prog_def Let_def)
qed

end
