(* ===== verification/System.thy ===== *)
theory System
  imports Pool Discipline
begin

section \<open>The daemon processes of one user\<close>

text \<open>
  Every process of this program whose run directory is the same, in the pool of \<open>Pool\<close>. The
  monitor of \<open>Discipline\<close> is tied to the files: a process that holds the lock by its monitor
  holds it in the file system, and the socket it bound is the one at the path. The
  interpretation \<open>daemons\<close> discharges the laws of \<open>pool\<close> for it.
\<close>

type_synonym procs = "nat \<Rightarrow> exit_report prog option"

subsection \<open>The invariant of a process\<close>

definition proc_inv :: "fpath \<Rightarrow> fs \<Rightarrow> nat \<Rightarrow> monitor \<Rightarrow> bool" where
  "proc_inv d s pid m =
     ((\<forall>h \<in> own m. h < next_fd s \<and> (\<forall>q k. fds s h = Some (q, k) \<longrightarrow> q = pid)) \<and>
      (\<forall>h. lk m = Opened h \<longrightarrow> fds s h = Some (pid, lock_key d)) \<and>
      (\<forall>h. lk m = Holding h \<longrightarrow> fds s h = Some (pid, lock_key d) \<and> holders s (lock_key d) = Some h) \<and>
      (\<forall>h. holding m \<longrightarrow> bd m = Bound h \<longrightarrow> (\<exists>md. nodes s (sock_key d) = Some (Sock md h))) \<and>
      (\<forall>h. holding m \<longrightarrow> bd m = Narrowed h \<longrightarrow> nodes s (sock_key d) = Some (Sock mode_0600 h)))"

lemma proc_invI:
  assumes "\<And>h. h \<in> own m \<Longrightarrow> h < next_fd s"
    "\<And>h q k. h \<in> own m \<Longrightarrow> fds s h = Some (q, k) \<Longrightarrow> q = pid"
    "\<And>h. lk m = Opened h \<Longrightarrow> fds s h = Some (pid, lock_key d)"
    "\<And>h. lk m = Holding h \<Longrightarrow> fds s h = Some (pid, lock_key d)"
    "\<And>h. lk m = Holding h \<Longrightarrow> holders s (lock_key d) = Some h"
    "\<And>h. holding m \<Longrightarrow> bd m = Bound h \<Longrightarrow> \<exists>md. nodes s (sock_key d) = Some (Sock md h)"
    "\<And>h. holding m \<Longrightarrow> bd m = Narrowed h \<Longrightarrow> nodes s (sock_key d) = Some (Sock mode_0600 h)"
  shows "proc_inv d s pid m"
  unfolding proc_inv_def using assms by blast

lemma proc_invD:
  assumes "proc_inv d s pid m"
  shows "h \<in> own m \<Longrightarrow> h < next_fd s"
    "h \<in> own m \<Longrightarrow> fds s h = Some (q, k) \<Longrightarrow> q = pid"
    "lk m = Opened h \<Longrightarrow> fds s h = Some (pid, lock_key d)"
    "lk m = Holding h \<Longrightarrow> fds s h = Some (pid, lock_key d)"
    "lk m = Holding h \<Longrightarrow> holders s (lock_key d) = Some h"
    "holding m \<Longrightarrow> bd m = Bound h \<Longrightarrow> \<exists>md. nodes s (sock_key d) = Some (Sock md h)"
    "holding m \<Longrightarrow> bd m = Narrowed h \<Longrightarrow> nodes s (sock_key d) = Some (Sock mode_0600 h)"
  using assms unfolding proc_inv_def by blast+

lemma holding_iff: "holding m \<longleftrightarrow> (\<exists>h. lk m = Holding h)"
  by (cases "lk m") (auto simp: holding_def)

lemma one_holder:
  "proc_inv d s pid m \<Longrightarrow> proc_inv d s pid' m' \<Longrightarrow> holding m \<Longrightarrow> holding m' \<Longrightarrow> pid = pid'"
  by (auto simp: proc_inv_def holding_iff)

lemma sock_key_not_prefix: "sock_key d \<notin> set (path_prefixes d)"
  by (auto simp: path_prefixes_def sock_key_def child_key_def dest: arg_cong [where f = length])

lemma make_dirs_sock [simp]:
  "snd (make_dirs m (path_prefixes d) ns) (sock_key d) = ns (sock_key d)"
  "snd (make_dirs m (take n (path_prefixes d)) ns) (sock_key d) = ns (sock_key d)"
  using sock_key_not_prefix [of d] in_set_takeD by (metis make_dirs_other)+

text \<open>
  What a call leaves alone: a call of the discipline changes the handles of its own process
  only, and the socket's path only under the lock.
\<close>

definition frame_ok :: "fpath \<Rightarrow> nat \<Rightarrow> monitor \<Rightarrow> fs \<Rightarrow> fs \<Rightarrow> bool" where
  "frame_ok d pid m s s' =
     (next_fd s \<le> next_fd s' \<and>
      (\<forall>h q k. fds s h = Some (q, k) \<longrightarrow> q \<noteq> pid \<longrightarrow> fds s' h = Some (q, k)) \<and>
      (\<forall>h q k. fds s' h = Some (q, k) \<longrightarrow> fds s h = Some (q, k) \<or> (q = pid \<and> h = next_fd s)) \<and>
      (\<forall>h q k. holders s k = Some h \<longrightarrow> fds s h = Some (q, k) \<longrightarrow> q \<noteq> pid \<longrightarrow> holders s' k = Some h) \<and>
      (holding m \<or> nodes s' (sock_key d) = nodes s (sock_key d)))"

lemma frame_ok_refl: "frame_ok d pid m s s"
  by (simp add: frame_ok_def)

lemma proc_inv_other:
  assumes "frame_ok d pid m s s'" "proc_inv d s pid m" "proc_inv d s pid' m'" "pid' \<noteq> pid" "fs_inv s"
  shows "proc_inv d s' pid' m'"
proof -
  have sock: "nodes s' (sock_key d) = nodes s (sock_key d)" if "holding m'"
    using assms(1,4) one_holder [OF assms(2,3) _ that] by (auto simp: frame_ok_def)
  have own: "h < next_fd s' \<and> (\<forall>q k. fds s' h = Some (q, k) \<longrightarrow> q = pid')" if "h \<in> own m'" for h
  proof -
    from that assms(3) have "h < next_fd s" "\<forall>q k. fds s h = Some (q, k) \<longrightarrow> q = pid'"
      by (auto simp: proc_inv_def)
    with assms(1) show ?thesis unfolding frame_ok_def by fastforce
  qed
  have lock: "fds s' h = Some (pid', lock_key d)" if "lk m' = Opened h \<or> lk m' = Holding h" for h
    using that assms(1,3,4) unfolding frame_ok_def proc_inv_def by blast
  have held: "holders s' (lock_key d) = Some h" if "lk m' = Holding h" for h
    using that assms(1,3,4) unfolding frame_ok_def proc_inv_def by blast
  from assms(3) sock own lock held show ?thesis by (auto simp: proc_inv_def)
qed

subsection \<open>Each call keeps the invariant\<close>

definition keeps :: "fpath \<Rightarrow> nat \<Rightarrow> monitor \<Rightarrow> fs \<Rightarrow> monitor \<Rightarrow> fs \<Rightarrow> bool" where
  "keeps d pid m s m' s' = (fs_inv s' \<and> frame_ok d pid m s s' \<and> proc_inv d s' pid m')"

text \<open>A call that changes nodes away from the socket, and no handle.\<close>

lemma keeps_nodes:
  assumes "fs_inv s" "proc_inv d s pid m" "ns (sock_key d) = nodes s (sock_key d)"
  shows "keeps d pid m s m (s\<lparr>nodes := ns\<rparr>)"
  using assms by (simp add: keeps_def fs_inv_def frame_ok_def proc_inv_def)

lemma keeps_same:
  assumes "fs_inv s" "proc_inv d s pid m"
  shows "keeps d pid m s m s"
  using assms by (simp add: keeps_def frame_ok_refl)

text \<open>A new handle.\<close>

lemma keeps_open:
  assumes inv: "fs_inv s" "proc_inv d s pid m"
    and ns: "holding m \<or> ns (sock_key d) = nodes s (sock_key d)"
    and m': "own m' = insert (next_fd s) (own m)"
      "lk m' = Opened (next_fd s) \<and> k = lock_key d \<or> lk m' = lk m"
    and bd: "\<And>h. holding m' \<Longrightarrow> bd m' = Bound h \<Longrightarrow> \<exists>md. ns (sock_key d) = Some (Sock md h)"
      "\<And>h. holding m' \<Longrightarrow> bd m' = Narrowed h \<Longrightarrow> ns (sock_key d) = Some (Sock mode_0600 h)"
  shows "keeps d pid m s m' (snd (open_fd pid k (s\<lparr>nodes := ns\<rparr>)))"
proof -
  have fresh: "fds s (next_fd s) = None" using inv(1) by (simp add: fs_inv_def)
  have "lk m = Opened h \<or> lk m = Holding h \<Longrightarrow> h \<noteq> next_fd s" for h
    using inv(2) fresh by (auto simp: proc_inv_def)
  moreover have "h \<noteq> next_fd s" if "holders s k' = Some h" for h k'
    using that inv(1) fresh unfolding fs_inv_def by (metis option.distinct(1))
  ultimately show ?thesis
    using assms fresh
    by (auto simp: keeps_def open_fd_def fs_inv_def frame_ok_def proc_inv_def)
qed

lemma keeps_close:
  assumes inv: "fs_inv s" "proc_inv d s pid m" and own: "h \<in> own m"
  shows "keeps d pid m s (observe d (Close h) Done m) (close_fd h s)"
proof -
  have mine: "fds s h = Some (q, k) \<Longrightarrow> q = pid" for q k
    using inv(2) own by (auto simp: proc_inv_def)
  then have frame: "frame_ok d pid m s (close_fd h s)"
    by (auto simp: frame_ok_def close_fd_def)
  have inv': "fs_inv (close_fd h s)"
  proof -
    have "\<exists>q. fds (close_fd h s) h' = Some (q, k)" if "holders (close_fd h s) k = Some h'" for h' k
    proof -
      from that have h': "holders s k = Some h'" "h' \<noteq> h"
        by (auto simp: close_fd_def split: if_splits)
      from fs_inv_holder [OF inv(1) h'(1)] obtain q where "fds s h' = Some (q, k)" by blast
      with h'(2) have "fds (close_fd h s) h' = Some (q, k)" by (simp add: close_fd_def)
      then show ?thesis by blast
    qed
    moreover have "fds (close_fd h s) h' = None" if "next_fd (close_fd h s) \<le> h'" for h'
      using that inv(1) unfolding fs_inv_def by (simp add: close_fd_def)
    ultimately show ?thesis unfolding fs_inv_def by blast
  qed
  let ?m = "observe d (Close h) Done m"
  have m: "own ?m = own m" "bd ?m = bd m" "holding ?m \<Longrightarrow> holding m"
    "\<And>x. lk ?m = Opened x \<Longrightarrow> lk m = Opened x \<and> x \<noteq> h"
    "\<And>x. lk ?m = Holding x \<Longrightarrow> lk m = Holding x \<and> x \<noteq> h"
    by (auto simp: holding_def split: if_splits)
  have fd: "fds (close_fd h s) x = (if x = h then None else fds s x)"
    "nodes (close_fd h s) = nodes s" "next_fd (close_fd h s) = next_fd s" for x
    by (simp_all add: close_fd_def)
  have held: "holders (close_fd h s) k = Some x" if "holders s k = Some x" "x \<noteq> h" for k x
    using that by (simp add: close_fd_def)
  have "proc_inv d (close_fd h s) pid ?m"
    by (rule proc_invI, unfold fd m(1,2))
      (auto dest!: m(3-5) dest: proc_invD [OF inv(2)] intro: held split: if_splits
        simp del: observe.simps)
  with frame inv' show ?thesis unfolding keeps_def by blast
qed

lemma keeps_lock:
  assumes inv: "fs_inv s" "proc_inv d s pid m" and lk: "lk m = Opened h"
    and free: "holders s (lock_key d) = None \<or> holders s (lock_key d) = Some h"
  shows "keeps d pid m s (m\<lparr>lk := Holding h, bd := Unbound\<rparr>) (s\<lparr>holders := (holders s)(lock_key d \<mapsto> h)\<rparr>)"
proof -
  have fd: "fds s h = Some (pid, lock_key d)" using inv(2) lk by (simp add: proc_inv_def)
  with inv free lk show ?thesis
    by (auto simp: keeps_def fs_inv_def frame_ok_def proc_inv_def holding_iff)
qed

lemma keeps_socket:
  assumes inv: "fs_inv s" "proc_inv d s pid m" and hold: "holding m"
    and bd: "\<And>h. b = Bound h \<Longrightarrow> \<exists>md. ns (sock_key d) = Some (Sock md h)"
      "\<And>h. b = Narrowed h \<Longrightarrow> ns (sock_key d) = Some (Sock mode_0600 h)"
  shows "keeps d pid m s (m\<lparr>bd := b\<rparr>) (s\<lparr>nodes := ns\<rparr>)"
  using assms by (simp add: keeps_def fs_inv_def frame_ok_def proc_inv_def holding_def)

lemma exec_fault_others:
  "(\<forall>k t. c \<noteq> WriteFile k t) \<Longrightarrow> (\<forall>k. c \<noteq> CreateDirAll k) \<Longrightarrow> (\<forall>h. c \<noteq> Close h) \<Longrightarrow>
   exec_fault pid e n c s = (Failed e, s)"
  by (cases c; cases n) (simp_all add: exec_fault.simps)

lemma observe_Failed:
  "(\<forall>k. c \<noteq> RemoveFile k) \<Longrightarrow> (\<forall>h. c \<noteq> Close h) \<Longrightarrow> observe d c (Failed e) m = m"
  by (cases c) auto

lemma unbound_keeps:
  "keeps d pid m s m s' \<Longrightarrow> keeps d pid m s (m\<lparr>bd := Unbound\<rparr>) s'"
  by (simp add: keeps_def proc_inv_def holding_def)

text \<open>A call that fails keeps the state, but for what a partial one has done.\<close>

lemma exec_fault_keeps:
  assumes inv: "fs_inv s" "proc_inv d s pid m" and ok: "allowed d m c"
    and run: "exec_fault pid e n c s = (r, s')"
  shows "keeps d pid m s (observe d c r m) s'"
proof (cases c)
  case (CreateDirAll k)
  with ok run show ?thesis
    using keeps_nodes [OF inv] keeps_same [OF inv] by (cases n) (auto simp: exec_fault.simps)
next
  case (Close h)
  with ok run keeps_close [OF inv, of h] show ?thesis by (cases n) (auto simp: exec_fault.simps)
next
  case (RemoveFile k)
  with run have "s' = s" by (simp add: exec_fault_others)
  with RemoveFile unbound_keeps [OF keeps_same [OF inv]] show ?thesis by simp
qed (use ok run keeps_same [OF inv] in \<open>auto simp: exec_fault_others\<close>)

lemma exec_ok_keeps:
  assumes inv: "fs_inv s" "proc_inv d s pid m" and ok: "allowed d m c"
    and run: "exec_ok pid c s = (r, s')"
  shows "keeps d pid m s (observe d c r m) s'"
proof (cases c)
  case (CreateDirAll k)
  with ok run show ?thesis
    using keeps_nodes [OF inv] by (auto simp: exec_ok.simps Let_def case_prod_beta)
next
  case (Metadata k)
  with run show ?thesis using keeps_same [OF inv] by (auto simp: exec_ok.simps split: option.splits)
next
  case (AcceptLoop h cp)
  with run show ?thesis using keeps_same [OF inv] by (auto simp: exec_ok.simps)
next
  case (Close h)
  with ok run keeps_close [OF inv, of h] show ?thesis by (auto simp: exec_ok.simps)
next
  case (TryLock h)
  with ok inv(2) have "lk m = Opened h" "fds s h = Some (pid, lock_key d)"
    by (simp_all add: proc_inv_def)
  with run TryLock keeps_same [OF inv] keeps_lock [OF inv, of h] show ?thesis
    by (auto simp: exec_ok.simps split: if_splits)
next
  case (SetMode k md)
  show ?thesis
  proof (cases "nodes s k")
    case None
    with run SetMode keeps_same [OF inv] show ?thesis by (auto simp: exec_ok.simps)
  next
    case (Some nd)
    let ?ns = "(nodes s)(k \<mapsto> set_node_mode md nd)"
    from run SetMode Some have r: "r = Done" "s' = s\<lparr>nodes := ?ns\<rparr>" by (auto simp: exec_ok.simps)
    show ?thesis
    proof (cases "k = d")
      case True
      with r SetMode keeps_nodes [OF inv, of ?ns] show ?thesis by simp
    next
      case False
      with ok SetMode obtain h where h: "k = sock_key d" "holding m" "md = mode_0600" "bd m = Bound h" by auto
      with inv(2) Some have "\<exists>md'. nd = Sock md' h" by (auto simp: proc_inv_def)
      with keeps_socket [OF inv h(2), of "Narrowed h" ?ns] r SetMode h show ?thesis by auto
    qed
  qed
next
  case (RemoveFile k)
  with ok have k: "k = sock_key d" "holding m" by simp_all
  have "s' = s \<or> s' = s\<lparr>nodes := (nodes s)(k := None)\<rparr>"
    using run RemoveFile by (auto simp: exec_ok.simps split: option.splits node.splits)
  with RemoveFile unbound_keeps [OF keeps_same [OF inv]] keeps_socket [OF inv k(2), of Unbound]
  show ?thesis by auto
next
  case (OpenFile k)
  with ok have k: "k = lock_key d" "lk m = Unlocked" by simp_all
  let ?m = "m\<lparr>own := insert (next_fd s) (own m), lk := Opened (next_fd s)\<rparr>"
  have new: "keeps d pid m s ?m (snd (open_fd pid k (s\<lparr>nodes := ns\<rparr>)))"
    if "ns (sock_key d) = nodes s (sock_key d)" for ns
    by (rule keeps_open [OF inv]) (use that k in \<open>auto simp: holding_def\<close>)
  from new [of "nodes s"] new [of "(nodes s)(k \<mapsto> File (umasked s) [])"] run OpenFile k keeps_same [OF inv]
  show ?thesis
    by (auto simp: exec_ok.simps open_fd_def split: option.splits node.splits if_splits)
next
  case (BindSocket k)
  with ok have k: "k = sock_key d" "holding m" by simp_all
  let ?m = "m\<lparr>own := insert (next_fd s) (own m), bd := Bound (next_fd s)\<rparr>"
  have "keeps d pid m s ?m
      (snd (open_fd pid k (s\<lparr>nodes := (nodes s)(k \<mapsto> Sock (umasked s) (next_fd s))\<rparr>)))"
    by (rule keeps_open [OF inv]) (use k in auto)
  with run BindSocket k keeps_same [OF inv] show ?thesis
    by (auto simp: exec_ok.simps open_fd_def split: if_splits)
qed (use ok in simp_all)

lemma exec_keeps:
  assumes "fs_inv s" "proc_inv d s pid m" "allowed d m c" "exec pid f c s = (r, s')"
  shows "keeps d pid m s (observe d c r m) s'"
proof (cases f)
  case None
  with assms exec_ok_keeps show ?thesis by simp
next
  case (Some x)
  with assms exec_fault_keeps show ?thesis by (cases x) simp
qed

subsection \<open>The pool\<close>

text \<open>
  The processes of a user: \<open>main\<close> with any arguments, in an environment whose \<open>HOME\<close> leads to
  the run directory \<open>d\<close>, or to none.
\<close>

definition user_process :: "fpath \<Rightarrow> nat \<Rightarrow> exit_report prog \<Rightarrow> bool" where
  "user_process d pid p = (\<exists>home arguments. p = main_prog home arguments \<and>
     (case run_directory home of Inl e \<Rightarrow> True | Inr dir \<Rightarrow> path_key dir = d))"

lemma kill_proc_inv:
  assumes "fs_inv s" "proc_inv d s q m" "q \<noteq> pid"
  shows "proc_inv d (kill pid s) q m"
  using assms(2,3) unfolding proc_inv_def kill_rest kill_fds kill_holders [OF assms(1)] by blast

lemma proc_inv_fresh: "proc_inv d s pid fresh_monitor"
  unfolding proc_inv_def fresh_monitor_def holding_def by simp

lemma user_process_disciplined:
  assumes "user_process d pid p"
  shows "along (allowed d) (observe d) (\<lambda>_ _. True) p fresh_monitor"
proof -
  obtain home arguments where p: "p = main_prog home arguments"
      "case run_directory home of Inl e \<Rightarrow> True | Inr dir \<Rightarrow> path_key dir = d"
    using assms by (auto simp: user_process_def)
  show ?thesis
  proof (cases "run_directory home")
    case (Inl e)
    then have "\<exists>rep. p = Ret rep"
      by (auto simp: p(1) main_prog_def run_main_def status_main_def daemon_start_def is_running_def
          endpoint_address_def lock_path_def Let_def)
    then show ?thesis by auto
  next
    case (Inr dir)
    with p main_disciplined [OF Inr, of arguments] show ?thesis by (simp add: disciplined_def)
  qed
qed

interpretation daemons: pool "user_process d" "\<lambda>_. allowed d" "\<lambda>_. observe d" "\<lambda>_ _. True"
  fresh_monitor fs_inv "proc_inv d" for d
proof unfold_locales
  fix pid m c f r s s'
  assume inv: "fs_inv s" "proc_inv d s pid m" "allowed d m c" "exec pid f c s = (r, s')"
  have keep: "fs_inv s'" "frame_ok d pid m s s'" "proc_inv d s' pid (observe d c r m)"
    using exec_keeps [OF inv] unfolding keeps_def by blast+
  show "fs_inv s'" by (rule keep(1))
  show "proc_inv d s' pid (observe d c r m)" by (rule keep(3))
  show "proc_inv d s' q n" if "proc_inv d s q n" "q \<noteq> pid" for q n
    using proc_inv_other [OF keep(2) inv(2) that inv(1)] .
qed (use user_process_disciplined proc_inv_fresh kill_fs_inv kill_proc_inv in blast)+

text \<open>What holds of a process in a reachable state.\<close>

lemma reachable_process:
  assumes "pool_reach (user_process d) s0 (s, P)" "P pid = Some (Call c k)"
  obtains m where "allowed d m c" "proc_inv d s pid m"
proof -
  have "fs_inv s0"
    using assms(1) by (induction rule: pool_reach.induct) (auto intro: quiet_fs_inv)
  then have "daemons.pool_inv d (s, P)" by (rule daemons.reach_inv [OF _ assms(1)])
  from daemons.pool_inv_call [OF this assms(2)] that show thesis by blast
qed

lemma reachable_fs_inv:
  assumes "pool_reach (user_process d) s0 (s, P)"
  shows "fs_inv s"
proof -
  have "fs_inv s0"
    using assms(1) by (induction rule: pool_reach.induct) (auto intro: quiet_fs_inv)
  then show ?thesis by (rule daemons.pool_inv_files [OF daemons.reach_inv [OF _ assms]])
qed

text \<open>What a serving process has: the lock, and the socket at the path.\<close>

lemma serving_process:
  assumes "pool_reach (user_process d) s0 (s, P)" "P pid = Some (Call (AcceptLoop h cp) k)"
  shows "\<exists>g. holders s (lock_key d) = Some g \<and> fds s g = Some (pid, lock_key d) \<and>
    nodes s (sock_key d) = Some (Sock mode_0600 h)"
proof -
  obtain m where m: "allowed d m (AcceptLoop h cp)" "proc_inv d s pid m"
    by (rule reachable_process [OF assms])
  then show ?thesis by (auto simp: proc_inv_def holding_iff)
qed

end
