(* ===== verification/Alone.thy ===== *)
theory Alone
  imports FileSystem
begin

section \<open>A program alone, with nothing refused\<close>

text \<open>
  Facts for evaluating a program by hand on any file system: \<open>run\<close> with an empty script of
  faults goes through a bind, and \<open>create_dir_all\<close> succeeds when no file is in its way.
\<close>

subsection \<open>Directories\<close>

definition dirs_ok :: "fpath \<Rightarrow> (fpath \<Rightarrow> node option) \<Rightarrow> bool" where
  "dirs_ok d ns = (\<forall>k \<in> set (path_prefixes d). ns k = None \<or> (\<exists>m. ns k = Some (Dir m)))"

lemma dirs_ok_same: "dirs_ok d ns \<Longrightarrow> \<forall>k \<in> set (path_prefixes d). ns' k = ns k \<Longrightarrow> dirs_ok d ns'"
  by (simp add: dirs_ok_def)

lemma make_dirs_keeps: "ns k = Some (Dir m') \<Longrightarrow> snd (make_dirs m ks ns) k = Some (Dir m')"
proof (induction m ks ns rule: make_dirs.induct)
  case (2 m x ks ns)
  show ?case
  proof (cases "ns x")
    case None
    with 2(3) have "(ns(x \<mapsto> Dir m)) k = Some (Dir m')" by auto
    from 2(1) [OF None this] None show ?thesis by (simp add: fun_upd_def)
  next
    case (Some n)
    with 2(2,3) show ?thesis by (cases n) auto
  qed
qed simp

lemma make_dirs_ok:
  assumes "\<forall>k \<in> set ks. ns k = None \<or> (\<exists>m. ns k = Some (Dir m))"
  shows "fst (make_dirs m ks ns) \<and> (\<forall>k \<in> set ks. \<exists>m'. snd (make_dirs m ks ns) k = Some (Dir m'))"
  using assms
proof (induction m ks ns rule: make_dirs.induct)
  case (2 m k ks ns)
  show ?case
  proof (cases "ns k")
    case None
    define ns' where "ns' = ns(k \<mapsto> Dir m)"
    then have "\<forall>x \<in> set ks. ns' x = None \<or> (\<exists>m'. ns' x = Some (Dir m'))" using 2(3) by auto
    then have "fst (make_dirs m ks ns') \<and> (\<forall>k \<in> set ks. \<exists>m'. snd (make_dirs m ks ns') k = Some (Dir m'))"
      using 2(1) [OF None] unfolding ns'_def fun_upd_def by blast
    moreover have "snd (make_dirs m ks ns') k = Some (Dir m)"
      by (rule make_dirs_keeps) (simp add: ns'_def)
    moreover have "make_dirs m (k # ks) ns = make_dirs m ks ns'" by (simp add: None ns'_def)
    ultimately show ?thesis by simp
  next
    case (Some n)
    with 2(3) obtain m' where "n = Dir m'" by auto
    with Some 2(2) [of "Dir m'" m'] 2(3) make_dirs_keeps [of ns k m'] show ?thesis by auto
  qed
qed simp

lemma own_prefix: "snd d \<noteq> [] \<Longrightarrow> d \<in> set (path_prefixes d)"
  by (cases d) (auto simp: path_prefixes_def image_iff Suc_le_eq intro!: bexI [of _ "length (snd d)"])

lemma dirs_made:
  assumes "dirs_ok d ns" "snd d \<noteq> []"
  shows "fst (make_dirs m (path_prefixes d) ns)"
    "dirs_ok d (snd (make_dirs m (path_prefixes d) ns))"
    "\<exists>m'. snd (make_dirs m (path_prefixes d) ns) d = Some (Dir m')"
proof -
  note d = own_prefix [OF assms(2)]
  note made = make_dirs_ok [OF assms(1) [unfolded dirs_ok_def], of m]
  show "fst (make_dirs m (path_prefixes d) ns)"
    using made by simp
  show "dirs_ok d (snd (make_dirs m (path_prefixes d) ns))" using made by (auto simp: dirs_ok_def)
  show "\<exists>m'. snd (make_dirs m (path_prefixes d) ns) d = Some (Dir m')" using made d by blast
qed

lemma run_bind:
  "run pid (prog_bind p f) [] s = (let (a, s') = run pid p [] s in run pid (f a) [] s')"
  by (induction p arbitrary: s) (auto simp: Let_def split: prod.split)

lemma run_io_bind:
  "run pid p [] s = (Ok a, s') \<Longrightarrow> run pid (io_bind p f) [] s = run pid (f a) [] s'"
  by (simp add: io_bind_def run_bind)

definition plain :: "node option \<Rightarrow> bool" where
  "plain n = (case n of None \<Rightarrow> True | Some (File m t) \<Rightarrow> True | _ \<Rightarrow> False)"

definition no_dir :: "node option \<Rightarrow> bool" where
  "no_dir n = (\<forall>m. n \<noteq> Some (Dir m))"

lemma has_dir_key [simp]: "is_dir s d \<Longrightarrow> has_dir s (child_key d name)"
  by (simp add: has_dir_def)

end
