(* ===== verification/StartProps.thy ===== *)
theory StartProps
  imports System Alone
begin

section \<open>A start with nothing in the way\<close>

text \<open>
  \<open>start\<close> and \<open>is_running\<close> run by one process while the operating system refuses nothing. What
  they answer depends on the lock alone: a socket file or a lock file that a crashed daemon left
  behind changes neither.
\<close>

subsection \<open>The run directory\<close>

text \<open>Preparing the directory succeeds and touches nothing outside the path to it.\<close>

lemma prepare_runs:
  assumes "parent_key (path_key path) = Some d" "dirs_ok d (nodes s)" "snd d \<noteq> []"
  obtains ns where "run pid (prepare_directory path) [] s = (Ok (), s\<lparr>nodes := ns\<rparr>)"
    "dirs_ok d ns" "is_dir (s\<lparr>nodes := ns\<rparr>) d" "\<forall>k. k \<notin> set (path_prefixes d) \<longrightarrow> ns k = nodes s k"
proof -
  let ?ns = "snd (make_dirs (umasked s) (path_prefixes d) (nodes s))"
  obtain m where m: "?ns d = Some (Dir m)" using dirs_made(3) [OF assms(2,3)] by blast
  note d = own_prefix [OF assms(3)]
  have other: "\<forall>k. k \<notin> set (path_prefixes d) \<longrightarrow> ?ns k = nodes s k" by (simp add: make_dirs_other)
  have made: "run pid (prepare_directory path) [] s =
      run pid (restrict_to_current_user d) [] (s\<lparr>nodes := ?ns\<rparr>)"
    using dirs_made(1) [OF assms(2,3), of "umasked s"] assms(1)
    by (simp add: prepare_directory_def io_call_def run_io_bind exec_ok.simps Let_def case_prod_beta io_bind_def)
  show thesis
  proof (cases "m AND mode_0777 \<noteq> mode_0700")
    case True
    then have "run pid (prepare_directory path) [] s = (Ok (), s\<lparr>nodes := ?ns(d \<mapsto> Dir mode_0700)\<rparr>)"
      by (simp add: made restrict_to_current_user_def exec_ok.simps m io_call_def)
    then show thesis
      by (rule that) (use dirs_made(2) [OF assms(2,3)] other d in \<open>auto simp: dirs_ok_def is_dir_def\<close>)
  next
    case False
    then have "run pid (prepare_directory path) [] s = (Ok (), s\<lparr>nodes := ?ns\<rparr>)"
      by (simp add: made restrict_to_current_user_def exec_ok.simps m io_ret_def)
    then show thesis
      by (rule that) (use dirs_made(2) [OF assms(2,3)] other m in \<open>auto simp: is_dir_def\<close>)
  qed
qed

subsection \<open>Taking the lock\<close>

lemma lock_key_not_prefix: "lock_key d \<notin> set (path_prefixes d)"
  by (auto simp: path_prefixes_def lock_key_def child_key_def dest: arg_cong [where f = length])

lemma fs_inv_next: "fs_inv s \<Longrightarrow> holders s k \<noteq> Some (next_fd s)"
  using fs_inv_holder [of s k "next_fd s"] by (auto simp: fs_inv_def)

lemma lock_file_runs:
  assumes "path_key path = lock_key d" "is_dir s d" "plain (nodes s (lock_key d))" "fs_inv s"
  obtains s' where
    "run pid (lock_file path) [] s =
       (if holders s (lock_key d) = None
        then (Ok (Acquired \<lparr>guard_handle = next_fd s, guard_path = path\<rparr>), s')
        else (Ok AlreadyHeld, s'))"
    "holders s' = (if holders s (lock_key d) = None
       then (holders s)(lock_key d \<mapsto> next_fd s) else holders s)"
    "\<forall>k. k \<noteq> lock_key d \<longrightarrow> nodes s' k = nodes s k"
proof -
  obtain s1 where opened: "exec_ok pid (OpenFile (lock_key d)) s = (Handle (next_fd s), s1)"
    and same: "\<forall>k. k \<noteq> lock_key d \<longrightarrow> nodes s1 k = nodes s k"
    and handle: "fds s1 (next_fd s) = Some (pid, lock_key d)" "holders s1 = holders s"
  proof -
    let ?ns = "if nodes s (lock_key d) = None then (nodes s)(lock_key d \<mapsto> File (umasked s) []) else nodes s"
    have "exec_ok pid (OpenFile (lock_key d)) s =
        (Handle (next_fd s), snd (open_fd pid (lock_key d) (s\<lparr>nodes := ?ns\<rparr>)))"
      using assms(2,3) by (auto simp: exec_ok.simps plain_def open_fd_def lock_key_def split: option.splits node.splits)
    then show thesis by (rule that) (simp_all add: open_fd_def)
  qed
  show thesis
  proof (cases "holders s (lock_key d)")
    case None
    then have "run pid (lock_file path) [] s =
        (Ok (Acquired \<lparr>guard_handle = next_fd s, guard_path = path\<rparr>),
         s1\<lparr>holders := (holders s)(lock_key d \<mapsto> next_fd s)\<rparr>)"
      using handle None by (simp add: lock_file_def assms(1) opened exec_ok.simps(5) io_ret_def)
    with None same show thesis
      by (intro that [of "s1\<lparr>holders := (holders s)(lock_key d \<mapsto> next_fd s)\<rparr>"]) simp_all
  next
    case (Some g)
    then have g: "g \<noteq> next_fd s" using fs_inv_next [OF assms(4), of "lock_key d"] by auto
    then have "run pid (lock_file path) [] s = (Ok AlreadyHeld, close_fd (next_fd s) s1)"
      using handle Some by (simp add: lock_file_def assms(1) opened exec_ok.simps(5,6) io_ret_def ignoring_def)
    moreover have "holders (close_fd (next_fd s) s1) = holders s"
      using fs_inv_next [OF assms(4)] by (simp add: close_fd_def handle(2))
    ultimately show thesis using same Some by (intro that [of "close_fd (next_fd s) s1"]) (simp_all add: close_fd_def)
  qed
qed

lemma run_directory_deep: "run_directory home = Ok dir \<Longrightarrow> snd (path_key dir) \<noteq> []"
  by (auto simp: run_directory_def path_key_join child_key_def split: option.splits if_splits)

lemma acquire_runs:
  assumes "path_key path = lock_key d" "snd d \<noteq> []" "dirs_ok d (nodes s)" "plain (nodes s (lock_key d))" "fs_inv s"
  obtains s' where
    "run pid (acquire path) [] s =
       (if holders s (lock_key d) = None
        then (Ok (Acquired \<lparr>guard_handle = next_fd s, guard_path = path\<rparr>), s')
        else (Ok AlreadyHeld, s'))"
    "holders s' = (if holders s (lock_key d) = None
       then (holders s)(lock_key d \<mapsto> next_fd s) else holders s)"
    "dirs_ok d (nodes s')" "nodes s' (sock_key d) = nodes s (sock_key d)"
proof -
  have d: "parent_key (path_key path) = Some d" using assms(1) by (simp add: lock_key_def)
  obtain ns where ns: "run pid (prepare_directory path) [] s = (Ok (), s\<lparr>nodes := ns\<rparr>)"
    "dirs_ok d ns" "is_dir (s\<lparr>nodes := ns\<rparr>) d" "\<forall>k. k \<notin> set (path_prefixes d) \<longrightarrow> ns k = nodes s k"
    by (rule prepare_runs [OF d assms(3,2)])
  let ?s = "s\<lparr>nodes := ns\<rparr>"
  have pl: "plain (nodes ?s (lock_key d))" "fs_inv ?s"
    using ns(4) [rule_format, OF lock_key_not_prefix] assms(4,5) by (simp_all add: fs_inv_def)
  obtain s' where s': "run pid (lock_file path) [] ?s =
       (if holders ?s (lock_key d) = None
        then (Ok (Acquired \<lparr>guard_handle = next_fd ?s, guard_path = path\<rparr>), s')
        else (Ok AlreadyHeld, s'))"
    "holders s' = (if holders ?s (lock_key d) = None
       then (holders ?s)(lock_key d \<mapsto> next_fd ?s) else holders ?s)"
    "\<forall>k. k \<noteq> lock_key d \<longrightarrow> nodes s' k = nodes ?s k"
    by (rule lock_file_runs [OF assms(1) ns(3) pl])
  have "\<forall>k \<in> set (path_prefixes d). nodes s' k = ns k"
    using s'(3) lock_key_not_prefix [of d] by (metis fs.select_convs(1) fs.surjective fs.update_convs(1))
  then have "dirs_ok d (nodes s')" by (rule dirs_ok_same [OF ns(2)])
  moreover have "nodes s' (sock_key d) = nodes s (sock_key d)"
    using s'(3) [rule_format, OF run_keys_distinct(1)] ns(4) [rule_format, OF sock_key_not_prefix] by simp
  ultimately show thesis using s'(1,2) by (intro that [of s']) (simp_all add: acquire_def run_io_bind [OF ns(1)])
qed

subsection \<open>Binding\<close>

lemma bind_runs:
  assumes "path_key address = sock_key d" "snd d \<noteq> []" "dirs_ok d (nodes s)" "no_dir (nodes s (sock_key d))"
  obtains l s' where "run pid (endpoint_bind address) [] s = (Ok l, s')" "listener_handle l = next_fd s"
    "listener_address l = address" "nodes s' (sock_key d) = Some (Sock mode_0600 (next_fd s))" "holders s' = holders s"
proof -
  have d: "parent_key (path_key address) = Some d" using assms(1) by (simp add: sock_key_def)
  obtain ns where ns: "run pid (prepare_directory address) [] s = (Ok (), s\<lparr>nodes := ns\<rparr>)"
    "is_dir (s\<lparr>nodes := ns\<rparr>) d" "\<forall>k. k \<notin> set (path_prefixes d) \<longrightarrow> ns k = nodes s k"
    by (rule prepare_runs [OF d assms(3,2)])
  have sock: "ns (sock_key d) = nodes s (sock_key d)" using ns(3) [rule_format, OF sock_key_not_prefix] .
  let ?s = "s\<lparr>nodes := ns(sock_key d := None)\<rparr>"
  have "is_dir ?s d" using ns(2) by (simp add: is_dir_def)
  then have free: "has_dir ?s (sock_key d)" by (simp add: sock_key_def)
  let ?l = "\<lparr>listener_handle = next_fd s, listener_address = address\<rparr>"
  let ?s' = "s\<lparr>nodes := ns(sock_key d \<mapsto> Sock mode_0600 (next_fd s)),
    fds := (fds s)(next_fd s \<mapsto> (pid, sock_key d)), next_fd := Suc (next_fd s)\<rparr>"
  have bound: "run pid (bind_socket address) [] ?s = (Ok ?l, ?s')"
    using free
    by (simp add: bind_socket_def narrow_socket_def assms(1) exec_ok.simps open_fd_def io_ret_def)
  have gone: "ns (sock_key d) = None \<Longrightarrow> ?s = s\<lparr>nodes := ns\<rparr>" by (simp add: fun_upd_idem)
  have "run pid (endpoint_bind address) [] s = run pid (bind_socket address) [] ?s"
    using assms(4) gone
    by (auto simp: endpoint_bind_def run_io_bind [OF ns(1)] assms(1) sock exec_ok.simps no_dir_def
        not_found_def split: option.split node.split)
  with bound show thesis by (intro that [of ?l ?s']) simp_all
qed

subsection \<open>The claims\<close>

text \<open>A machine whose run directory can be made, with nothing else than files in the way.\<close>

definition ready :: "fpath \<Rightarrow> fs \<Rightarrow> bool" where
  "ready d s = (fs_inv s \<and> dirs_ok d (nodes s) \<and> plain (nodes s (lock_key d)) \<and>
     no_dir (nodes s (sock_key d)))"

lemma start_runs:
  assumes "run_directory home = Ok dir" "ready (path_key dir) s"
  obtains
    (held) s' where "holders s (lock_key (path_key dir)) \<noteq> None"
      "run pid (daemon_start home) [] s =
         (Ok (AlreadyRunning (path_join dir ''nostdb.sock'') ServerAlreadyRunning), s')"
      "holders s' = holders s" "nodes s' (sock_key (path_key dir)) = nodes s (sock_key (path_key dir))"
  | (free) l g s' where "holders s (lock_key (path_key dir)) = None"
      "run pid (daemon_start home) [] s = (Ok (Running (path_join dir ''nostdb.sock'') l g), s')"
      "listener_address l = path_join dir ''nostdb.sock''"
      "holders s' (lock_key (path_key dir)) = Some (guard_handle g)"
      "nodes s' (sock_key (path_key dir)) = Some (Sock mode_0600 (listener_handle l))"
proof -
  let ?d = "path_key dir" and ?a = "path_join dir ''nostdb.sock''"
  obtain l where al: "endpoint_address home = Ok ?a" "lock_path home = Ok l"
    "path_key ?a = sock_key ?d" "path_key l = lock_key ?d"
    using keys_of_home [OF assms(1)] assms(1) by (auto simp: endpoint_address_def)
  have d: "snd ?d \<noteq> []" using run_directory_deep [OF assms(1)] .
  obtain s1 where s1: "run pid (acquire l) [] s =
       (if holders s (lock_key ?d) = None
        then (Ok (Acquired \<lparr>guard_handle = next_fd s, guard_path = l\<rparr>), s1)
        else (Ok AlreadyHeld, s1))"
    "holders s1 = (if holders s (lock_key ?d) = None
       then (holders s)(lock_key ?d \<mapsto> next_fd s) else holders s)"
    "dirs_ok ?d (nodes s1)" "nodes s1 (sock_key ?d) = nodes s (sock_key ?d)"
    using assms(2) unfolding ready_def by (metis acquire_runs [OF al(4) d])
  show thesis
  proof (cases "holders s (lock_key ?d)")
    case (Some g)
    with s1 show ?thesis
      by (intro held [of s1]) (auto simp: daemon_start_def al(1,2) io_ret_def run_io_bind [of _ "acquire l"])
  next
    case None
    have "no_dir (nodes s1 (sock_key ?d))" using assms(2) s1(4) by (simp add: ready_def)
    from bind_runs [OF al(3) d s1(3) this, of pid] obtain b s' where b:
      "run pid (endpoint_bind ?a) [] s1 = (Ok b, s')" "listener_handle b = next_fd s1"
      "listener_address b = ?a"
      "nodes s' (sock_key ?d) = Some (Sock mode_0600 (next_fd s1))" "holders s' = holders s1"
      by blast
    from None b s1(1,2) show ?thesis
      by (intro free [of b "\<lparr>guard_handle = next_fd s, guard_path = l\<rparr>" s'])
        (simp_all add: daemon_start_def al(1,2) run_io_bind [of _ "acquire l"] run_bind io_ret_def)
  qed
qed

text \<open>
  C14: a start that the operating system refuses nothing to. If the lock is free the daemon runs:
  it holds the lock, and the socket at the path is its own, for its user only, whatever file or
  socket a crashed daemon left there. If the lock is held the start reports the running daemon
  and leaves its socket and its lock alone.
\<close>

theorem start_asks_the_lock:
  assumes "run_directory home = Ok dir" "ready (path_key dir) s"
  shows "(case holders s (lock_key (path_key dir)) of
      None \<Rightarrow> \<exists>a l g s'. run pid (daemon_start home) [] s = (Ok (Running a l g), s') \<and>
        path_key a = sock_key (path_key dir) \<and>
        holders s' (lock_key (path_key dir)) = Some (guard_handle g) \<and>
        nodes s' (sock_key (path_key dir)) = Some (Sock mode_0600 (listener_handle l))
    | Some g \<Rightarrow> \<exists>a s'. run pid (daemon_start home) [] s =
          (Ok (AlreadyRunning a ServerAlreadyRunning), s') \<and>
        holders s' = holders s \<and>
        nodes s' (sock_key (path_key dir)) = nodes s (sock_key (path_key dir)))"
proof (cases rule: start_runs [OF assms, of pid, case_names held free])
  case (held s')
  then show ?thesis by auto
next
  case (free l g s')
  moreover have "path_key (path_join dir ''nostdb.sock'') = sock_key (path_key dir)"
    by (simp add: path_key_join sock_key_def)
  ultimately show ?thesis by simp
qed

text \<open>
  \<open>status\<close> answers from the lock, never from the socket file, and releases what it took.
\<close>

theorem status_asks_the_lock:
  assumes "run_directory home = Ok dir" "ready (path_key dir) s"
  shows "\<exists>s'. run pid (is_running home) [] s = (Ok (holders s (lock_key (path_key dir)) \<noteq> None), s') \<and>
    holders s' = holders s \<and> nodes s' (sock_key (path_key dir)) = nodes s (sock_key (path_key dir))"
proof -
  let ?d = "path_key dir"
  obtain l where al: "lock_path home = Ok l" "path_key l = lock_key ?d"
    using keys_of_home [OF assms(1)] by blast
  have d: "snd ?d \<noteq> []" using run_directory_deep [OF assms(1)] .
  obtain s1 where s1: "run pid (acquire l) [] s =
       (if holders s (lock_key ?d) = None
        then (Ok (Acquired \<lparr>guard_handle = next_fd s, guard_path = l\<rparr>), s1)
        else (Ok AlreadyHeld, s1))"
    "holders s1 = (if holders s (lock_key ?d) = None
       then (holders s)(lock_key ?d \<mapsto> next_fd s) else holders s)"
    "nodes s1 (sock_key ?d) = nodes s (sock_key ?d)"
    using assms(2) unfolding ready_def by (metis acquire_runs [OF al(2) d])
  have "holders (close_fd (next_fd s) s1) = holders s" if "holders s (lock_key ?d) = None"
    using that s1(2) fs_inv_next [of s] assms(2) by (auto simp: close_fd_def ready_def)
  with s1 show ?thesis
    by (cases "holders s (lock_key ?d)")
      (simp_all add: is_running_def al(1) run_io_bind [of _ "acquire l"] guard_drop_def ignoring_def
        io_ret_def exec_ok.simps(6) close_fd_def)
qed

subsection \<open>A machine with leftovers\<close>

text \<open>The run directory of \<open>HOME=/h\<close>, with the lock file and the socket of a daemon that crashed.\<close>

definition demo_dir :: fpath where
  "demo_dir = (True, [''h'', ''.nostdb'', ''run''])"

definition crashed_machine :: fs where
  "crashed_machine = \<lparr>nodes =
       [(True, [''h'']) \<mapsto> Dir 0x1ED, (True, [''h'', ''.nostdb'']) \<mapsto> Dir 0x1ED, demo_dir \<mapsto> Dir 0x1ED,
        lock_key demo_dir \<mapsto> File 0x1A4 [], sock_key demo_dir \<mapsto> Sock 0x180 7],
     fds = (\<lambda>_. None), holders = (\<lambda>_. None), next_fd = 8, umasked = 0x1ED\<rparr>"

lemma demo_run_directory: "run_directory (Some ''/h'') = Ok ''/h/.nostdb/run''"
  by (simp add: run_directory_def path_join_def is_absolute_def)

lemma demo_dir_key: "path_key ''/h/.nostdb/run'' = demo_dir"
  by (simp add: path_key_def is_absolute_def demo_dir_def)

lemma demo_prefixes:
  "path_prefixes demo_dir = [(True, [''h'']), (True, [''h'', ''.nostdb'']), demo_dir]"
  by (simp add: path_prefixes_def demo_dir_def upt_rec)

lemma crashed_machine_ready: "ready demo_dir crashed_machine"
  by (auto simp: ready_def fs_inv_def dirs_ok_def demo_prefixes [unfolded demo_dir_def] plain_def no_dir_def
      crashed_machine_def sock_key_def lock_key_def child_key_def demo_dir_def)

lemma start_asks_the_lock_witness:
  "\<exists>a l g s'. run 1 (daemon_start (Some ''/h'')) [] crashed_machine = (Ok (Running a l g), s') \<and>
     nodes s' (sock_key demo_dir) = Some (Sock mode_0600 (listener_handle l))"
  using start_asks_the_lock [OF demo_run_directory, of crashed_machine 1] crashed_machine_ready
  by (auto simp: demo_dir_key crashed_machine_def)

lemma status_asks_the_lock_witness:
  "\<exists>s'. run 1 (is_running (Some ''/h'')) [] crashed_machine = (Ok False, s') \<and>
     holders s' (lock_key demo_dir) = None"
  using status_asks_the_lock [OF demo_run_directory, of crashed_machine 1] crashed_machine_ready
  by (auto simp: demo_dir_key crashed_machine_def)

end
