(* ===== verification/SystemProps.thy ===== *)
theory SystemProps
  imports StartProps
begin

section \<open>One daemon per user\<close>

text \<open>
  The claims about any number of processes of one user, in every interleaving of their calls,
  whatever fails and whoever crashes, and one schedule in which the answer a user gets is wrong.
\<close>

subsection \<open>A machine to run on\<close>

definition empty_machine :: fs where
  "empty_machine = \<lparr>nodes = (\<lambda>_. None), fds = (\<lambda>_. None), holders = (\<lambda>_. None), next_fd = 0,
     umasked = 0x1ED\<rparr>"

lemma empty_machine_quiet: "quiet empty_machine"
  by (simp add: quiet_def empty_machine_def)

lemma demo_paths:
  "endpoint_address (Some ''/h'') = Ok ''/h/.nostdb/run/nostdb.sock''"
  "lock_path (Some ''/h'') = Ok ''/h/.nostdb/run/daemon.lock''"
  "catalog_default_path (Some ''/h'') = Ok ''/h/.nostdb/catalog.json''"
  "path_key ''/h/.nostdb/run/nostdb.sock'' = sock_key demo_dir"
  "path_key ''/h/.nostdb/run/daemon.lock'' = lock_key demo_dir"
  by (simp_all add: endpoint_address_def lock_path_def run_directory_def path_join_def
      is_absolute_def path_key_def sock_key_def lock_key_def child_key_def catalog_default_path_def
      demo_dir_def)

lemma demo_user_process: "user_process demo_dir pid (main_prog (Some ''/h'') arguments)"
  unfolding user_process_def using demo_run_directory demo_dir_key
  by (intro exI [of _ "Some ''/h''"] exI [of _ arguments]) simp

lemma solo_nil [simp]: "solo pid [] sp = sp"
  by (cases sp) simp

text \<open>A process started on a reachable machine and run for some calls of its own.\<close>

lemma reach_spawn:
  assumes "pool_reach starts s0 (s, P)" "P pid = None" "starts pid p"
  shows "pool_reach starts s0 (fst (solo pid fl (s, p)), P(pid \<mapsto> snd (solo pid fl (s, p))))"
proof -
  have "pool_reach starts s0 (s, P(pid \<mapsto> p))"
    using pool_step.spawn [of P pid starts p s, OF assms(2,3)] by (rule pool_reach.step [OF assms(1)])
  from reach_solo [OF this, of pid p fl] show ?thesis by simp
qed

lemmas call_simps = main_prog_def run_main_def status_main_def daemon_start_def is_running_def
  acquire_def prepare_directory_def restrict_to_current_user_def lock_file_def endpoint_bind_def
  bind_socket_def narrow_socket_def run_daemon_def guard_drop_def ignoring_def io_call_def io_ret_def
  exec_ok.simps open_fd_def close_fd_def has_dir_def is_dir_def not_found_def
  mode_0777_def mode_0700_def mode_0600_def

lemmas path_simps = demo_paths demo_prefixes [unfolded demo_dir_def] lock_key_def sock_key_def
  parent_key_def child_key_def demo_dir_def

lemma demo_daemon_serves:
  obtains s P k where "pool_reach (user_process demo_dir) empty_machine (s, P)"
    "P 1 = Some (Call (AcceptLoop 1 ''/h/.nostdb/catalog.json'') k)"
proof -
  let ?fl = "[None, None, None, None, None, None, None, None, None, None, None]"
  let ?r = "solo 1 ?fl (empty_machine, main_prog (Some ''/h'') [])"
  have "\<exists>k. snd ?r = Call (AcceptLoop 1 ''/h/.nostdb/catalog.json'') k"
    by (simp add: call_simps path_simps empty_machine_def Let_def)
  with reach_spawn [OF pool_reach.init [OF empty_machine_quiet],
      where pid = 1 and starts = "user_process demo_dir" and p = "main_prog (Some ''/h'') []" and fl = ?fl]
    demo_user_process
  show thesis by (auto intro: that)
qed

subsection \<open>The claims\<close>

text \<open>
  C3: at most one process at a time accepts connections for a user, however the processes'
  calls interleave, whichever of them fail, and whoever crashes.
\<close>

theorem one_daemon_at_a_time:
  assumes "pool_reach (user_process d) s0 (s, P)"
    "P p1 = Some (Call (AcceptLoop h1 c1) k1)" "P p2 = Some (Call (AcceptLoop h2 c2) k2)"
  shows "p1 = p2"
proof -
  from serving_process [OF assms(1,2)] serving_process [OF assms(1,3)]
  show ?thesis by auto
qed

lemma one_daemon_at_a_time_witness:
  "\<exists>s P h cp k. pool_reach (user_process demo_dir) empty_machine (s, P) \<and>
     P 1 = Some (Call (AcceptLoop h cp) k) \<and>
     \<not> (\<exists>q h' cp' k'. q \<noteq> 1 \<and> P q = Some (Call (AcceptLoop h' cp') k'))"
proof -
  obtain s P k where r: "pool_reach (user_process demo_dir) empty_machine (s, P)"
    "P 1 = Some (Call (AcceptLoop 1 ''/h/.nostdb/catalog.json'') k)" by (rule demo_daemon_serves)
  have "\<not> (\<exists>q h' cp' k'. q \<noteq> 1 \<and> P q = Some (Call (AcceptLoop h' cp') k'))"
    using one_daemon_at_a_time [OF r(1) r(2)] by metis
  with r show ?thesis by blast
qed

text \<open>
  C4: a process that accepts connections holds the lock, and the socket at the user's path is
  the one it bound, for its user only. So no other start takes a live daemon's socket away.
\<close>

theorem serving_socket_is_its_own:
  assumes "pool_reach (user_process d) s0 (s, P)" "P pid = Some (Call (AcceptLoop h cp) k)"
  shows "nodes s (sock_key d) = Some (Sock mode_0600 h) \<and>
    (\<exists>g. holders s (lock_key d) = Some g \<and> fds s g = Some (pid, lock_key d))"
  using serving_process [OF assms] by blast

lemma serving_socket_is_its_own_witness:
  "\<exists>s P. pool_reach (user_process demo_dir) empty_machine (s, P) \<and>
     nodes s (sock_key demo_dir) = Some (Sock mode_0600 1)"
proof -
  obtain s P k where r: "pool_reach (user_process demo_dir) empty_machine (s, P)"
    "P 1 = Some (Call (AcceptLoop 1 ''/h/.nostdb/catalog.json'') k)" by (rule demo_daemon_serves)
  from serving_socket_is_its_own [OF r] r(1) show ?thesis by blast
qed

text \<open>
  The lock is held by a live process or by nobody: a daemon that crashed or was killed
  leaves its files behind, but not the lock.
\<close>

theorem held_lock_has_a_live_holder:
  assumes "pool_reach (user_process d) s0 (s, P)" "holders s (lock_key d) = Some h"
  shows "\<exists>pid p. fds s h = Some (pid, lock_key d) \<and> P pid = Some p"
proof -
  obtain pid where "fds s h = Some (pid, lock_key d)"
    using fs_inv_holder [OF reachable_fs_inv [OF assms(1)] assms(2)] by blast
  with handles_live [OF assms(1)] show ?thesis by fastforce
qed

lemma held_lock_has_a_live_holder_witness:
  "\<exists>s P h pid. pool_reach (user_process demo_dir) empty_machine (s, P) \<and>
     holders s (lock_key demo_dir) = Some h \<and> fds s h = Some (pid, lock_key demo_dir) \<and> P pid \<noteq> None"
proof -
  obtain s P k where r: "pool_reach (user_process demo_dir) empty_machine (s, P)"
    "P 1 = Some (Call (AcceptLoop 1 ''/h/.nostdb/catalog.json'') k)" by (rule demo_daemon_serves)
  from serving_process [OF r] obtain h where h: "holders s (lock_key demo_dir) = Some h" by blast
  from held_lock_has_a_live_holder [OF r(1) h] r(1) h show ?thesis by fastforce
qed

text \<open>
  C17: \<open>status\<close> takes the lock to ask whether it is free. A \<open>run\<close> that asks at that moment
  reports a running daemon, with the status of success, where there is none: the only other
  process is the \<open>status\<close>, and no socket exists.
\<close>

theorem a_status_can_turn_a_run_away:
  "\<exists>s P rep.
     pool_reach (\<lambda>pid p. p = main_prog (Some ''/h'') (if pid = 1 then [''status''] else [''run'']))
       empty_machine (s, P) \<and>
     P 2 = Some (Ret rep) \<and> exit_code rep = 0 \<and>
     printed rep = [''SERVER_ALREADY_RUNNING: already listening on '' @
       display ''/h/.nostdb/run/nostdb.sock''] \<and>
     dom P = {1, 2} \<and> nodes s (sock_key demo_dir) = None"
proof -
  let ?starts = "\<lambda>pid p. p = main_prog (Some ''/h'') (if pid = 1 then [''status''] else [''run''])"
  let ?fl = "[None, None, None, None, None]" and ?gl = "[None, None, None, None, None, None]"
  let ?a = "solo 1 ?fl (empty_machine, main_prog (Some ''/h'') [''status''])"
  let ?b = "solo 2 ?gl (fst ?a, main_prog (Some ''/h'') [''run''])"
  have "pool_reach ?starts empty_machine (fst ?a, [1 \<mapsto> snd ?a])"
    by (rule reach_spawn [OF pool_reach.init [OF empty_machine_quiet]]) simp_all
  then have r: "pool_reach ?starts empty_machine (fst ?b, [1 \<mapsto> snd ?a, 2 \<mapsto> snd ?b])"
    by (rule reach_spawn) simp_all
  have "\<exists>rep. snd ?b = Ret rep \<and> exit_code rep = 0 \<and>
      printed rep = [''SERVER_ALREADY_RUNNING: already listening on '' @
        display ''/h/.nostdb/run/nostdb.sock''] \<and> nodes (fst ?b) (sock_key demo_dir) = None"
    by (simp add: call_simps path_simps empty_machine_def Let_def)
  with r show ?thesis by fastforce
qed

subsection \<open>What the binary says\<close>

text \<open>
  What a user who types a command is told, and the status of the process: from the run directory that
  \<open>HOME\<close> leads to, or the error that it leads to none, and from whether the lock is held.
\<close>

definition told :: "io_error + string \<Rightarrow> bool \<Rightarrow> string list \<Rightarrow> exit_report" where
  "told place held arguments =
     (let command = (if arguments = [] then ''run'' else hd arguments) in
      if command = ''run'' \<or> command = ''status'' then
        (case place of
           Inl e \<Rightarrow> \<lparr>printed = [], complained = [''nostdb-server: '' @ io_text e], exit_code = 1\<rparr>
         | Inr dir \<Rightarrow> \<lparr>printed =
             [if command = ''status'' then (if held then ''running'' else ''not running'')
              else (if held then ''SERVER_ALREADY_RUNNING: already listening on '' else ''listening on '') @
                display (path_join dir ''nostdb.sock'')],
             complained = [], exit_code = 0\<rparr>)
      else if command \<in> {''help'', ''--help'', ''-h''}
        then \<lparr>printed = [usage_text], complained = [], exit_code = 0\<rparr>
      else \<lparr>printed = [], complained =
          [''nostdb-server: unknown command '' @ command @ [CHR 0x0A, CHR 0x0A] @ usage_text],
        exit_code = 2\<rparr>)"

definition runs_daemon :: "string list \<Rightarrow> bool" where
  "runs_daemon arguments = (arguments = [] \<or> hd arguments = ''run'')"

lemma run_daemon_ends:
  assumes "catalog_default_path home = Ok cp"
    "listener_address l = a" "path_key a = sock_key d"
    "holders s (lock_key d) = Some (guard_handle g)"
    "nodes s (sock_key d) = Some (Sock md h)"
  shows "\<exists>s'. run pid (run_daemon home a l g) [] s =
      (\<lparr>printed = [''listening on '' @ display a], complained = [], exit_code = 0\<rparr>, s') \<and>
    holders s' (lock_key d) = None \<and> nodes s' (sock_key d) = None"
  using assms
  by (simp add: run_daemon_def Let_def listener_drop_def guard_drop_def ignoring_def exec_ok.simps close_fd_def)

lemma catalog_path_of_home: "run_directory home = Ok dir \<Longrightarrow> \<exists>cp. catalog_default_path home = Ok cp"
  by (auto simp: run_directory_def catalog_default_path_def split: option.splits if_splits)

lemma main_command:
  "main_prog home arguments =
     (if runs_daemon arguments then run_main home
      else if hd arguments = ''status'' then status_main home
      else Ret (told place held arguments))"
  by (cases arguments) (auto simp: main_prog_def runs_daemon_def told_def Let_def)

text \<open>
  C32: what the binary says and does when the operating system refuses it nothing. \<open>status\<close> says
  whether a daemon runs, from the lock, and leaves the lock and the socket alone. \<open>run\<close>, which is
  also what no argument means, either names the address it listens on, and at its end the lock is
  free and its socket is gone, or reports the daemon that runs already and leaves its lock and
  its socket alone. Without a home both fail with the error and the status 1. Help prints the
  usage, another command is refused with the status 2, and neither makes any call.
\<close>

theorem the_binary_says_what_it_does:
  assumes "\<forall>dir. run_directory home = Ok dir \<longrightarrow> ready (path_key dir) s"
  shows "case run pid (main_prog home arguments) [] s of (report, s') \<Rightarrow>
    report = told (run_directory home)
      (\<exists>dir. run_directory home = Ok dir \<and> holders s (lock_key (path_key dir)) \<noteq> None) arguments \<and>
    (case run_directory home of
       Inl e \<Rightarrow> s' = s
     | Inr dir \<Rightarrow>
         if \<not> runs_daemon arguments \<and> hd arguments \<noteq> ''status'' then s' = s
         else holders s' (lock_key (path_key dir)) = holders s (lock_key (path_key dir)) \<and>
           nodes s' (sock_key (path_key dir)) =
             (if runs_daemon arguments \<and> holders s (lock_key (path_key dir)) = None then None
              else nodes s (sock_key (path_key dir))))"
proof (cases "run_directory home")
  case (Inl e)
  then show ?thesis
    by (cases arguments)
      (auto simp: told_def main_prog_def run_main_def status_main_def daemon_start_def is_running_def
        endpoint_address_def lock_path_def failure_report_def runs_daemon_def Let_def)
next
  case (Inr dir)
  let ?d = "path_key dir" and ?a = "path_join dir ''nostdb.sock''"
  have ready: "ready ?d s" using assms Inr by blast
  note place = main_command [where place = "Ok dir" and held = "holders s (lock_key ?d) \<noteq> None"]
  consider "runs_daemon arguments" | "\<not> runs_daemon arguments" "hd arguments = ''status''"
    | "\<not> runs_daemon arguments" "hd arguments \<noteq> ''status''" by blast
  then show ?thesis
  proof cases
    case 1
    then have said: "told (Ok dir) held arguments = \<lparr>printed =
        [(if held then ''SERVER_ALREADY_RUNNING: already listening on '' else ''listening on '') @ display ?a],
        complained = [], exit_code = 0\<rparr>" for held
      by (auto simp: told_def runs_daemon_def Let_def)
    show ?thesis
    proof (cases rule: start_runs [OF Inr ready, of pid, case_names held free])
      case (held s')
      with 1 said Inr place show ?thesis
        by (auto simp: run_main_def run_bind)
    next
      case (free l g s')
      obtain cp where "catalog_default_path home = Ok cp" using catalog_path_of_home [OF Inr] by blast
      from run_daemon_ends [OF this free(3) _ free(4,5), of pid] free(1,2) 1 said Inr place show ?thesis
        by (auto simp: run_main_def run_bind path_key_join sock_key_def)
    qed
  next
    case 2
    from status_asks_the_lock [OF Inr ready, of pid] 2 Inr place show ?thesis
      by (auto simp: status_main_def run_bind told_def runs_daemon_def Let_def)
  next
    case 3
    with Inr place show ?thesis by simp
  qed
qed

lemma the_binary_says_what_it_does_witness:
  "fst (run 1 (main_prog (Some ''/h'') [''status'']) [] crashed_machine) =
     \<lparr>printed = [''not running''], complained = [], exit_code = 0\<rparr> \<and>
   printed (fst (run 1 (main_prog (Some ''/h'') []) [] crashed_machine)) =
     [''listening on '' @ display ''/h/.nostdb/run/nostdb.sock'']"
proof -
  have "\<forall>dir. run_directory (Some ''/h'') = Ok dir \<longrightarrow> ready (path_key dir) crashed_machine"
    by (simp add: demo_run_directory demo_dir_key crashed_machine_ready)
  note said = the_binary_says_what_it_does [OF this, where pid = 1]
  have "holders crashed_machine k = None" for k by (simp add: crashed_machine_def)
  with said [where arguments = "[''status'']"] said [where arguments = "[]"] show ?thesis
    by (simp add: demo_run_directory told_def case_prod_beta path_join_def is_absolute_def)
qed

subsection \<open>What the binary exits with\<close>

lemma run_along:
  "along (\<lambda>_ _. True) (\<lambda>_ _ m. m) (\<lambda>_. Q) p () \<Longrightarrow> Q (fst (run pid p fl s))"
proof (induction p arbitrary: fl s)
  case (Call c k)
  have k: "Q (fst (run pid (k r) gl s'))" for r gl s' by (rule Call.IH) (use Call.prems in auto)
  show ?case by (simp only: run_Call k)
qed simp

definition reports :: "exit_report \<Rightarrow> bool" where
  "reports rep = (exit_code rep = 0 \<and> printed rep \<noteq> [] \<and> complained rep = [] \<or>
     exit_code rep = 1 \<and> (\<exists>e. complained rep = [''nostdb-server: '' @ io_text e]))"

definition reporting :: "exit_report prog \<Rightarrow> bool" where
  "reporting p = along (\<lambda>_ _. True) (\<lambda>_ _ m. m) (\<lambda>_. reports) p ()"

lemma reporting_simps [simp]:
  "reporting (Ret rep) = reports rep"
  "reporting (Call c k) = (\<forall>r. reporting (k r))"
  by (simp_all add: reporting_def)

lemma reporting_bind: "(\<And>a. reporting (f a)) \<Longrightarrow> reporting (prog_bind p f)"
  by (induction p) simp_all

lemma run_daemon_reports: "reporting (run_daemon home a l g)"
  by (auto simp: run_daemon_def listener_drop_def guard_drop_def ignoring_def failure_report_def
      reports_def Let_def split: sum.split answer.split)

lemma run_main_reports: "reporting (run_main home)"
  unfolding run_main_def
  by (rule reporting_bind)
    (auto simp: reports_def failure_report_def run_daemon_reports split: sum.split started.split)

lemma status_main_reports: "reporting (status_main home)"
  unfolding status_main_def
  by (rule reporting_bind) (auto simp: reports_def failure_report_def split: sum.split bool.split)

lemma run_reporting: "reporting p \<Longrightarrow> reports (fst (run pid p fl s))"
  unfolding reporting_def by (rule run_along)

text \<open>
  What the process exits with, whatever the operating system answers. A known command exits
  with 0 and says something, or with 1 and the error on the other stream; an unknown command
  exits with 2. Help and unknown commands make no call at all.
\<close>

theorem exit_codes:
  "case run pid (main_prog home arguments) fl s of (rep, s') \<Rightarrow>
     (if arguments = [] \<or> hd arguments \<in> {''run'', ''status''} then reports rep
      else s' = s \<and> complained rep = [] \<and> printed rep = [usage_text] \<and> exit_code rep = 0 \<and>
          hd arguments \<in> {''--help'', ''-h'', ''help''} \<or>
        s' = s \<and> printed rep = [] \<and> complained rep \<noteq> [] \<and> exit_code rep = 2 \<and>
          hd arguments \<notin> {''--help'', ''-h'', ''help''})"
proof (cases "arguments = [] \<or> hd arguments \<in> {''run'', ''status''}")
  case True
  then have "reporting (main_prog home arguments)"
    by (cases arguments) (auto simp: main_prog_def run_main_reports status_main_reports)
  from run_reporting [OF this, of pid fl s] True show ?thesis by (auto split: prod.split)
next
  case False
  then obtain a as where "arguments = a # as" "a \<noteq> ''run''" "a \<noteq> ''status''" by (cases arguments) auto
  then show ?thesis by (simp add: main_prog_def Let_def)
qed

end
