(* ===== verification/StorePool.thy ===== *)
theory StorePool
  imports CatalogStore
begin

section \<open>Writers and readers of one catalog\<close>

text \<open>
  Any number of processes that store and load the catalog at one path, in the pool of \<open>Pool\<close>.
  A writer's monitor is what its temporary file holds; the invariant of the files is that the
  catalog is what it was at first or a text some writer completed. The interpretation \<open>stores\<close>
  discharges the laws of \<open>pool\<close>.
\<close>

lemma temp_name_inject [simp]: "temp_name p = temp_name q \<longleftrightarrow> p = q"
  by (simp add: temp_name_def)

lemma temp_name_default [simp]: "''catalog.json'' \<noteq> temp_name p" "temp_name p \<noteq> ''catalog.json''"
  by (simp_all add: temp_name_def)

definition temp_key :: "fpath \<Rightarrow> nat \<Rightarrow> fpath" where
  "temp_key k pid = child_key (the (parent_key k)) (temp_name pid)"

lemma temp_key_inject [simp]: "temp_key k p = temp_key k q \<longleftrightarrow> p = q"
  by (simp add: temp_key_def)

datatype store_result = Stored "io_error + unit" | Loaded "catalog_error + catalog"

text \<open>What a store of a catalog writes.\<close>

definition store_text :: "textlib \<Rightarrow> catalog \<Rightarrow> string \<Rightarrow> bool" where
  "store_text H c t = (\<exists>text. to_string_pretty H (to_document c) = Inr text \<and> t = text @ [CHR 0x0A])"

definition store_process :: "textlib \<Rightarrow> fpath \<Rightarrow> catalog set \<Rightarrow> nat \<Rightarrow> store_result prog \<Rightarrow> bool" where
  "store_process H k cats pid p = (\<exists>path. path_key path = k \<and> k \<noteq> temp_key k pid \<and>
     (p = prog_bind (catalog_load_at H path) (\<lambda>r. Ret (Loaded r)) \<or>
      (\<exists>c \<in> cats. p = prog_bind (catalog_store H pid c path) (\<lambda>r. Ret (Stored r)))))"

fun store_allowed :: "textlib \<Rightarrow> fpath \<Rightarrow> catalog set \<Rightarrow> nat \<Rightarrow> string option \<Rightarrow> syscall \<Rightarrow> bool" where
  "store_allowed H k cats pid m (CreateDirAll d) \<longleftrightarrow> parent_key k = Some d"
| "store_allowed H k cats pid m (WriteFile a t) \<longleftrightarrow>
     a = temp_key k pid \<and> a \<noteq> k \<and> (\<exists>c \<in> cats. store_text H c t)"
| "store_allowed H k cats pid m (Rename a b) \<longleftrightarrow>
     a = temp_key k pid \<and> a \<noteq> k \<and> b = k \<and> (\<exists>t. m = Some t \<and> (\<exists>c \<in> cats. store_text H c t))"
| "store_allowed H k cats pid m (RemoveFile a) \<longleftrightarrow> a = temp_key k pid \<and> a \<noteq> k"
| "store_allowed H k cats pid m (ReadFile a) \<longleftrightarrow> a = k"
| "store_allowed H k cats pid m c \<longleftrightarrow> False"

fun store_observe :: "syscall \<Rightarrow> answer \<Rightarrow> string option \<Rightarrow> string option" where
  "store_observe (WriteFile a t) (Failed e) m = None"
| "store_observe (WriteFile a t) r m = Some t"
| "store_observe (Rename a b) r m = None"
| "store_observe (RemoveFile a) r m = None"
| "store_observe c r m = m"

text \<open>The catalog is the first node, or a completed text.\<close>

definition store_files :: "textlib \<Rightarrow> fpath \<Rightarrow> catalog set \<Rightarrow> node option \<Rightarrow> fs \<Rightarrow> bool" where
  "store_files H k cats n s =
     (nodes s k = n \<or> (\<exists>c \<in> cats. \<exists>t md. store_text H c t \<and> nodes s k = Some (File md t)))"

definition store_local :: "fpath \<Rightarrow> fs \<Rightarrow> nat \<Rightarrow> string option \<Rightarrow> bool" where
  "store_local k s pid m = (\<forall>t. m = Some t \<longrightarrow>
     temp_key k pid \<noteq> k \<and> (\<exists>md. nodes s (temp_key k pid) = Some (File md t)))"

lemma store_local_None [simp]: "store_local k s pid None"
  by (simp add: store_local_def)

lemma store_local_nodes:
  "store_local k s pid m \<Longrightarrow> nodes s' (temp_key k pid) = nodes s (temp_key k pid) \<or> temp_key k pid = k \<Longrightarrow>
   store_local k s' pid m"
  by (auto simp: store_local_def)

lemma make_dirs_child:
  assumes "parent_key k = Some d"
  shows "snd (make_dirs m (path_prefixes d) ns) (child_key d name) = ns (child_key d name)"
    "snd (make_dirs m (take n (path_prefixes d)) ns) (child_key d name) = ns (child_key d name)"
    "snd (make_dirs m (path_prefixes d) ns) k = ns k"
    "snd (make_dirs m (take n (path_prefixes d)) ns) k = ns k"
proof -
  have notin: "x \<notin> set (path_prefixes d)" if "length (snd x) > length (snd d)" for x
    using that by (auto simp: path_prefixes_def)
  have len: "length (snd (child_key d name)) > length (snd d)" "length (snd k) > length (snd d)"
    using parent_key_shorter [OF assms] by (simp_all add: child_key_def)
  show "snd (make_dirs m (path_prefixes d) ns) (child_key d name) = ns (child_key d name)"
    "snd (make_dirs m (take n (path_prefixes d)) ns) (child_key d name) = ns (child_key d name)"
    "snd (make_dirs m (path_prefixes d) ns) k = ns k"
    "snd (make_dirs m (take n (path_prefixes d)) ns) k = ns k"
    using notin [OF len(1)] notin [OF len(2)] by (auto intro!: make_dirs_other dest: in_set_takeD)
qed

subsection \<open>Each call keeps the invariant\<close>

definition store_keeps ::
  "textlib \<Rightarrow> fpath \<Rightarrow> catalog set \<Rightarrow> node option \<Rightarrow> nat \<Rightarrow> fs \<Rightarrow> string option \<Rightarrow> fs \<Rightarrow> bool" where
  "store_keeps H k cats n pid s m' s' = (store_files H k cats n s' \<and> store_local k s' pid m' \<and>
     (\<forall>q m. q \<noteq> pid \<longrightarrow> store_local k s q m \<longrightarrow> store_local k s' q m))"

lemma store_keeps_same:
  assumes "store_files H k cats n s" "store_local k s pid m'"
    "\<And>q. q = pid \<or> temp_key k q = k \<or> nodes s' (temp_key k q) = nodes s (temp_key k q)"
    "nodes s' k = nodes s k" "m' = None \<or> nodes s' (temp_key k pid) = nodes s (temp_key k pid)"
  shows "store_keeps H k cats n pid s m' s'"
  unfolding store_keeps_def
proof (intro conjI allI impI)
  show "store_files H k cats n s'" using assms(1,4) by (simp add: store_files_def)
  show "store_local k s' pid m'" using assms(2,5) store_local_nodes [of k s pid m' s'] by auto
  show "store_local k s' q m" if "q \<noteq> pid" "store_local k s q m" for q m
    using that assms(3) [of q] store_local_nodes [of k s q m s'] by auto
qed

text \<open>A write, whole or in part, of the own temporary file.\<close>

lemma store_keeps_write:
  assumes "store_files H k cats n s" "temp_key k pid \<noteq> k" "m' = None \<or> m' = Some t"
  shows "store_keeps H k cats n pid s m' (s\<lparr>nodes := (nodes s)(temp_key k pid \<mapsto> File md t)\<rparr>)"
  using assms by (auto simp: store_keeps_def store_files_def store_local_def)

lemma store_keeps_remove:
  assumes "store_files H k cats n s" "temp_key k pid \<noteq> k"
  shows "store_keeps H k cats n pid s None (s\<lparr>nodes := (nodes s)(temp_key k pid := None)\<rparr>)"
  using assms by (auto simp: store_keeps_def store_files_def store_local_def)

lemma store_keeps_rename:
  assumes "temp_key k pid \<noteq> k" "nodes s (temp_key k pid) = Some (File md t)" "c \<in> cats" "store_text H c t"
  shows "store_keeps H k cats n pid s None
    (s\<lparr>nodes := (nodes s)(temp_key k pid := None, k \<mapsto> File md t)\<rparr>)"
  using assms by (auto simp: store_keeps_def store_files_def store_local_def)

lemma exec_ok_store:
  assumes inv: "store_files H k cats n s" "store_local k s pid m" and ok: "store_allowed H k cats pid m c"
    and run: "exec_ok pid c s = (r, s')"
  shows "store_keeps H k cats n pid s (store_observe c r m) s'"
proof (cases c)
  case (CreateDirAll d)
  with ok have d: "parent_key k = Some d" by simp
  show ?thesis
    using CreateDirAll run inv make_dirs_child [OF d]
    by (auto simp: exec_ok.simps Let_def case_prod_beta temp_key_def d intro!: store_keeps_same)
next
  case (ReadFile a)
  with run have "s' = s" by (auto simp: exec_ok.simps split: option.splits node.splits if_splits)
  with ReadFile inv show ?thesis by (auto intro: store_keeps_same)
next
  case (WriteFile a t)
  with ok have a: "a = temp_key k pid" "temp_key k pid \<noteq> k" by auto
  show ?thesis
  proof (cases "\<exists>md. r = Done \<and> s' = s\<lparr>nodes := (nodes s)(a \<mapsto> File md t)\<rparr>")
    case True
    with WriteFile a store_keeps_write [OF inv(1) a(2)] show ?thesis by auto
  next
    case False
    with WriteFile run have "s' = s \<and> (\<exists>e. r = Failed e)"
      by (auto simp: exec_ok.simps split: option.splits node.splits if_splits)
    with WriteFile inv show ?thesis by (auto intro: store_keeps_same)
  qed
next
  case (RemoveFile a)
  with ok have a: "a = temp_key k pid" "temp_key k pid \<noteq> k" by auto
  from run RemoveFile have "s' = s \<or> s' = s\<lparr>nodes := (nodes s)(a := None)\<rparr>"
    by (auto simp: exec_ok.simps split: option.splits node.splits)
  with RemoveFile a inv(1) store_keeps_remove [OF inv(1) a(2)] show ?thesis
    by (auto intro: store_keeps_same)
next
  case (Rename a b)
  with ok obtain t c' where a: "a = temp_key k pid" "temp_key k pid \<noteq> k" "b = k" "m = Some t"
      "c' \<in> cats" "store_text H c' t" by auto
  with inv(2) obtain md where md: "nodes s a = Some (File md t)" by (auto simp: store_local_def)
  with run Rename a have "s' = s \<or> s' = s\<lparr>nodes := (nodes s)(a := None, k \<mapsto> File md t)\<rparr>"
    by (auto simp: exec_ok.simps split: if_splits)
  with Rename a md inv(1) store_keeps_rename [OF a(2) _ a(5,6)] show ?thesis
    by (auto intro: store_keeps_same)
qed (use ok in simp_all)

lemma exec_store:
  assumes inv: "store_files H k cats n s" "store_local k s pid m" and ok: "store_allowed H k cats pid m c"
    and run: "exec pid f c s = (r, s')"
  shows "store_keeps H k cats n pid s (store_observe c r m) s'"
proof (cases f)
  case None
  with exec_ok_store [OF inv ok] run show ?thesis by simp
next
  case (Some ft)
  obtain e i where f: "f = Some (Fault e i)" using Some by (cases ft) auto
  have same: "store_keeps H k cats n pid s (store_observe c (Failed e) m) s"
    using inv ok by (cases c) (auto intro: store_keeps_same)
  show ?thesis
  proof (cases i)
    case None
    with run f ok have "r = Failed e" "s' = s" by (cases c; auto simp: exec_fault.simps)+
    with same show ?thesis by simp
  next
    case (Some j)
    show ?thesis
    proof (cases c)
      case (CreateDirAll d)
      with ok have d: "parent_key k = Some d" by simp
      show ?thesis
        using CreateDirAll run f Some inv make_dirs_child [OF d]
        by (auto simp: exec_fault.simps temp_key_def d intro!: store_keeps_same)
    next
      case (WriteFile a t)
      with ok have a: "a = temp_key k pid" "temp_key k pid \<noteq> k" by auto
      obtain r1 s1 where w: "exec_ok pid (WriteFile a (take j t)) s = (r1, s1)" by fastforce
      then have "r1 = Done \<and> (\<exists>md. s1 = s\<lparr>nodes := (nodes s)(a \<mapsto> File md (take j t))\<rparr>) \<or>
          (\<exists>e'. r1 = Failed e') \<and> s1 = s"
        by (auto simp: exec_ok.simps split: option.splits node.splits if_splits)
      then have "(\<exists>e'. r = Failed e') \<and>
          ((\<exists>md. s' = s\<lparr>nodes := (nodes s)(a \<mapsto> File md (take j t))\<rparr>) \<or> s' = s)"
        using run f Some WriteFile w by (auto simp: exec_fault.simps)
      with WriteFile a inv store_keeps_write [OF inv(1) a(2), of None] show ?thesis
        by (auto intro: store_keeps_same)
    qed (use run f Some ok same in \<open>auto simp: exec_fault.simps\<close>)
  qed
qed

subsection \<open>The programs keep to the rules\<close>

lemma load_along:
  assumes "path_key path = k"
  shows "along (store_allowed H k cats pid) store_observe (\<lambda>_ _. True)
     (prog_bind (catalog_load_at H path) (\<lambda>r. Ret (Loaded r))) None"
  using assms by (simp add: catalog_load_at_def)

lemma store_along:
  assumes "path_key path = k" "k \<noteq> temp_key k pid" "c \<in> cats"
  shows "along (store_allowed H k cats pid) store_observe (\<lambda>_ _. True)
    (prog_bind (catalog_store H pid c path) (\<lambda>r. Ret (Stored r))) None"
proof (cases "parent_key k")
  case None
  with assms show ?thesis by (simp add: catalog_store_def)
next
  case (Some d)
  show ?thesis
  proof (cases "to_string_pretty H (to_document c)")
    case (Inl e)
    with Some assms show ?thesis
      by (auto simp: catalog_store_def io_call_def split: answer.split)
  next
    case (Inr body)
    have t: "\<exists>c' \<in> cats. store_text H c' (body @ [CHR 0x0A])"
      using Inr assms(3) by (auto simp: store_text_def)
    have tmp: "child_key d (temp_name pid) = temp_key k pid" using Some by (simp add: temp_key_def)
    show ?thesis
      using Some Inr assms(1,2) t tmp
      by (auto simp: catalog_store_def io_call_def ignoring_def io_ret_def Let_def split: answer.split)
  qed
qed

lemma store_process_along:
  "store_process H k cats pid p \<Longrightarrow>
   along (store_allowed H k cats pid) store_observe (\<lambda>_ _. True) p None"
  by (auto simp: store_process_def intro: load_along store_along)

interpretation stores: pool "store_process H k cats" "store_allowed H k cats" "\<lambda>_. store_observe" "\<lambda>_ _. True"
  None "store_files H k cats n" "store_local k" for H k cats n
proof unfold_locales
  fix pid m c f r s s'
  assume inv: "store_files H k cats n s" "store_local k s pid m" "store_allowed H k cats pid m c"
    "exec pid f c s = (r, s')"
  note keep = exec_store [OF inv, unfolded store_keeps_def]
  show "store_files H k cats n s'" "store_local k s' pid (store_observe c r m)" using keep by blast+
  show "store_local k s' q m'" if "store_local k s q m'" "q \<noteq> pid" for q m'
    using keep that by blast
qed (auto simp: store_process_along store_files_def store_local_def)

text \<open>What any reachable catalog file is.\<close>

lemma reachable_store:
  assumes "pool_reach (store_process H k cats) s0 (s, P)"
  shows "nodes s k = nodes s0 k \<or> (\<exists>c \<in> cats. \<exists>t md. store_text H c t \<and> nodes s k = Some (File md t))"
proof -
  have "store_files H k cats (nodes s0 k) s0" by (simp add: store_files_def)
  from stores.pool_inv_files [OF stores.reach_inv [OF this assms]] show ?thesis
    by (simp add: store_files_def)
qed

end
