(* ===== verification/StoreProps.thy ===== *)
theory StoreProps
  imports StorePool CatalogProps Alone
begin

section \<open>The catalog on disk: the claims\<close>

text \<open>
  What \<open>store\<close> promises: a reader sees a whole catalog however the writers interleave, a store
  that fails leaves the catalog as it was, and what was stored is loaded again. One promise of
  its comments is not kept: a write that fails leaves its partial file.
\<close>

subsection \<open>What each call of a store does\<close>

lemma create_keeps:
  "exec pid f (CreateDirAll d) s = (r, s') \<Longrightarrow> parent_key k = Some d \<Longrightarrow> nodes s' k = nodes s k"
proof (cases f)
  case None
  then show "exec pid f (CreateDirAll d) s = (r, s') \<Longrightarrow> parent_key k = Some d \<Longrightarrow> nodes s' k = nodes s k"
    using make_dirs_child(3) [of k d] by (auto simp: exec_ok.simps Let_def case_prod_beta)
next
  case (Some ft)
  then show "exec pid f (CreateDirAll d) s = (r, s') \<Longrightarrow> parent_key k = Some d \<Longrightarrow> nodes s' k = nodes s k"
    using make_dirs_child(4) [of k d]
    by (cases ft; cases "case ft of Fault e n \<Rightarrow> n") (auto simp: exec_fault.simps)
qed

lemma write_ok:
  "exec_ok pid (WriteFile a t) s = (r, s') \<Longrightarrow>
   (\<exists>e. r = Failed e) \<and> s' = s \<or> r = Done \<and> (\<exists>md. s' = s\<lparr>nodes := (nodes s)(a \<mapsto> File md t)\<rparr>)"
  by (auto simp: exec_ok.simps split: option.splits node.splits if_splits)

text \<open>A write that fails may have written a part.\<close>

lemma write_call:
  assumes "exec pid f (WriteFile a t) s = (r, s')"
  shows "(\<exists>e. r = Failed e) \<and> (s' = s \<or> (\<exists>md n. s' = s\<lparr>nodes := (nodes s)(a \<mapsto> File md (take n t))\<rparr>)) \<or>
    r = Done \<and> (\<exists>md. s' = s\<lparr>nodes := (nodes s)(a \<mapsto> File md t)\<rparr>)"
proof (cases f)
  case None
  with assms write_ok [of pid a t s r s'] show ?thesis by auto
next
  case (Some ft)
  obtain e i where ft: "f = Some (Fault e i)" using Some by (cases ft) auto
  show ?thesis
  proof (cases i)
    case None
    with ft assms show ?thesis by (auto simp: exec_fault.simps)
  next
    case (Some n)
    obtain r1 s1 where w: "exec_ok pid (WriteFile a (take n t)) s = (r1, s1)" by fastforce
    have run: "exec pid f (WriteFile a t) s = (case r1 of Done \<Rightarrow> (Failed e, s1) | _ \<Rightarrow> (r1, s1))"
      using ft Some w by (simp add: exec_fault.simps split: answer.split)
    from write_ok [OF w] show ?thesis
    proof
      assume "(\<exists>e. r1 = Failed e) \<and> s1 = s"
      with run assms show ?thesis by auto
    next
      assume "r1 = Done \<and> (\<exists>md. s1 = s\<lparr>nodes := (nodes s)(a \<mapsto> File md (take n t))\<rparr>)"
      with run assms have "r = Failed e" "\<exists>md n. s' = s\<lparr>nodes := (nodes s)(a \<mapsto> File md (take n t))\<rparr>"
        by auto
      then show ?thesis by blast
    qed
  qed
qed

lemma exec_simple:
  assumes "\<forall>k t. c \<noteq> WriteFile k t" "\<forall>k. c \<noteq> CreateDirAll k" "\<forall>h. c \<noteq> Close h"
  shows "exec pid f c s = exec_ok pid c s \<or> (\<exists>e. exec pid f c s = (Failed e, s))"
proof (cases f)
  case (Some ft)
  obtain e n where "ft = Fault e n" by (cases ft)
  with Some assms show ?thesis by (cases c; cases n) (simp_all add: exec_fault.simps)
qed simp

lemma rename_call:
  assumes "exec pid f (Rename a b) s = (r, s')" "nodes s a = Some n" "a \<noteq> b"
  shows "(\<exists>e. r = Failed e) \<and> s' = s \<or> r = Done \<and> s' = s\<lparr>nodes := (nodes s)(a := None, b \<mapsto> n)\<rparr>"
  using exec_simple [of "Rename a b" pid f s] assms
  by (auto simp: exec_ok.simps split: if_splits)

lemma remove_call:
  assumes "exec pid f (RemoveFile a) s = (r, s')" "k \<noteq> a"
  shows "nodes s' k = nodes s k"
  using exec_simple [of "RemoveFile a" pid f s] assms
  by (auto simp: exec_ok.simps split: option.splits node.splits)

subsection \<open>A concrete store\<close>

text \<open>A text library that prints and reads the empty catalog, and a machine with no files.\<close>

definition empty_text :: string where
  "empty_text = ''{}''"

definition store_lib :: textlib where
  "store_lib = \<lparr>from_str = (\<lambda>t. if t = empty_text @ [CHR 0x0A] then Inr (to_document catalog_default)
       else Inl ''not JSON''),
     to_string = (\<lambda>_. Inl []), to_string_pretty = (\<lambda>_. Inr empty_text), char_debug = (\<lambda>c. c)\<rparr>"

definition blank_machine :: fs where
  "blank_machine = \<lparr>nodes = (\<lambda>_. None), fds = (\<lambda>_. None), holders = (\<lambda>_. None), next_fd = 0,
     umasked = 0x1ED\<rparr>"

definition demo_file :: string where
  "demo_file = ''/h/catalog.json''"

lemma demo_file_key: "path_key demo_file = (True, [''h'', ''catalog.json''])"
  by (simp add: demo_file_def path_key_def is_absolute_def)

lemma demo_file_temp: "path_key demo_file \<noteq> temp_key (path_key demo_file) pid"
  "path_key demo_file \<noteq> child_key (True, [''h'']) (temp_name pid)"
  by (simp_all add: demo_file_key temp_key_def parent_key_def child_key_def)

lemma demo_store_text: "store_text store_lib catalog_default t \<longleftrightarrow> t = empty_text @ [CHR 0x0A]"
  by (auto simp: store_text_def store_lib_def)

subsection \<open>The claims\<close>

text \<open>
  C5: any number of processes store and load one catalog, interleaved call by call, failing and
  crashing anywhere: the file is at every moment what it was at first, or the whole text of a
  catalog that some writer stored.
\<close>

theorem store_is_atomic:
  assumes "pool_reach (store_process H k cats) s0 (s, P)"
  shows "nodes s k = nodes s0 k \<or> (\<exists>c \<in> cats. \<exists>t md. store_text H c t \<and> nodes s k = Some (File md t))"
  by (rule reachable_store [OF assms])

lemma store_is_atomic_witness:
  "\<exists>s P. pool_reach (store_process store_lib (path_key demo_file) {catalog_default}) blank_machine (s, P) \<and>
     P 1 \<noteq> None \<and> nodes s (temp_key (path_key demo_file) 1) \<noteq> None \<and>
     (nodes s (path_key demo_file) = None \<or>
      (\<exists>md. nodes s (path_key demo_file) = Some (File md (empty_text @ [CHR 0x0A]))))"
proof -
  let ?starts = "store_process store_lib (path_key demo_file) {catalog_default}"
  let ?p = "prog_bind (catalog_store store_lib 1 catalog_default demo_file) (\<lambda>r. Ret (Stored r))"
  let ?r = "solo 1 [None, None] (blank_machine, ?p)"
  have "?starts 1 ?p" unfolding store_process_def using demo_file_temp by blast
  moreover have "pool_reach ?starts blank_machine (blank_machine, \<lambda>_. None)"
    by (rule pool_reach.init) (simp add: quiet_def blank_machine_def)
  ultimately have "pool_reach ?starts blank_machine (blank_machine, [1 \<mapsto> ?p])"
    using pool_step.spawn [of "\<lambda>_. None" 1 ?starts ?p blank_machine] by (blast intro: pool_reach.step)
  from reach_solo [OF this, of 1 ?p "[None, None]"]
  have r: "pool_reach ?starts blank_machine (fst ?r, [1 \<mapsto> snd ?r])" by simp
  have "nodes (fst ?r) (temp_key (path_key demo_file) 1) \<noteq> None"
    by (simp add: catalog_store_def demo_file_key parent_key_def io_call_def store_lib_def Let_def
        exec_ok.simps blank_machine_def path_prefixes_def upt_rec has_dir_def is_dir_def child_key_def
        temp_key_def)
  moreover note store_is_atomic [OF r]
  ultimately show ?thesis using r
    by (intro exI [of _ "fst ?r"] exI [of _ "[1 \<mapsto> snd ?r]"])
      (auto simp: demo_store_text blank_machine_def)
qed

text \<open>
  C15: one store, whatever fails: it returns success exactly with the whole new text at the path,
  and after an error the catalog at the path is the one that was there.
\<close>

theorem failed_store_keeps_the_catalog:
  assumes "run pid (catalog_store H pid c path) fl s = (r, s')"
    "path_key path \<noteq> temp_key (path_key path) pid"
  shows "case r of
      Inr u \<Rightarrow> \<exists>t md. store_text H c t \<and> nodes s' (path_key path) = Some (File md t)
    | Inl e \<Rightarrow> nodes s' (path_key path) = nodes s (path_key path)"
proof (cases "parent_key (path_key path)")
  case None
  with assms(1) show ?thesis by (auto simp: catalog_store_def)
next
  case (Some d)
  let ?k = "path_key path" and ?f = "\<lambda>fl. case fl of [] \<Rightarrow> None | f # _ \<Rightarrow> f"
  let ?t = "child_key d (temp_name pid)"
  have t: "?k \<noteq> ?t" using assms(2) Some by (simp add: temp_key_def)
  obtain r1 s1 where c1: "exec pid (?f fl) (CreateDirAll d) s = (r1, s1)" by fastforce
  note k1 = create_keeps [OF c1 Some]
  show ?thesis
  proof (cases "\<exists>e. r1 = Failed e")
    case True
    with assms(1) Some c1 k1 show ?thesis by (auto simp: catalog_store_def io_call_def)
  next
    case False
    note ok1 = False
    show ?thesis
    proof (cases "to_string_pretty H (to_document c)")
      case (Inl e)
      with assms(1) Some c1 k1 ok1 show ?thesis
        by (auto simp: catalog_store_def io_call_def split: answer.splits)
    next
      case (Inr body)
      let ?text = "body @ [CHR 0x0A]"
      obtain r2 s2 where c2: "exec pid (?f (tl fl)) (WriteFile ?t ?text) s1 = (r2, s2)" by fastforce
      note w = write_call [OF c2]
      have k2: "nodes s2 ?k = nodes s ?k" using w k1 t by auto
      show ?thesis
      proof (cases "r2 = Done")
        case False
        with w obtain e where "r2 = Failed e" by auto
        with assms(1) Some c1 c2 k2 ok1 Inr show ?thesis
          by (auto simp: catalog_store_def io_call_def Let_def split: answer.splits)
      next
        case True
        with w obtain md where md: "nodes s2 ?t = Some (File md ?text)" by auto
        obtain r3 s3 where c3: "exec pid (?f (tl (tl fl))) (Rename ?t ?k) s2 = (r3, s3)" by fastforce
        from rename_call [OF c3 md t [symmetric]] show ?thesis
        proof
          assume f3: "(\<exists>e. r3 = Failed e) \<and> s3 = s2"
          then obtain e where e: "r3 = Failed e" by blast
          obtain r4 s4 where c4: "exec pid (?f (tl (tl (tl fl)))) (RemoveFile ?t) s3 = (r4, s4)" by fastforce
          from remove_call [OF c4 t] k2 f3 have "nodes s4 ?k = nodes s ?k" by simp
          with assms(1) Some c1 c2 c3 c4 e f3 ok1 True Inr show ?thesis
            by (auto simp: catalog_store_def io_call_def ignoring_def Let_def split: answer.splits)
        next
          assume "r3 = Done \<and> s3 = s2\<lparr>nodes := (nodes s2)(?t := None, ?k \<mapsto> File md ?text)\<rparr>"
          with assms(1) Some c1 c2 c3 ok1 True Inr show ?thesis
            by (auto simp: catalog_store_def io_call_def io_ret_def Let_def store_text_def split: answer.splits)
        qed
      qed
    qed
  qed
qed

text \<open>The rename fails; the part is removed and the catalog is as it was.\<close>

lemma failed_store_keeps_the_catalog_witness:
  "nodes (snd (run 1 (catalog_store store_lib 1 catalog_default demo_file)
      [None, None, Some (Fault (os_error ''No space left on device'') None)] blank_machine))
    (path_key demo_file) = None"
proof -
  let ?fl = "[None, None, Some (Fault (os_error ''No space left on device'') None)]"
  let ?r = "run 1 (catalog_store store_lib 1 catalog_default demo_file) ?fl blank_machine"
  have "\<exists>e. fst ?r = Err e"
    by (simp add: catalog_store_def demo_file_key parent_key_def io_call_def store_lib_def Let_def
        exec_ok.simps exec_fault.simps blank_machine_def path_prefixes_def upt_rec has_dir_def is_dir_def
        child_key_def ignoring_def)
  then obtain e s' where "?r = (Err e, s')" by (metis prod.collapse)
  with failed_store_keeps_the_catalog [OF this demo_file_temp(1)] show ?thesis
    by (simp add: blank_machine_def)
qed

text \<open>
  C16: what a store wrote, a load reads: with nothing failing, storing a catalog that keeps its
  invariant and loading the path gives that catalog back. Of the JSON library it needs that the
  text it printed for this document parses to this document.
\<close>

theorem stored_catalog_is_loaded:
  assumes "cat_inv c" "paths_utf8 c"
    and lib: "to_string_pretty H (to_document c) = Inr body"
      "from_str H (body @ [CHR 0x0A]) = Inr (to_document c)" "str_ok (body @ [CHR 0x0A])"
    and files: "parent_key (path_key path) = Some d" "dirs_ok d (nodes s)"
      "no_dir (nodes s (path_key path))" "plain (nodes s (child_key d (temp_name pid)))"
      "path_key path \<noteq> child_key d (temp_name pid)"
  shows "\<exists>s'. run pid (catalog_store H pid c path) [] s = (Ok (), s') \<and>
    run q (catalog_load_at H path) [] s' = (Ok c, s')"
proof -
  let ?k = "path_key path" and ?t = "child_key d (temp_name pid)" and ?text = "body @ [CHR 0x0A]"
  define ns where "ns = snd (make_dirs (umasked s) (path_prefixes d) (nodes s))"
  have made: "fst (make_dirs (umasked s) (path_prefixes d) (nodes s))" "has_dir (s\<lparr>nodes := ns\<rparr>) ?t"
    "has_dir (s\<lparr>nodes := ns\<rparr>) ?k"
  proof -
    show "fst (make_dirs (umasked s) (path_prefixes d) (nodes s))"
      using make_dirs_ok [OF files(2) [unfolded dirs_ok_def]] by simp
    have "snd d = [] \<or> is_dir (s\<lparr>nodes := ns\<rparr>) d"
      using dirs_made(3) [OF files(2), of "umasked s"]
      by (cases "snd d = []") (auto simp: ns_def is_dir_def)
    then show "has_dir (s\<lparr>nodes := ns\<rparr>) ?t" "has_dir (s\<lparr>nodes := ns\<rparr>) ?k"
      using files(1) by (simp_all add: has_dir_def)
  qed
  have same: "ns ?t = nodes s ?t" "ns ?k = nodes s ?k"
    using make_dirs_child(1,3) [OF files(1)] by (simp_all add: ns_def)
  obtain md where wrote: "exec_ok pid (WriteFile ?t ?text) (s\<lparr>nodes := ns\<rparr>) =
      (Done, s\<lparr>nodes := ns(?t \<mapsto> File md ?text)\<rparr>)"
    using files(4) made(2) same(1)
    by (auto simp: exec_ok.simps plain_def split: option.splits node.splits)
  let ?s2 = "s\<lparr>nodes := ns(?t \<mapsto> File md ?text)\<rparr>"
  have "has_dir ?s2 ?k" using made(3) files(1) parent_key_shorter [OF files(1)]
    by (auto simp: has_dir_def is_dir_def)
  then have renamed: "exec_ok pid (Rename ?t ?k) ?s2 =
      (Done, s\<lparr>nodes := ns(?t := None, ?k \<mapsto> File md ?text)\<rparr>)"
    using files(3,5) same(2) by (auto simp: exec_ok.simps is_dir_def no_dir_def split: option.splits node.splits)
  let ?s3 = "s\<lparr>nodes := ns(?t := None, ?k \<mapsto> File md ?text)\<rparr>"
  have "run pid (catalog_store H pid c path) [] s = (Ok (), ?s3)"
    using made(1) wrote renamed
    by (simp add: catalog_store_def files(1) lib(1) io_call_def io_ret_def Let_def exec_ok.simps(1)
        case_prod_beta ns_def)
  moreover have "run q (catalog_load_at H path) [] ?s3 = (Ok c, ?s3)"
    using lib(2,3) catalog_round_trip [OF assms(1,2), of H]
    by (simp add: catalog_load_at_def catalog_load_def catalog_parse_def exec_ok.simps)
  ultimately show ?thesis by blast
qed

lemma stored_catalog_is_loaded_witness:
  "\<exists>s'. run 1 (catalog_store store_lib 1 catalog_default demo_file) [] blank_machine = (Ok (), s') \<and>
     run 2 (catalog_load_at store_lib demo_file) [] s' = (Ok catalog_default, s')"
proof (rule stored_catalog_is_loaded)
  show "cat_inv catalog_default" "paths_utf8 catalog_default" using cat_inv_default by simp_all
  show "to_string_pretty store_lib (to_document catalog_default) = Inr empty_text"
    "from_str store_lib (empty_text @ [CHR 0x0A]) = Inr (to_document catalog_default)"
    by (simp_all add: store_lib_def)
  show "str_ok (empty_text @ [CHR 0x0A])" by (simp add: empty_text_def str_ok_ascii)
  show "parent_key (path_key demo_file) = Some (True, [''h''])"
    by (simp add: demo_file_key parent_key_def)
  show "path_key demo_file \<noteq> child_key (True, [''h'']) (temp_name 1)" by (rule demo_file_temp(2))
qed (simp_all add: blank_machine_def dirs_ok_def no_dir_def plain_def)

text \<open>
  A store removes its temporary file after a failed rename only. When the write itself fails,
  what it wrote stays beside the catalog, named after the process.
\<close>

theorem failed_write_leaves_its_part:
  "\<exists>s' e. run 1 (catalog_store store_lib 1 catalog_default demo_file)
      [None, Some (Fault e (Some 1))] blank_machine = (Err e, s') \<and>
     (\<exists>md. nodes s' (child_key (True, [''h'']) ''.catalog.json.1.partial'') = Some (File md (take 1 empty_text)))"
proof -
  have "temp_name 1 = ''.catalog.json.1.partial''"
    by code_simp
  then show ?thesis
    by (simp add: catalog_store_def demo_file_key parent_key_def io_call_def store_lib_def Let_def
        exec_ok.simps exec_fault.simps blank_machine_def path_prefixes_def upt_rec has_dir_def is_dir_def
        child_key_def empty_text_def)
qed

end
