(* ===== verification/Accept.thy ===== *)
theory Accept
  imports Serve
begin

section \<open>The accept loop\<close>

text \<open>
  \<open>accept_until_shutdown\<close> of \<open>src/lib.rs\<close>: the loop over incoming connections, the thread of
  each, the shared flag and the connection that wakes the loop. \<open>accept_turn\<close> is the body of
  the loop up to the spawn, \<open>thread_after\<close> what a thread does once its connection has ended.
  The kernel's queue of connections, the threads and the flag are the state; the steps of the
  loop, of the threads and of the clients come in any order.
\<close>

datatype 'c turn = Return "io_error + unit" | Spawn 'c

definition accept_turn :: "bool \<Rightarrow> io_error + 'c \<Rightarrow> 'c turn" where
  "accept_turn stopping incoming =
     (if stopping then Return (Ok ())
      else (case incoming of Inl e \<Rightarrow> Return (Err e) | Inr c \<Rightarrow> Spawn c))"

text \<open>A thread serves its connection; after a shutdown it stores the flag, then connects once.\<close>

datatype thread_phase = InService | StoreFlag | WakeLoop

definition thread_after :: "ended \<Rightarrow> thread_phase option" where
  "thread_after x = (if x = ShutdownRequested then Some StoreFlag else None)"

record accept_state =
  backlog :: "nat list"
  stopping :: bool
  loop_result :: "(io_error + unit) option"
  threads :: "nat \<Rightarrow> thread_phase option"
  known :: "nat set"
  asked :: "nat set"

text \<open>
  Connections are numbered; \<open>known\<close> are the numbers used and \<open>asked\<close> the connections that ended
  with a shutdown. With \<open>lossy\<close>, the connection that wakes the loop may fail, which the code
  ignores.
\<close>

definition accept_start :: accept_state where
  "accept_start = \<lparr>backlog = [], stopping = False, loop_result = None, threads = (\<lambda>_. None),
     known = {}, asked = {}\<rparr>"

definition take_turn :: "io_error + nat \<Rightarrow> accept_state \<Rightarrow> accept_state" where
  "take_turn incoming d = (case accept_turn (stopping d) incoming of
     Return r \<Rightarrow> d\<lparr>loop_result := Some r\<rparr>
   | Spawn c \<Rightarrow> d\<lparr>threads := (threads d)(c \<mapsto> InService)\<rparr>)"

inductive accept_step :: "bool \<Rightarrow> accept_state \<Rightarrow> accept_state \<Rightarrow> bool" for lossy where
  arrive: "loop_result d = None \<Longrightarrow> c \<notin> known d \<Longrightarrow>
    accept_step lossy d (d\<lparr>backlog := backlog d @ [c], known := insert c (known d)\<rparr>)"
| turn: "loop_result d = None \<Longrightarrow> backlog d = c # rest \<Longrightarrow>
    accept_step lossy d (take_turn (Ok c) (d\<lparr>backlog := rest\<rparr>))"
| error: "loop_result d = None \<Longrightarrow> accept_step lossy d (take_turn (Err e) d)"
| over: "threads d c = Some InService \<Longrightarrow>
    accept_step lossy d (d\<lparr>threads := (threads d)(c := thread_after x),
      asked := (if x = ShutdownRequested then insert c (asked d) else asked d)\<rparr>)"
| store: "threads d c = Some StoreFlag \<Longrightarrow>
    accept_step lossy d (d\<lparr>stopping := True, threads := (threads d)(c \<mapsto> WakeLoop)\<rparr>)"
| wake: "threads d c = Some WakeLoop \<Longrightarrow> w \<notin> known d \<Longrightarrow>
    accept_step lossy d (d\<lparr>threads := (threads d)(c := None), backlog := backlog d @ [w],
      known := insert w (known d)\<rparr>)"
| wake_fails: "lossy \<Longrightarrow> threads d c = Some WakeLoop \<Longrightarrow>
    accept_step lossy d (d\<lparr>threads := (threads d)(c := None)\<rparr>)"

inductive_cases accept_stepE: "accept_step lossy d d'"

abbreviation accept_steps :: "bool \<Rightarrow> accept_state \<Rightarrow> accept_state \<Rightarrow> bool" where
  "accept_steps lossy \<equiv> (accept_step lossy)\<^sup>*\<^sup>*"

subsection \<open>Invariants\<close>

definition accept_inv :: "accept_state \<Rightarrow> bool" where
  "accept_inv d = (finite (known d) \<and>
     (stopping d \<longrightarrow> asked d \<noteq> {}) \<and>
     (\<forall>c. threads d c = Some StoreFlag \<longrightarrow> asked d \<noteq> {}) \<and>
     (\<forall>c. threads d c = Some WakeLoop \<longrightarrow> stopping d) \<and>
     (\<forall>u. loop_result d = Some (Ok u) \<longrightarrow> stopping d) \<and>
     distinct (backlog d) \<and> set (backlog d) \<subseteq> known d \<and> dom (threads d) \<subseteq> known d \<and>
     (\<forall>c \<in> set (backlog d). threads d c = None))"

text \<open>Once the flag is set, the loop has a connection to wake for, or is about to get one.\<close>

definition wake_inv :: "accept_state \<Rightarrow> bool" where
  "wake_inv d = (stopping d \<and> loop_result d = None \<longrightarrow>
     (\<exists>c. threads d c = Some WakeLoop) \<or> backlog d \<noteq> [])"

text \<open>A connection that asked for a shutdown has set the flag, or is about to.\<close>

definition flag_inv :: "accept_state \<Rightarrow> bool" where
  "flag_inv d = (asked d \<noteq> {} \<longrightarrow> stopping d \<or> (\<exists>c. threads d c = Some StoreFlag))"

lemma accept_turn_simps [simp]:
  "accept_turn True i = Return (Ok ())"
  "accept_turn False (Inl e) = Return (Err e)"
  "accept_turn False (Inr c) = Spawn c"
  by (simp_all add: accept_turn_def)

lemma take_turn_simps:
  "take_turn i d = (if stopping d then d\<lparr>loop_result := Some (Ok ())\<rparr>
     else (case i of Inl e \<Rightarrow> d\<lparr>loop_result := Some (Err e)\<rparr>
       | Inr c \<Rightarrow> d\<lparr>threads := (threads d)(c \<mapsto> InService)\<rparr>))"
  by (simp add: take_turn_def accept_turn_def split: sum.split)

lemma accept_step_inv: "accept_step lossy d d' \<Longrightarrow> accept_inv d \<Longrightarrow> accept_inv d'"
  by (erule accept_stepE)
    (auto simp: accept_inv_def take_turn_simps thread_after_def split: if_splits)

lemma accept_start_inv [simp]: "accept_inv accept_start" "wake_inv accept_start" "flag_inv accept_start"
  by (simp_all add: accept_inv_def wake_inv_def flag_inv_def accept_start_def)

lemma accept_steps_inv:
  "accept_steps lossy d d' \<Longrightarrow> accept_inv d \<Longrightarrow> accept_inv d'"
  by (induction rule: rtranclp_induct) (auto intro: accept_step_inv)

lemma thread_after_None [simp]: "thread_after x \<noteq> Some WakeLoop"
  by (simp add: thread_after_def)

lemma wake_step_inv:
  assumes "accept_step False d d'" "wake_inv d"
  shows "wake_inv d'"
  using assms
proof (cases rule: accept_stepE
      [consumes 1, case_names arrive turn error over store wake wake_fails])
  case (over c x)
  then have "threads d' w = Some WakeLoop" if "threads d w = Some WakeLoop" for w
    using that by auto
  moreover have "stopping d' = stopping d" "loop_result d' = loop_result d" "backlog d' = backlog d"
    using over by simp_all
  ultimately show ?thesis using assms(2) unfolding wake_inv_def by metis
qed (auto simp: wake_inv_def take_turn_simps split: if_splits)

lemma wake_steps_inv:
  "accept_steps False d d' \<Longrightarrow> wake_inv d \<Longrightarrow> wake_inv d'"
  by (induction rule: rtranclp_induct) (auto intro: wake_step_inv)

lemma flag_inv_kept:
  assumes "flag_inv d" "asked d' = asked d" "stopping d \<Longrightarrow> stopping d'"
    "\<And>w. threads d w = Some StoreFlag \<Longrightarrow> threads d' w = Some StoreFlag \<or> stopping d'"
  shows "flag_inv d'"
  using assms unfolding flag_inv_def by metis

lemma flag_step_inv:
  assumes "accept_step lossy d d'" "accept_inv d" "flag_inv d"
  shows "flag_inv d'"
  using assms(1)
proof (cases rule: accept_stepE
      [consumes 1, case_names arrive turn error over store wake wake_fails])
  case (turn c rest)
  then have "threads d c = None" using assms(2) by (simp add: accept_inv_def)
  with turn show ?thesis by (intro flag_inv_kept [OF assms(3)]) (auto simp: take_turn_simps)
next
  case (over c x)
  show ?thesis
  proof (cases "x = ShutdownRequested")
    case True
    with over have "threads d' c = Some StoreFlag" by (simp add: thread_after_def)
    then show ?thesis by (auto simp: flag_inv_def)
  next
    case False
    with over show ?thesis by (intro flag_inv_kept [OF assms(3)]) auto
  qed
qed (intro flag_inv_kept [OF assms(3)]; auto simp: take_turn_simps split: if_splits)+

lemma flag_steps_inv:
  "accept_steps lossy accept_start d \<Longrightarrow> flag_inv d"
  by (induction rule: rtranclp_induct)
    (auto intro: flag_step_inv accept_steps_inv [OF _ accept_start_inv(1)])

lemma unused_number: "accept_inv d \<Longrightarrow> \<exists>w. w \<notin> known d"
  using ex_new_if_finite [of "known d"] infinite_UNIV_nat by (auto simp: accept_inv_def)

subsection \<open>After the flag is set\<close>

lemma stopping_stays:
  "accept_step lossy d d' \<Longrightarrow> stopping d \<Longrightarrow> stopping d'"
  by (erule accept_stepE) (auto simp: take_turn_simps)

lemma stopping_starts_nothing:
  "accept_step lossy d d' \<Longrightarrow> stopping d \<Longrightarrow>
     threads d' c = Some InService \<Longrightarrow> threads d c = Some InService"
  by (erule accept_stepE) (auto simp: take_turn_simps thread_after_def split: if_splits)

lemma result_is_final:
  "accept_step lossy d d' \<Longrightarrow> loop_result d = Some r \<Longrightarrow> loop_result d' = Some r"
  by (erule accept_stepE) (auto simp: take_turn_simps)

lemma turn_returns:
  "loop_result d = None \<Longrightarrow> stopping d \<Longrightarrow> backlog d \<noteq> [] \<Longrightarrow>
     \<exists>d'. accept_step lossy d d' \<and> loop_result d' = Some (Ok ())"
  by (cases "backlog d") (force simp: take_turn_simps dest: accept_step.turn)+

end
