(* ===== verification/AcceptProps.thy ===== *)
theory AcceptProps
  imports Accept
begin

section \<open>Stopping the daemon\<close>

text \<open>
  What the accept loop promises once a connection has asked for a shutdown: nothing more is
  served, and the loop returns. The second is a liveness property: it is proved of every fair
  run, in which a thread that has something to do does it and the loop takes what waits for it.
\<close>

subsection \<open>Fair runs\<close>

text \<open>A run is an infinite sequence of states; a state may last.\<close>

definition is_run :: "bool \<Rightarrow> (nat \<Rightarrow> accept_state) \<Rightarrow> bool" where
  "is_run lossy \<rho> = (\<rho> 0 = accept_start \<and>
     (\<forall>n. \<rho> (Suc n) = \<rho> n \<or> accept_step lossy (\<rho> n) (\<rho> (Suc n))))"

definition threads_move :: "(nat \<Rightarrow> accept_state) \<Rightarrow> bool" where
  "threads_move \<rho> = (\<forall>n c ph. threads (\<rho> n) c = Some ph \<longrightarrow> ph \<noteq> InService \<longrightarrow>
     (\<exists>m \<ge> n. threads (\<rho> m) c \<noteq> Some ph))"

definition taken :: "accept_state \<Rightarrow> accept_state \<Rightarrow> bool" where
  "taken d d' = (\<exists>c rest. backlog d = c # rest \<and> d' = take_turn (Ok c) (d\<lparr>backlog := rest\<rparr>))"

definition loop_moves :: "(nat \<Rightarrow> accept_state) \<Rightarrow> bool" where
  "loop_moves \<rho> = (\<forall>n. (\<forall>m \<ge> n. loop_result (\<rho> m) = None \<and> backlog (\<rho> m) \<noteq> []) \<longrightarrow>
     (\<exists>m \<ge> n. taken (\<rho> m) (\<rho> (Suc m))))"

definition fair_run :: "(nat \<Rightarrow> accept_state) \<Rightarrow> bool" where
  "fair_run \<rho> = (is_run False \<rho> \<and> threads_move \<rho> \<and> loop_moves \<rho>)"

lemma run_reachable: "is_run lossy \<rho> \<Longrightarrow> accept_steps lossy accept_start (\<rho> n)"
proof (induction n)
  case (Suc n)
  then have "\<rho> (Suc n) = \<rho> n \<or> accept_step lossy (\<rho> n) (\<rho> (Suc n))" by (simp add: is_run_def)
  with Suc show ?case by (auto intro: rtranclp.rtrancl_into_rtrancl)
qed (simp add: is_run_def)

lemma run_keeps:
  assumes "is_run lossy \<rho>" "\<And>d d'. accept_step lossy d d' \<Longrightarrow> Q d \<Longrightarrow> Q d'" "Q (\<rho> n)" "n \<le> m"
  shows "Q (\<rho> m)"
  using assms(4)
proof (induction rule: dec_induct)
  case (step i)
  have "\<rho> (Suc i) = \<rho> i \<or> accept_step lossy (\<rho> i) (\<rho> (Suc i))" using assms(1) by (simp add: is_run_def)
  with step.IH assms(2) show ?case by auto
qed (rule assms(3))

text \<open>A phase that ends, ends in one step.\<close>

lemma first_change:
  assumes "Q (f n)" "\<not> Q (f m)" "n \<le> m"
  obtains i where "n \<le> i" "Q (f i)" "\<not> Q (f (Suc i))"
proof -
  have "\<exists>i \<ge> n. Q (f i) \<and> \<not> Q (f (Suc i))"
  proof (rule ccontr)
    assume no: "\<not> ?thesis"
    have "Q (f m)" using assms(3)
    proof (induction rule: dec_induct)
      case (step i)
      with no show ?case by blast
    qed (rule assms(1))
    with assms(2) show False by simp
  qed
  with that show thesis by blast
qed

lemma phase_ends:
  assumes "fair_run \<rho>" "threads (\<rho> n) c = Some ph" "ph \<noteq> InService"
  obtains i where "n \<le> i" "threads (\<rho> i) c = Some ph" "threads (\<rho> (Suc i)) c \<noteq> Some ph"
    "accept_step False (\<rho> i) (\<rho> (Suc i))"
proof -
  obtain m where "n \<le> m" "threads (\<rho> m) c \<noteq> Some ph"
    using assms unfolding fair_run_def threads_move_def by blast
  then obtain i where i: "n \<le> i" "threads (\<rho> i) c = Some ph" "threads (\<rho> (Suc i)) c \<noteq> Some ph"
    using first_change [of "\<lambda>d. threads d c = Some ph" \<rho> n m] assms(2) by auto
  moreover have "accept_step False (\<rho> i) (\<rho> (Suc i))"
    using assms(1) i(2,3) unfolding fair_run_def is_run_def by metis
  ultimately show thesis by (rule that)
qed

lemma store_sets:
  "accept_step lossy d d' \<Longrightarrow> threads d c = Some StoreFlag \<Longrightarrow> threads d' c \<noteq> Some StoreFlag \<Longrightarrow>
   accept_inv d \<Longrightarrow> stopping d'"
  by (erule accept_stepE) (auto simp: take_turn_simps accept_inv_def split: if_splits)

lemma wake_fills:
  "accept_step False d d' \<Longrightarrow> threads d c = Some WakeLoop \<Longrightarrow> threads d' c \<noteq> Some WakeLoop \<Longrightarrow>
   stopping d \<Longrightarrow> backlog d' \<noteq> []"
  by (erule accept_stepE) (auto simp: take_turn_simps split: if_splits)

lemma taken_returns: "taken d d' \<Longrightarrow> stopping d \<Longrightarrow> loop_result d' = Some (Ok ())"
  by (auto simp: taken_def take_turn_simps)

lemma backlog_stays:
  "accept_step lossy d d' \<Longrightarrow> stopping d \<Longrightarrow> loop_result d' = None \<Longrightarrow> backlog d \<noteq> [] \<Longrightarrow> backlog d' \<noteq> []"
  by (erule accept_stepE) (auto simp: take_turn_simps split: if_splits)

subsection \<open>A run with two connections\<close>

text \<open>Two connections are accepted; the first asks for a shutdown while the second is in service.\<close>

definition two_connections :: "accept_state list" where
  "two_connections =
     [accept_start,
      accept_start\<lparr>backlog := [0], known := {0}\<rparr>,
      accept_start\<lparr>known := {0}, threads := [0 \<mapsto> InService]\<rparr>,
      accept_start\<lparr>backlog := [1], known := {1, 0}, threads := [0 \<mapsto> InService]\<rparr>,
      accept_start\<lparr>known := {1, 0}, threads := [0 \<mapsto> InService, 1 \<mapsto> InService]\<rparr>,
      accept_start\<lparr>known := {1, 0}, threads := [0 \<mapsto> StoreFlag, 1 \<mapsto> InService], asked := {0}\<rparr>,
      accept_start\<lparr>known := {1, 0}, threads := [0 \<mapsto> WakeLoop, 1 \<mapsto> InService], asked := {0},
        stopping := True\<rparr>,
      accept_start\<lparr>backlog := [2], known := {2, 1, 0}, threads := [1 \<mapsto> InService], asked := {0},
        stopping := True\<rparr>,
      accept_start\<lparr>known := {2, 1, 0}, threads := [1 \<mapsto> InService], asked := {0},
        stopping := True, loop_result := Some (Ok ())\<rparr>]"

lemma two_connections_steps:
  "n < 8 \<Longrightarrow> accept_step False (two_connections ! n) (two_connections ! Suc n)"
proof -
  let ?s = "\<lambda>i. two_connections ! i"
  have "accept_step False (?s 0) (?s 1)"
    using accept_step.arrive [of "?s 0" 0 False] by (simp add: two_connections_def accept_start_def)
  moreover have "accept_step False (?s 1) (?s 2)"
    using accept_step.turn [of "?s 1" 0 "[]" False]
    by (simp add: two_connections_def accept_start_def take_turn_simps)
  moreover have "accept_step False (?s 2) (?s 3)"
    using accept_step.arrive [of "?s 2" 1 False] by (simp add: two_connections_def accept_start_def)
  moreover have "accept_step False (?s 3) (?s 4)"
    using accept_step.turn [of "?s 3" 1 "[]" False]
    by (simp add: two_connections_def accept_start_def take_turn_simps)
  moreover have "accept_step False (?s 4) (?s 5)"
    using accept_step.over [of "?s 4" 0 False ShutdownRequested]
    by (simp add: two_connections_def accept_start_def thread_after_def fun_upd_twist)
  moreover have "accept_step False (?s 5) (?s 6)"
    using accept_step.store [of "?s 5" 0 False]
    by (simp add: two_connections_def accept_start_def fun_upd_twist)
  moreover have "accept_step False (?s 6) (?s 7)"
    using accept_step.wake [of "?s 6" 0 2 False]
    by (simp add: two_connections_def accept_start_def fun_upd_twist)
  moreover have "accept_step False (?s 7) (?s 8)"
    using accept_step.turn [of "?s 7" 2 "[]" False]
    by (simp add: two_connections_def accept_start_def take_turn_simps)
  moreover assume "n < 8"
  then have "n \<in> {0, 1, 2, 3, 4, 5, 6, 7}" by auto
  ultimately show ?thesis by (auto simp: eval_nat_numeral)
qed

lemma two_connections_from:
  "n + k \<le> 8 \<Longrightarrow> accept_steps False (two_connections ! n) (two_connections ! (n + k))"
proof (induction k)
  case (Suc k)
  then show ?case
    using two_connections_steps [of "n + k"] by (auto intro: rtranclp.rtrancl_into_rtrancl)
qed simp

lemma two_connections_reached: "n \<le> 8 \<Longrightarrow> accept_steps False accept_start (two_connections ! n)"
  using two_connections_from [of 0 n] by (simp add: two_connections_def)

definition two_connections_run :: "nat \<Rightarrow> accept_state" where
  "two_connections_run n = two_connections ! min n 8"

lemma two_connections_fair: "fair_run two_connections_run"
proof -
  have "is_run False two_connections_run"
    unfolding is_run_def
  proof (intro conjI allI)
    show "two_connections_run 0 = accept_start"
      by (simp add: two_connections_run_def two_connections_def)
    show "two_connections_run (Suc n) = two_connections_run n \<or>
        accept_step False (two_connections_run n) (two_connections_run (Suc n))" for n
      using two_connections_steps [of n] by (cases "n < 8") (simp_all add: two_connections_run_def)
  qed
  moreover have last: "two_connections_run (n + 8) = two_connections ! 8" for n
    by (simp add: two_connections_run_def)
  then have "threads (two_connections_run (n + 8)) c \<noteq> Some ph" if "ph \<noteq> InService" for n c ph
    using that by (simp add: two_connections_def accept_start_def)
  then have "threads_move two_connections_run" unfolding threads_move_def by (metis le_add1)
  moreover have "loop_result (two_connections_run (n + 8)) \<noteq> None" for n
    using last by (simp add: two_connections_def)
  then have "loop_moves two_connections_run" unfolding loop_moves_def by (metis le_add1)
  ultimately show ?thesis by (simp add: fair_run_def)
qed

subsection \<open>The claims\<close>

text \<open>
  Once the shared flag is set it stays set and no further connection is served: whatever
  arrives, is accepted or fails, every connection in service later was in service then. The loop
  returns without an error only after some connection has asked for a shutdown.
\<close>

theorem nothing_is_served_after_the_flag:
  assumes "accept_steps lossy accept_start d" "accept_steps lossy d d'"
  shows "(stopping d \<longrightarrow> stopping d' \<and>
      (\<forall>c. threads d' c = Some InService \<longrightarrow> threads d c = Some InService)) \<and>
    (loop_result d' = Some (Ok ()) \<longrightarrow> stopping d' \<and> asked d' \<noteq> {})"
proof -
  have "stopping d \<longrightarrow> stopping d' \<and>
      (\<forall>c. threads d' c = Some InService \<longrightarrow> threads d c = Some InService)"
    using assms(2)
    by (induction rule: rtranclp_induct) (auto dest: stopping_stays stopping_starts_nothing)
  moreover have "accept_inv d'"
    by (rule accept_steps_inv [OF assms(2) accept_steps_inv [OF assms(1) accept_start_inv(1)]])
  ultimately show ?thesis by (auto simp: accept_inv_def)
qed

lemma nothing_is_served_after_the_flag_witness:
  "stopping (two_connections ! 6) \<and> stopping (two_connections ! 8) \<and>
     asked (two_connections ! 8) \<noteq> {} \<and> threads (two_connections ! 8) 0 \<noteq> Some InService"
proof -
  have "stopping (two_connections ! 6)" "threads (two_connections ! 6) 0 \<noteq> Some InService"
    "loop_result (two_connections ! 8) = Some (Ok ())"
    by (simp_all add: two_connections_def)
  with nothing_is_served_after_the_flag [of False "two_connections ! 6" "two_connections ! 8"]
    two_connections_reached [of 6] two_connections_from [of 6 2] show ?thesis by auto
qed

text \<open>
  C6: in every fair run in which some connection asks for a shutdown, the accept loop returns:
  the thread of that connection sets the flag and connects once, the loop takes a connection and
  sees the flag. Without the waking connection the loop could wait for ever.
\<close>

theorem a_shutdown_ends_the_loop:
  assumes "fair_run \<rho>" "asked (\<rho> n) \<noteq> {}"
  shows "\<exists>m. loop_result (\<rho> m) \<noteq> None"
proof (rule ccontr)
  assume "\<not> ?thesis"
  then have none: "loop_result (\<rho> m) = None" for m by simp
  have run: "is_run False \<rho>" using assms(1) by (simp add: fair_run_def)
  note reach = run_reachable [OF run]
  have inv: "accept_inv (\<rho> m)" for m by (rule accept_steps_inv [OF reach accept_start_inv(1)])
  have stays: "stopping (\<rho> m)" if "stopping (\<rho> i)" "i \<le> m" for i m
    using run_keeps [where Q = stopping, OF run stopping_stays that] by simp
  obtain i where i: "stopping (\<rho> i)"
    using flag_steps_inv [OF reach [of n]] assms(2)
      phase_ends [OF assms(1), of n _ StoreFlag] store_sets inv
    unfolding flag_inv_def by (metis thread_phase.distinct(1))
  obtain j where j: "i \<le> j" "backlog (\<rho> j) \<noteq> []"
  proof (cases "\<exists>c. threads (\<rho> i) c = Some WakeLoop")
    case True
    then obtain c k where "i \<le> k" "threads (\<rho> k) c = Some WakeLoop"
      "threads (\<rho> (Suc k)) c \<noteq> Some WakeLoop" "accept_step False (\<rho> k) (\<rho> (Suc k))"
      using phase_ends [OF assms(1), of i _ WakeLoop] by (metis thread_phase.distinct(3))
    with wake_fills stays [OF i] show thesis by (intro that [of "Suc k"]) auto
  next
    case False
    with wake_steps_inv [OF reach [of i] accept_start_inv(2)] i none that [of i] show thesis
      by (auto simp: wake_inv_def)
  qed
  have full: "backlog (\<rho> m) \<noteq> []" if "j \<le> m" for m
    using that
  proof (induction rule: dec_induct)
    case (step k)
    with run have "\<rho> (Suc k) = \<rho> k \<or> accept_step False (\<rho> k) (\<rho> (Suc k))" by (simp add: is_run_def)
    with step.IH backlog_stays [OF _ stays [OF i] none] step.hyps j(1) show ?case by fastforce
  qed (rule j(2))
  with none assms(1) obtain m where "j \<le> m" "taken (\<rho> m) (\<rho> (Suc m))"
    unfolding fair_run_def loop_moves_def by metis
  with taken_returns stays [OF i, of m] j(1) none [of "Suc m"] show False by auto
qed

lemma a_shutdown_ends_the_loop_witness:
  "\<exists>m. loop_result (two_connections_run m) \<noteq> None"
  by (rule a_shutdown_ends_the_loop [OF two_connections_fair, of 5])
    (simp add: two_connections_run_def two_connections_def)

text \<open>
  The loop does not wait for the connections in service: it can return, and the process with
  it end, while another connection is still being served.
\<close>

theorem the_loop_leaves_connections_behind:
  "\<exists>d c. accept_steps False accept_start d \<and> loop_result d = Some (Ok ()) \<and>
     threads d c = Some InService \<and> c \<notin> asked d"
proof (intro exI conjI)
  show "accept_steps False accept_start (two_connections ! 8)" by (rule two_connections_reached) simp
  show "threads (two_connections ! 8) 1 = Some InService" "1 \<notin> asked (two_connections ! 8)"
    "loop_result (two_connections ! 8) = Some (Ok ())"
    by (simp_all add: two_connections_def)
qed

end
