(* ===== verification/EndProps.thy ===== *)
theory EndProps
  imports SystemProps
begin

section \<open>What a process gives back\<close>

text \<open>
  A process of the daemon opens handles (the lock file, the socket) and closes them itself: the guard
  and the listener are dropped on every way out of \<open>src/lock.rs\<close>, \<open>src/endpoint.rs\<close>, \<open>src/lib.rs\<close>
  and \<open>src/main.rs\<close>, whatever the operating system answers. The monitor here is the set of handles
  the process was handed and has not closed; \<open>releasing\<close> interprets \<open>pool\<close> with it, so that the
  claim holds of every interleaving. \<open>kill\<close> plays no part in it: the process is still there.
\<close>

subsection \<open>The handles a program was handed\<close>

fun handed :: "syscall \<Rightarrow> answer \<Rightarrow> nat set \<Rightarrow> nat set" where
  "handed (OpenFile k) (Handle h) hs = insert h hs"
| "handed (BindSocket k) (Handle h) hs = insert h hs"
| "handed (Close h) r hs = hs - {h}"
| "handed c r hs = hs"

definition releases :: "(nat set \<Rightarrow> 'a \<Rightarrow> bool) \<Rightarrow> 'a prog \<Rightarrow> nat set \<Rightarrow> bool" where
  "releases fin p hs = along (\<lambda>_ _. True) handed fin p hs"

lemma releases_simps [simp]:
  "releases fin (Ret a) hs = fin hs a"
  "releases fin (Call c k) hs = (\<forall>r. releases fin (k r) (handed c r hs))"
  "releases fin (ignoring c p) hs = (\<forall>r. releases fin p (handed c r hs))"
  by (simp_all add: releases_def ignoring_def)




subsection \<open>The functions of the source\<close>













subsection \<open>Many processes\<close>









subsection \<open>The claim\<close>



end
