(* ===== verification/ConnLife.thy ===== *)
theory ConnLife
  imports ConnSpec EngineProtocol
begin

section \<open>A connection, one arrival at a time\<close>

text \<open>
  The whole life of a connection as a machine on what arrives: a frame's body, or the way the
  stream ends. It is \<open>conn_script\<close> cut into its steps, the handshake included, so that the
  connections of a daemon can take their steps in any order.
\<close>

datatype ('db, 'tx) conn = Greeting | Talking u64 "('db, 'tx) mode"
datatype arrival = Body string | EndOfStream frame_error

fun conn_arrival ::
  "textlib \<Rightarrow> ('w, 'db, 'tx, 'q, 'r, 's) engine \<Rightarrow> limits \<Rightarrow> string \<Rightarrow> string \<Rightarrow>
   ('db, 'tx) conn \<Rightarrow> arrival \<Rightarrow> 'w \<Rightarrow> (ended + ('db, 'tx) conn) \<times> json list \<times> 'w" where
  "conn_arrival H E lim cp ep Greeting (EndOfStream e) w = (Inl (ended_by e), [], w)"
| "conn_arrival H E lim cp ep Greeting (Body opening) w = (case handshake H opening of
     Inl _ \<Rightarrow> (Inl HandshakeRefused, [refused_reply], w)
   | Inr v \<Rightarrow>
      (if deliverable H lim (welcome_reply v ep)
       then (Inr (Talking v (Outside slot_new)), [welcome_reply v ep], w)
       else (Inl TransportFailed, [welcome_reply v ep], w)))"
| "conn_arrival H E lim cp ep (Talking v m) (EndOfStream e) w =
     (Inl (ended_by e), farewell v m e, hangup E m w)"
| "conn_arrival H E lim cp ep (Talking v m) (Body body) w =
     (case conn_step H E lim cp ep v m body w of
        (Stop x, reply, w') \<Rightarrow> (Inl x, [reply], w')
      | (Go m', reply, w') \<Rightarrow> (Inr (Talking v m'), [reply], w'))"

fun conn_life ::
  "textlib \<Rightarrow> ('w, 'db, 'tx, 'q, 'r, 's) engine \<Rightarrow> limits \<Rightarrow> string \<Rightarrow> string \<Rightarrow>
   ('db, 'tx) conn \<Rightarrow> arrival list \<Rightarrow> 'w \<Rightarrow> (ended + ('db, 'tx) conn) \<times> json list \<times> 'w" where
  "conn_life H E lim cp ep cn [] w = (Inr cn, [], w)"
| "conn_life H E lim cp ep cn (a # as) w = (case conn_arrival H E lim cp ep cn a w of
     (Inl x, replies, w') \<Rightarrow> (Inl x, replies, w')
   | (Inr cn', replies, w') \<Rightarrow>
      (let (r, tail, w'') = conn_life H E lim cp ep cn' as w' in (r, replies @ tail, w'')))"

lemma conn_life_run:
  "conn_life H E lim cp ep (Talking v m) (map Body bodies @ [EndOfStream e]) w =
     (case conn_run H E lim cp ep v m bodies e w of (x, replies, w') \<Rightarrow> (Inl x, replies, w'))"
  by (induction bodies arbitrary: m w)
    (auto simp: case_prod_beta split: prod.split verdict.split simp del: conn_step.simps)

text \<open>The life of a connection is the script of its bodies.\<close>

lemma conn_life_script:
  "conn_life H E lim cp ep Greeting (map Body bodies @ [EndOfStream e]) w =
     (case conn_script H E lim cp ep bodies e w of (x, replies, w') \<Rightarrow> (Inl x, replies, w'))"
  by (cases bodies)
    (auto simp: conn_script_def conn_life_run case_prod_beta split: sum.split prod.split)

lemma conn_life_append:
  "conn_life H E lim cp ep cn (as @ bs) w = (case conn_life H E lim cp ep cn as w of
     (Inl x, replies, w') \<Rightarrow> (Inl x, replies, w')
   | (Inr cn', replies, w') \<Rightarrow>
      (let (r, tail, w'') = conn_life H E lim cp ep cn' bs w' in (r, replies @ tail, w'')))"
  by (induction as arbitrary: cn w)
    (auto simp: case_prod_beta Let_def split: prod.split sum.split)

lemma conn_life_snoc:
  assumes "conn_life H E lim cp ep cn as w = (Inr cn', replies, w')"
    "conn_arrival H E lim cp ep cn' a w' = (r, tail, w'')"
  shows "conn_life H E lim cp ep cn (as @ [a]) w = (r, replies @ tail, w'')"
  using assms by (auto simp: conn_life_append split: sum.split)

subsection \<open>The protocol of its Engine calls\<close>

context engine_protocol
begin

fun mode_inv :: "('db, 'tx) mode \<Rightarrow> 'w \<Rightarrow> bool" where
  "mode_inv (Outside sl) w = slot_inv sl w"
| "mode_inv (Inside sl base held tx) w = (busy tx w \<and> slot_session sl \<noteq> None)"

fun conn_inv :: "('db, 'tx) conn \<Rightarrow> 'w \<Rightarrow> bool" where
  "conn_inv Greeting w = vacant w"
| "conn_inv (Talking v m) w = mode_inv m w"

lemma slot_put_idle: "slot_session sl = Some s \<Longrightarrow> idle db w \<Longrightarrow> slot_inv (slot_put db sl) w"
  by (auto simp: slot_inv_def slot_put_def)

lemma hangup_vacant: "mode_inv m w \<Longrightarrow> vacant (hangup E m w)"
  by (cases m) (auto split: prod.split intro: slot_drop_vacant slot_put_idle rollback_idle)

definition verdict_inv :: "('db, 'tx) verdict \<Rightarrow> 'w \<Rightarrow> bool" where
  "verdict_inv r w = (case r of Go m \<Rightarrow> mode_inv m w | Stop x \<Rightarrow> vacant w)"

lemma checked_inv:
  "mode_inv m w \<Longrightarrow> checked H E lim m x w = (r, y, w') \<Longrightarrow> verdict_inv r w'"
  by (auto simp: checked_def verdict_inv_def hangup_vacant split: if_splits)

lemma begin_step_inv:
  assumes "slot_inv sl w" "begin_step H E lim v req sl w = (r, x, w')"
  shows "verdict_inv r w'"
proof (cases "slot_resolve (session_id req) sl")
  case (Inr sess)
  then have open_: "slot_session sl \<noteq> None" by (auto simp: slot_resolve_def split: option.splits)
  note idle = slot_resolve_inv [OF assms(1) Inr]
  show ?thesis
  proof (cases "tx_begin E (sess_database sess) w")
    case (Pair o1 w1)
    show ?thesis
    proof (cases o1)
      case (Inl e)
      obtain msg db where e: "e = (msg, db)" by (cases e)
      with Inl Pair begin_Inl [OF idle] have "idle db w1" by simp
      with assms(2) Inr Pair Inl e open_ show ?thesis
        by (auto simp: begin_step_def verdict_inv_def intro: slot_put_idle)
    next
      case tx: (Inr tx)
      with Pair idle open_ have "mode_inv (Inside sl (tx_base E tx) {} tx) w1" by (auto intro: begin_Inr)
      from checked_inv [OF this] assms(2) Inr Pair tx show ?thesis by (auto simp: begin_step_def)
    qed
  qed
qed (use assms in \<open>auto simp: begin_step_def verdict_inv_def\<close>)

lemma conn_step_inv:
  assumes "mode_inv m w" "conn_step H E lim cp ep v m body w = (r, x, w')"
  shows "verdict_inv r w'"
proof (cases m)
  case (Outside sl)
  with assms(1) have sl: "slot_inv sl w" by simp
  show ?thesis
  proof (cases "decode_request H body {}")
    case (Inr req)
    obtain y sl1 w1 where d: "dispatch H E lim cp ep v req sl w = (y, sl1, w1)"
      by (cases "dispatch H E lim cp ep v req sl w") auto
    note inv = dispatch_inv [OF sl d]
    show ?thesis
    proof (cases y)
      case (Send z)
      with assms(2) Outside Inr d show ?thesis
        using checked_inv [of "Outside sl1" w1] inv by (auto simp: outside_step_def)
    next
      case Transaction
      with assms(2) Outside Inr d show ?thesis
        using begin_step_inv [OF inv] by (auto simp: outside_step_def)
    next
      case (Shutdown_Reply z)
      with assms(2) Outside Inr d show ?thesis
        using slot_drop_vacant [OF inv] by (auto simp: outside_step_def verdict_inv_def)
    qed
  qed (use assms Outside in \<open>auto simp: verdict_inv_def\<close>)
next
  case (Inside sl base held tx)
  with assms(1) have tx: "busy tx w" "slot_session sl \<noteq> None" by auto
  show ?thesis
  proof (cases "decode_request H body held")
    case (Inl e)
    with assms Inside show ?thesis using checked_inv [of m w] by auto
  next
    case (Inr req)
    note step = region_request_inv [OF tx(1), of lim v base req]
    show ?thesis
    proof (cases "region_request E lim v base req tx w")
      case (Finish y db w1)
      with assms(2) Inside Inr step tx show ?thesis
        by (auto simp: inside_step_def verdict_inv_def intro: slot_put_idle)
    next
      case (Respond y tx1 w1)
      with step tx have "mode_inv (Inside sl base (held - {request_id req}) tx1) w1" by simp
      from checked_inv [OF this] assms(2) Inside Inr Respond show ?thesis by (auto simp: inside_step_def)
    next
      case (RespondKeep y)
      with assms(2) Inside Inr tx show ?thesis by (auto simp: inside_step_def verdict_inv_def)
    qed
  qed
qed

lemma conn_arrival_inv:
  assumes "conn_inv cn w" "conn_arrival H E lim cp ep cn a w = (r, replies, w')"
  shows "case r of Inl x \<Rightarrow> vacant w' | Inr cn' \<Rightarrow> conn_inv cn' w'"
proof (cases cn)
  case Greeting
  with assms show ?thesis
    by (cases a) (auto split: sum.splits if_splits intro: slot_inv_new)
next
  case (Talking v m)
  show ?thesis
  proof (cases a)
    case (Body body)
    obtain r1 x w1 where s: "conn_step H E lim cp ep v m body w = (r1, x, w1)"
      by (cases "conn_step H E lim cp ep v m body w") auto
    with conn_step_inv [OF _ s] assms Talking Body show ?thesis
      by (cases r1) (auto simp: verdict_inv_def simp del: conn_step.simps)
  next
    case (EndOfStream e)
    with assms Talking hangup_vacant show ?thesis by auto
  qed
qed

end

end
