(* ===== verification/EngineSim.thy ===== *)
theory EngineSim
  imports ConnLife EngineMap
begin

section \<open>Engines that other threads use too\<close>

text \<open>
  A thread of the daemon shares the world with the other threads and with other processes: before
  each of its Engine calls the world may have been changed. \<open>seen\<close> is the Engine as one thread
  sees it, given the worlds its calls will find; it keeps account of whether the others could have
  made these changes and whether enough worlds were given. \<open>scripted\<close> is the Engine of a thread
  alone whose world is that script.

  The locale \<open>engine_sim\<close> is \<open>engine_map\<close> under a condition that a call never restores: as long as
  the run stays \<open>ok\<close>, the two Engines answer alike.
\<close>

locale engine_sim =
  fixes E :: "('w, 'db, 'tx, 'q, 'r, 's) engine"
    and F :: "('v, 'db, 'tx, 'q, 'r, 's) engine"
    and h :: "'w \<Rightarrow> 'v"
    and ok :: "'w \<Rightarrow> bool"
  assumes sim_read: "read_file E p w = (r, w') \<Longrightarrow> ok w' \<Longrightarrow> ok w \<and> read_file F p (h w) = (r, h w')"
    and sim_open: "db_open E p w = (o1, w') \<Longrightarrow> ok w' \<Longrightarrow> ok w \<and> db_open F p (h w) = (o1, h w')"
    and sim_drop: "ok (db_drop E db w) \<Longrightarrow> ok w \<and> db_drop F db (h w) = h (db_drop E db w)"
    and sim_begin: "tx_begin E db w = (b, w') \<Longrightarrow> ok w' \<Longrightarrow> ok w \<and> tx_begin F db (h w) = (b, h w')"
    and sim_run: "tx_run E q t tx w = (res, tx', w') \<Longrightarrow> ok w' \<Longrightarrow>
      ok w \<and> tx_run F q t tx (h w) = (res, tx', h w')"
    and sim_commit: "tx_commit E tx w = (g, db, w') \<Longrightarrow> ok w' \<Longrightarrow>
      ok w \<and> tx_commit F tx (h w) = (g, db, h w')"
    and sim_rollback: "tx_rollback E tx w = (db, w') \<Longrightarrow> ok w' \<Longrightarrow>
      ok w \<and> tx_rollback F tx (h w) = (db, h w')"
    and sim_pure: "cypher_parse F = cypher_parse E" "tx_base F = tx_base E"
      "tx_writes F = tx_writes E" "writes_empty F = writes_empty E"
      "row_count F = row_count E" "envelope_json F = envelope_json E"
begin

lemma envelope_response_sim:
  "envelope_response F v req res g wr lim = envelope_response E v req res g wr lim"
  by (simp add: envelope_response_def sim_pure)

lemma slot_open_sim:
  assumes "slot_open E name c sl w = (r, sl', w')" "ok w'"
  shows "ok w \<and> slot_open F name c sl (h w) = (r, sl', h w')"
  using assms
  by (auto simp: slot_open_def Let_def split: option.splits prod.splits sum.splits dest: sim_open)

lemma slot_close_sim:
  assumes "slot_close E sl w = (b, sl', w')" "ok w'"
  shows "ok w \<and> slot_close F sl (h w) = (b, sl', h w')"
  using assms by (auto simp: slot_close_def split: option.splits dest: sim_drop)

lemma slot_drop_sim:
  assumes "ok (slot_drop E sl w)"
  shows "ok w \<and> slot_drop F sl (h w) = h (slot_drop E sl w)"
  using assms slot_close_sim [of sl w "fst (slot_close E sl w)"]
  by (cases "slot_close E sl w") (auto simp: slot_drop_def)

lemma run_one_sim:
  assumes run: "run_one E lim v req stmt db w = (x, db', w')" and ok: "ok w'"
  shows "ok w \<and> run_one F lim v req stmt db (h w) = (x, db', h w')"
proof (cases "cypher_parse E stmt")
  case (Inl e)
  with run ok show ?thesis by (simp add: run_one_def sim_pure)
next
  case q: (Inr q)
  obtain b w1 where b: "tx_begin E db w = (b, w1)" by fastforce
  show ?thesis
  proof (cases b)
    case (Inl e)
    with q run b have "w1 = w'" by (cases e) (simp add: run_one_def)
    with sim_begin [OF b] q run b Inl ok show ?thesis by (cases e) (simp add: run_one_def sim_pure)
  next
    case (Inr tx)
    obtain res tx1 w2 where r: "tx_run E q (query_timeout lim) tx w1 = (res, tx1, w2)"
      by (cases "tx_run E q (query_timeout lim) tx w1") auto
    obtain g dbc w3 where c: "tx_commit E tx1 w2 = (g, dbc, w3)" by (cases "tx_commit E tx1 w2") auto
    obtain dbr w4 where a: "tx_rollback E tx1 w2 = (dbr, w4)" by fastforce
    define commits where "commits = (\<exists>y. res = Inr y \<and> \<not> writes_empty E (tx_writes E tx1))"
    have last: "w' = (if commits then w3 else w4)"
      using run q b Inr r c a unfolding commits_def
      by (cases res; cases g) (auto simp: run_one_def Let_def split: if_splits)
    then have "ok w2" using ok sim_commit [OF c] sim_rollback [OF a] by (auto split: if_splits)
    from sim_run [OF r this] have w1: "ok w1" "tx_run F q (query_timeout lim) tx (h w1) = (res, tx1, h w2)"
      by simp_all
    from sim_begin [OF b w1(1)] have w: "ok w" "tx_begin F db (h w) = (b, h w1)" by simp_all
    show ?thesis
    proof (cases commits)
      case True
      then obtain y where "res = Inr y" "\<not> writes_empty E (tx_writes E tx1)" by (auto simp: commits_def)
      with sim_commit [OF c] last True ok w w1 q Inr run b r c show ?thesis
        by (cases g) (simp_all add: run_one_def sim_pure envelope_response_sim)
    next
      case False
      then have "(\<exists>e. res = Inl e) \<or> (\<exists>y. res = Inr y) \<and> writes_empty E (tx_writes E tx1)"
        by (cases res) (auto simp: commits_def)
      with sim_rollback [OF a] last False ok w w1 q Inr run b r a show ?thesis
        by (auto simp: run_one_def sim_pure envelope_response_sim)
    qed
  qed
qed

lemma dispatch_open_sim:
  assumes run: "dispatch_open H E cp v req sl w = (y, sl', w')" and ok: "ok w'"
  shows "ok w \<and> dispatch_open H F cp v req sl (h w) = (y, sl', h w')"
proof (cases "request.database req")
  case None
  with run ok show ?thesis by (simp add: dispatch_open_def)
next
  case (Some name)
  obtain contents w1 where r: "read_file E cp w = (contents, w1)" by fastforce
  show ?thesis
  proof (cases "catalog_load H contents")
    case (Inl e)
    with run Some r have "w1 = w'" by (simp add: dispatch_open_def)
    with sim_read [OF r] run ok Some r Inl show ?thesis by (simp add: dispatch_open_def)
  next
    case (Inr c)
    obtain o1 sl1 w2 where o: "slot_open E name c sl w1 = (o1, sl1, w2)"
      by (cases "slot_open E name c sl w1") auto
    have "w2 = w'" using run Some r Inr o by (cases o1 rule: sum.exhaust)
        (auto simp: dispatch_open_def split: open_error.splits)
    with slot_open_sim [OF o] ok have w1: "ok w1" "slot_open F name c sl (h w1) = (o1, sl1, h w')" by simp_all
    from sim_read [OF r w1(1)] run Some r Inr o w1 \<open>w2 = w'\<close> show ?thesis
      by (cases o1) (auto simp: dispatch_open_def split: open_error.splits)
  qed
qed

lemma dispatch_query_sim:
  assumes run: "dispatch_query E lim v req sl w = (y, sl', w')" and ok: "ok w'"
  shows "ok w \<and> dispatch_query F lim v req sl (h w) = (y, sl', h w')"
  using assms
  by (auto simp: dispatch_query_def Let_def split: sum.splits option.splits prod.splits dest: run_one_sim)

lemma dispatch_sim:
  assumes run: "dispatch H E lim cp ep v req sl w = (y, sl', w')" and ok: "ok w'"
  shows "ok w \<and> dispatch H F lim cp ep v req sl (h w) = (y, sl', h w')"
proof (cases "req_operation req")
  case CloseSession
  obtain b sl1 w1 where c: "slot_close E sl w = (b, sl1, w1)" by (cases "slot_close E sl w") auto
  with run CloseSession have "w1 = w'" by (simp add: dispatch.simps)
  with slot_close_sim [OF c] run ok c CloseSession show ?thesis by (simp add: dispatch.simps)
qed (use assms in \<open>auto simp: dispatch.simps split: sum.splits dest: dispatch_open_sim dispatch_query_sim\<close>)

fun act_ok :: "('tx, 'db, 'w) region_act \<Rightarrow> bool" where
  "act_ok (Finish x db w) = ok w"
| "act_ok (Respond x tx w) = ok w"
| "act_ok (RespondKeep x) = True"

lemma region_request_sim:
  assumes "act_ok (region_request E lim v base req tx w)"
  shows "region_request F lim v base req tx (h w) =
      map_region_act (\<lambda>x. x) (\<lambda>x. x) h (region_request E lim v base req tx w)"
    "(\<forall>x. region_request E lim v base req tx w \<noteq> RespondKeep x) \<longrightarrow> ok w"
proof -
  have goal: "region_request F lim v base req tx (h w) =
      map_region_act (\<lambda>x. x) (\<lambda>x. x) h (region_request E lim v base req tx w) \<and>
    ((\<forall>x. region_request E lim v base req tx w \<noteq> RespondKeep x) \<longrightarrow> ok w)"
  proof (cases "req_operation req")
    case Commit
    obtain g db w' where c: "tx_commit E tx w = (g, db, w')" by (cases "tx_commit E tx w") auto
    with assms Commit have "ok w'" by (cases g) (simp_all add: region_request_def)
    from sim_commit [OF c this] c Commit show ?thesis by (cases g) (simp_all add: region_request_def)
  next
    case Rollback
    obtain db w' where c: "tx_rollback E tx w = (db, w')" by fastforce
    with assms Rollback have "ok w'" by (simp add: region_request_def)
    from sim_rollback [OF c this] c Rollback show ?thesis by (simp add: region_request_def)
  next
    case Query
    show ?thesis
    proof (cases "statement req")
      case (Some stmt)
      show ?thesis
      proof (cases "cypher_parse E stmt")
        case (Inr q)
        obtain r tx' w' where c: "tx_run E q (query_timeout lim) tx w = (r, tx', w')"
          by (cases "tx_run E q (query_timeout lim) tx w") auto
        with assms Query Some Inr have "ok w'"
          by (cases r) (simp_all add: region_request_def region_query_def)
        from sim_run [OF c this] c Query Some Inr show ?thesis
          by (cases r) (simp_all add: region_request_def region_query_def sim_pure envelope_response_sim)
      qed (use assms Query Some in \<open>simp add: region_request_def region_query_def sim_pure\<close>)
    qed (use assms Query in \<open>simp add: region_request_def region_query_def\<close>)
  qed (use assms in \<open>simp_all add: region_request_def\<close>)
  then show "region_request F lim v base req tx (h w) =
      map_region_act (\<lambda>x. x) (\<lambda>x. x) h (region_request E lim v base req tx w)"
    "(\<forall>x. region_request E lim v base req tx w \<noteq> RespondKeep x) \<longrightarrow> ok w" by blast+
qed

lemma hangup_sim: "ok (hangup E m w) \<Longrightarrow> ok w \<and> hangup F m (h w) = h (hangup E m w)"
proof (cases m)
  case (Inside sl base held tx)
  obtain db w' where r: "tx_rollback E tx w = (db, w')" by fastforce
  assume ok: "ok (hangup E m w)"
  with Inside r have "ok (slot_drop E (slot_put db sl) w')" by simp
  from slot_drop_sim [OF this] sim_rollback [OF r] r Inside show ?thesis by simp
qed (simp add: slot_drop_sim)

lemma checked_sim:
  assumes "checked H E lim m x w = (r, y, w')" "ok w'"
  shows "ok w \<and> checked H F lim m x (h w) = (r, y, h w')"
  using assms hangup_sim [of m w] by (auto simp: checked_def split: if_splits)

lemma begin_step_sim:
  assumes run: "begin_step H E lim v req sl w = (r, x, w')" and ok: "ok w'"
  shows "ok w \<and> begin_step H F lim v req sl (h w) = (r, x, h w')"
proof (cases "slot_resolve (session_id req) sl")
  case (Inr sess)
  obtain b w1 where b: "tx_begin E (sess_database sess) w = (b, w1)" by fastforce
  show ?thesis
  proof (cases b)
    case (Inl e)
    with run Inr b have "w1 = w'" by (cases e) (simp add: begin_step_def)
    with sim_begin [OF b] run ok Inr b Inl show ?thesis by (cases e) (simp add: begin_step_def)
  next
    case tx: (Inr tx)
    let ?m = "Inside sl (tx_base E tx) {} tx"
      and ?x = "ok_response v req (json_object [(''base_generation'', num_u64 (tx_base E tx))])"
    from run Inr b tx have c: "checked H E lim ?m ?x w1 = (r, x, w')" by (simp add: begin_step_def)
    from checked_sim [OF c ok] sim_begin [OF b] Inr tx show ?thesis
      by (auto simp: begin_step_def sim_pure)
  qed
qed (use assms in \<open>simp add: begin_step_def\<close>)

lemma outside_step_sim:
  assumes run: "outside_step H E lim cp ep v req sl w = (r, x, w')" and ok: "ok w'"
  shows "ok w \<and> outside_step H F lim cp ep v req sl (h w) = (r, x, h w')"
proof -
  obtain y sl1 w1 where d: "dispatch H E lim cp ep v req sl w = (y, sl1, w1)"
    by (cases "dispatch H E lim cp ep v req sl w") auto
  show ?thesis
  proof (cases y)
    case (Send z)
    with run d have c: "checked H E lim (Outside sl1) z w1 = (r, x, w')" by (simp add: outside_step_def)
    from checked_sim [OF c ok] dispatch_sim [OF d] Send show ?thesis by (auto simp: outside_step_def)
  next
    case Transaction
    with run d have b: "begin_step H E lim v req sl1 w1 = (r, x, w')" by (simp add: outside_step_def)
    from begin_step_sim [OF b ok] dispatch_sim [OF d] Transaction show ?thesis
      by (auto simp: outside_step_def)
  next
    case (Shutdown_Reply z)
    with run d ok have "ok (slot_drop E sl1 w1)" by (simp add: outside_step_def)
    from slot_drop_sim [OF this] dispatch_sim [OF d] Shutdown_Reply run d show ?thesis
      by (auto simp: outside_step_def)
  qed
qed

lemma inside_step_sim:
  assumes run: "inside_step H E lim v req sl base held tx w = (r, x, w')" and ok: "ok w'"
  shows "ok w \<and> inside_step H F lim v req sl base held tx (h w) = (r, x, h w')"
proof (cases "region_request E lim v base req tx w")
  case (Finish y db w1)
  with run ok have "act_ok (region_request E lim v base req tx w)" by (simp add: inside_step_def)
  from region_request_sim [OF this] Finish run show ?thesis by (simp add: inside_step_def)
next
  case (RespondKeep y)
  then have "act_ok (region_request E lim v base req tx w)" by simp
  from region_request_sim(1) [OF this] RespondKeep run ok show ?thesis by (simp add: inside_step_def)
next
  case (Respond y tx1 w1)
  with run have c: "checked H E lim (Inside sl base (held - {request_id req}) tx1) y w1 = (r, x, w')"
    by (simp add: inside_step_def)
  from checked_sim [OF c ok] have c': "ok w1"
    "checked H F lim (Inside sl base (held - {request_id req}) tx1) y (h w1) = (r, x, h w')" by simp_all
  with Respond have "act_ok (region_request E lim v base req tx w)" by simp
  from region_request_sim [OF this] Respond c' show ?thesis by (simp add: inside_step_def)
qed

lemma conn_step_sim:
  assumes run: "conn_step H E lim cp ep v m body w = (r, x, w')" and ok: "ok w'"
  shows "ok w \<and> conn_step H F lim cp ep v m body (h w) = (r, x, h w')"
proof (cases m)
  case (Outside sl)
  with assms show ?thesis
    by (auto split: sum.splits dest: outside_step_sim)
next
  case (Inside sl base held tx)
  with assms show ?thesis
    by (auto split: sum.splits dest: inside_step_sim checked_sim)
qed

lemma conn_arrival_sim:
  assumes run: "conn_arrival H E lim cp ep cn a w = (r, replies, w')" and ok: "ok w'"
  shows "ok w \<and> conn_arrival H F lim cp ep cn a (h w) = (r, replies, h w')"
proof (cases cn)
  case Greeting
  with assms show ?thesis by (cases a) (auto split: sum.splits if_splits)
next
  case (Talking v m)
  show ?thesis
  proof (cases a)
    case (EndOfStream e)
    with Talking assms hangup_sim [of m w] show ?thesis by auto
  next
    case (Body body)
    obtain r1 x w1 where c: "conn_step H E lim cp ep v m body w = (r1, x, w1)"
      by (cases "conn_step H E lim cp ep v m body w") auto
    from assms Talking Body c have "w1 = w'" by (cases r1) (simp_all del: conn_step.simps)
    with conn_step_sim [OF c] assms Talking Body c show ?thesis
      by (cases r1) (simp_all del: conn_step.simps)
  qed
qed

end

text \<open>Without the condition it is \<open>engine_map\<close>.\<close>

sublocale engine_map \<subseteq> engine_sim E F h "\<lambda>_. True"
  by unfold_locales (simp_all add: map_simps)

subsection \<open>One thread's view\<close>

type_synonym 'w view = "bool \<times> 'w \<times> 'w list"

definition find :: "('w \<Rightarrow> 'w \<Rightarrow> bool) \<Rightarrow> 'w view \<Rightarrow> bool \<times> 'w \<times> 'w list" where
  "find others v = (case v of (b, cur, ws) \<Rightarrow> (case ws of
     [] \<Rightarrow> (False, cur, [])
   | x # rest \<Rightarrow> (b \<and> others cur x, x, rest)))"

definition seen ::
  "('w \<Rightarrow> 'w \<Rightarrow> bool) \<Rightarrow> ('w, 'db, 'tx, 'q, 'r, 's) engine \<Rightarrow> ('w view, 'db, 'tx, 'q, 'r, 's) engine" where
  "seen others E = \<lparr>
     read_file = (\<lambda>p v. case find others v of (b, x, ws) \<Rightarrow>
       (let (r, w) = read_file E p x in (r, b, w, ws))),
     db_open = (\<lambda>p v. case find others v of (b, x, ws) \<Rightarrow>
       (let (r, w) = db_open E p x in (r, b, w, ws))),
     db_drop = (\<lambda>db v. case find others v of (b, x, ws) \<Rightarrow> (b, db_drop E db x, ws)),
     cypher_parse = cypher_parse E,
     tx_begin = (\<lambda>db v. case find others v of (b, x, ws) \<Rightarrow>
       (let (r, w) = tx_begin E db x in (r, b, w, ws))),
     tx_base = tx_base E,
     tx_run = (\<lambda>q t tx v. case find others v of (b, x, ws) \<Rightarrow>
       (let (r, tx', w) = tx_run E q t tx x in (r, tx', b, w, ws))),
     tx_writes = tx_writes E,
     tx_commit = (\<lambda>tx v. case find others v of (b, x, ws) \<Rightarrow>
       (let (r, db, w) = tx_commit E tx x in (r, db, b, w, ws))),
     tx_rollback = (\<lambda>tx v. case find others v of (b, x, ws) \<Rightarrow>
       (let (db, w) = tx_rollback E tx x in (db, b, w, ws))),
     writes_empty = writes_empty E,
     row_count = row_count E,
     envelope_json = envelope_json E\<rparr>"

text \<open>The script as a world of its own; \<open>d\<close> is found past its end.\<close>

definition next_world :: "'w \<Rightarrow> 'w list \<Rightarrow> 'w" where
  "next_world d ws = (case ws of [] \<Rightarrow> d | x # _ \<Rightarrow> x)"

definition scripted ::
  "'w \<Rightarrow> ('w, 'db, 'tx, 'q, 'r, 's) engine \<Rightarrow> ('w list, 'db, 'tx, 'q, 'r, 's) engine" where
  "scripted d E = \<lparr>
     read_file = (\<lambda>p ws. (fst (read_file E p (next_world d ws)), tl ws)),
     db_open = (\<lambda>p ws. (fst (db_open E p (next_world d ws)), tl ws)),
     db_drop = (\<lambda>db ws. tl ws),
     cypher_parse = cypher_parse E,
     tx_begin = (\<lambda>db ws. (fst (tx_begin E db (next_world d ws)), tl ws)),
     tx_base = tx_base E,
     tx_run = (\<lambda>q t tx ws. case tx_run E q t tx (next_world d ws) of (r, tx', _) \<Rightarrow> (r, tx', tl ws)),
     tx_writes = tx_writes E,
     tx_commit = (\<lambda>tx ws. case tx_commit E tx (next_world d ws) of (r, db, _) \<Rightarrow> (r, db, tl ws)),
     tx_rollback = (\<lambda>tx ws. (fst (tx_rollback E tx (next_world d ws)), tl ws)),
     writes_empty = writes_empty E,
     row_count = row_count E,
     envelope_json = envelope_json E\<rparr>"

interpretation view_sim: engine_sim "traced (seen others E)" "scripted d E"
  "\<lambda>((b, cur, ws), log). ws @ fs" "\<lambda>((b, cur, ws), log). b"
  for others and E :: "('w, 'db, 'tx, 'q, 'r, 's) engine" and d fs
  by unfold_locales
    (auto simp: traced_def seen_def scripted_def find_def next_world_def
      split: prod.splits sum.splits list.splits)

end
