(* ===== verification/Host.thy ===== *)
theory Host
  imports Accept EngineSim RegionTrace
begin

section \<open>The daemon with its connections\<close>

text \<open>
  The composition of \<open>src/lib.rs\<close>'s accept loop with \<open>src/serve.rs\<close>: every connection in service
  is a thread that runs the machine of \<open>ConnLife\<close>, and all threads share one world. A step of the
  daemon is a step of the accept loop or of one thread, which handles one arrival. Between two
  Engine calls of that thread the others may change the world as \<open>others\<close> allows, so a step is as
  interleaved as the threads are.

  Of every connection the state keeps what it heard and said, its calls of the Engine and how it
  ended; these are histories, which nothing reads.
\<close>

record ('w, 'db, 'tx) host =
  door :: accept_state
  conns :: "nat \<Rightarrow> ('db, 'tx) conn option"
  world :: 'w
  calls :: "nat \<Rightarrow> engine_call list"
  heard :: "nat \<Rightarrow> arrival list"
  said :: "nat \<Rightarrow> json list"
  over_by :: "nat \<Rightarrow> ended option"

definition host_start :: "'w \<Rightarrow> ('w, 'db, 'tx) host" where
  "host_start w = \<lparr>door = accept_start, conns = (\<lambda>_. None), world = w, calls = (\<lambda>_. []),
     heard = (\<lambda>_. []), said = (\<lambda>_. []), over_by = (\<lambda>_. None)\<rparr>"

definition serving :: "accept_state \<Rightarrow> nat set" where
  "serving d = {c. threads d c = Some InService}"

definition admit :: "nat set \<Rightarrow> (nat \<Rightarrow> ('db, 'tx) conn option) \<Rightarrow> nat \<Rightarrow> ('db, 'tx) conn option" where
  "admit new cs = (\<lambda>c. if c \<in> new then Some Greeting else cs c)"

text \<open>A thread whose connection has ended goes on as \<open>thread_after\<close> says.\<close>

definition leave :: "nat \<Rightarrow> ended \<Rightarrow> accept_state \<Rightarrow> accept_state" where
  "leave c x d = d\<lparr>threads := (threads d)(c := thread_after x),
     asked := (if x = ShutdownRequested then insert c (asked d) else asked d)\<rparr>"

definition after_arrival ::
  "nat \<Rightarrow> arrival \<Rightarrow> ended + ('db, 'tx) conn \<Rightarrow> json list \<Rightarrow> 'w \<Rightarrow> engine_call list \<Rightarrow>
   ('w, 'db, 'tx) host \<Rightarrow> ('w, 'db, 'tx) host" where
  "after_arrival c a r replies w log s = s\<lparr>
     door := (case r of Inl x \<Rightarrow> leave c x (door s) | Inr _ \<Rightarrow> door s),
     conns := (conns s)(c := (case r of Inl _ \<Rightarrow> None | Inr cn \<Rightarrow> Some cn)),
     world := w,
     calls := (calls s)(c := log),
     heard := (heard s)(c := heard s c @ [a]),
     said := (said s)(c := said s c @ replies),
     over_by := (over_by s)(c := (case r of Inl x \<Rightarrow> Some x | Inr _ \<Rightarrow> None))\<rparr>"

inductive host_step ::
  "textlib \<Rightarrow> ('w, 'db, 'tx, 'q, 'r, 's) engine \<Rightarrow> ('w \<Rightarrow> 'w \<Rightarrow> bool) \<Rightarrow> limits \<Rightarrow> string \<Rightarrow> string \<Rightarrow>
   bool \<Rightarrow> ('w, 'db, 'tx) host \<Rightarrow> ('w, 'db, 'tx) host \<Rightarrow> bool"
  for H E others lim cp ep lossy where
  accept: "accept_step lossy (door s) d \<Longrightarrow> serving (door s) \<subseteq> serving d \<Longrightarrow>
    host_step H E others lim cp ep lossy s
      (s\<lparr>door := d, conns := admit (serving d - serving (door s)) (conns s)\<rparr>)"
| serve: "conns s c = Some cn \<Longrightarrow>
    conn_arrival H (traced (seen others E)) lim cp ep cn a ((True, world s, ws), calls s c) =
      (r, replies, (True, w, []), log) \<Longrightarrow>
    host_step H E others lim cp ep lossy s (after_arrival c a r replies w log s)"

inductive_cases host_stepE: "host_step H E others lim cp ep lossy s s'"

abbreviation host_steps ::
  "textlib \<Rightarrow> ('w, 'db, 'tx, 'q, 'r, 's) engine \<Rightarrow> ('w \<Rightarrow> 'w \<Rightarrow> bool) \<Rightarrow> limits \<Rightarrow> string \<Rightarrow> string \<Rightarrow>
   bool \<Rightarrow> ('w, 'db, 'tx) host \<Rightarrow> ('w, 'db, 'tx) host \<Rightarrow> bool" where
  "host_steps H E others lim cp ep lossy \<equiv> (host_step H E others lim cp ep lossy)\<^sup>*\<^sup>*"

subsection \<open>The door\<close>

lemma leave_step:
  "threads d c = Some InService \<Longrightarrow> accept_step lossy d (leave c x d)"
  unfolding leave_def by (rule accept_step.over)

lemma serving_leave [simp]: "serving (leave c x d) = serving d - {c}"
  by (auto simp: serving_def leave_def thread_after_def)

lemma leave_rest [simp]:
  "known (leave c x d) = known d" "backlog (leave c x d) = backlog d" "stopping (leave c x d) = stopping d"
  by (simp_all add: leave_def)

lemma door_after [simp]:
  "door (after_arrival c a r replies w log s) = (case r of Inl x \<Rightarrow> leave c x (door s) | Inr _ \<Rightarrow> door s)"
  by (simp add: after_arrival_def)

text \<open>What the step of the accept loop does to who is in service and who waits.\<close>

lemma accept_step_serving:
  assumes "accept_step lossy d d'" "accept_inv d" "serving d \<subseteq> serving d'"
  shows "serving d' - serving d \<subseteq> set (backlog d)"
    "set (backlog d') \<subseteq> (set (backlog d) - serving d') \<union> - known d" "known d \<subseteq> known d'"
proof -
  have "serving d' - serving d \<subseteq> set (backlog d) \<and>
    set (backlog d') \<subseteq> (set (backlog d) - serving d') \<union> - known d \<and> known d \<subseteq> known d'"
    using assms(1)
  proof (cases rule: accept_stepE
      [consumes 1, case_names arrive turn error over store wake wake_fails])
    case (turn c rest)
    with assms(2) show ?thesis by (auto simp: accept_inv_def serving_def take_turn_simps)
  next
    case (over c x)
    have "c \<in> serving d" "c \<notin> serving d'" using over by (auto simp: serving_def thread_after_def)
    with assms(3) show ?thesis by blast
  qed (use assms(2) in \<open>auto simp: accept_inv_def serving_def take_turn_simps split: if_splits\<close>)
  then show "serving d' - serving d \<subseteq> set (backlog d)"
    "set (backlog d') \<subseteq> (set (backlog d) - serving d') \<union> - known d" "known d \<subseteq> known d'" by blast+
qed

end
