(* ===== verification/HostInv.thy ===== *)
theory HostInv
  imports Host
begin

section \<open>What every reachable daemon keeps\<close>

text \<open>
  The invariant of the composed daemon: the connections it holds are the ones in service, one that
  waits at the door has no history, each connection's calls have brought the Engine where the
  connection thinks it is, and each connection's history is its life alone on some script of
  worlds.
\<close>

fun conn_phase :: "('db, 'tx) conn option \<Rightarrow> phase" where
  "conn_phase (Some (Talking v (Outside sl))) = (if slot_session sl = None then NoDatabase else IdleDb)"
| "conn_phase (Some (Talking v (Inside sl base held tx))) = InTx"
| "conn_phase _ = NoDatabase"

text \<open>The protocol's invariant of a connection, over its log alone.\<close>

definition calls_inv :: "('db, 'tx) conn option \<Rightarrow> engine_call list \<Rightarrow> bool" where
  "calls_inv o1 log = (log_phase NoDatabase log = Some (conn_phase o1) \<and>
     (\<forall>v sl base held tx. o1 = Some (Talking v (Inside sl base held tx)) \<longrightarrow> slot_session sl \<noteq> None))"

lemma calls_inv_None: "calls_inv None log \<longleftrightarrow> log_phase NoDatabase log = Some NoDatabase"
  by (simp add: calls_inv_def)

lemma calls_inv_Some: "calls_inv (Some cn) log \<longleftrightarrow> tr.conn_inv cn (v, log)"
proof (cases cn)
  case (Talking n m)
  then show ?thesis
    by (cases m) (auto simp: calls_inv_def tr.slot_inv_def split: option.splits)
qed (simp add: calls_inv_def)

definition untouched :: "('w, 'db, 'tx) host \<Rightarrow> nat \<Rightarrow> bool" where
  "untouched s c = (conns s c = None \<and> calls s c = [] \<and> heard s c = [] \<and> said s c = [] \<and> over_by s c = None)"

definition life_state :: "('w, 'db, 'tx) host \<Rightarrow> nat \<Rightarrow> ended + ('db, 'tx) conn" where
  "life_state s c = (case conns s c of
     Some cn \<Rightarrow> Inr cn
   | None \<Rightarrow> (case over_by s c of Some x \<Rightarrow> Inl x | None \<Rightarrow> Inr Greeting))"

lemma calls_inv_SomeI: "tr.conn_inv cn (v, log) \<Longrightarrow> calls_inv (Some cn) log"
  by (rule calls_inv_Some [THEN iffD2])

text \<open>The history of a connection is its life alone on some script, which it uses up.\<close>

definition lives_on ::
  "textlib \<Rightarrow> ('w, 'db, 'tx, 'q, 'r, 's) engine \<Rightarrow> 'w \<Rightarrow> limits \<Rightarrow> string \<Rightarrow> string \<Rightarrow>
   ('w, 'db, 'tx) host \<Rightarrow> nat \<Rightarrow> bool" where
  "lives_on H E d lim cp ep s c = (\<exists>ws. \<forall>fs.
     conn_life H (scripted d E) lim cp ep Greeting (heard s c) (ws @ fs) = (life_state s c, said s c, fs))"

lemma lives_on_untouched: "untouched s c \<Longrightarrow> lives_on H E d lim cp ep s c"
  unfolding lives_on_def by (rule exI [of _ "[]"]) (simp add: untouched_def life_state_def)

definition host_inv ::
  "textlib \<Rightarrow> ('w, 'db, 'tx, 'q, 'r, 's) engine \<Rightarrow> 'w \<Rightarrow> limits \<Rightarrow> string \<Rightarrow> string \<Rightarrow>
   ('w, 'db, 'tx) host \<Rightarrow> bool" where
  "host_inv H E d lim cp ep s = (accept_inv (door s) \<and> serving (door s) = dom (conns s) \<and>
     (\<forall>c. c \<notin> known (door s) \<or> c \<in> set (backlog (door s)) \<longrightarrow> untouched s c) \<and>
     (\<forall>c. calls_inv (conns s c) (calls s c)) \<and>
     (\<forall>c. lives_on H E d lim cp ep s c))"

lemma host_invI:
  assumes "accept_inv (door s)" "serving (door s) = dom (conns s)"
    "\<And>c. c \<notin> known (door s) \<or> c \<in> set (backlog (door s)) \<Longrightarrow> untouched s c"
    "\<And>c. calls_inv (conns s c) (calls s c)"
    "\<And>c. lives_on H E d lim cp ep s c"
  shows "host_inv H E d lim cp ep s"
  unfolding host_inv_def using assms by blast

lemma backlog_known: "accept_inv d \<Longrightarrow> set (backlog d) \<subseteq> known d"
  by (simp add: accept_inv_def)

lemma host_start_inv: "host_inv H E d lim cp ep (host_start w)"
proof -
  have "untouched (host_start w) c" for c by (simp add: untouched_def host_start_def)
  then show ?thesis
    by (intro host_invI lives_on_untouched)
      (auto simp: host_start_def serving_def accept_start_def calls_inv_None
        accept_start_inv(1) [unfolded accept_start_def])
qed

text \<open>What an accept step changes of a connection.\<close>

lemma admit_state:
  "conns (s\<lparr>door := d', conns := admit new (conns s)\<rparr>) c = (if c \<in> new then Some Greeting else conns s c)"
  "c \<notin> new \<Longrightarrow> untouched (s\<lparr>door := d', conns := admit new (conns s)\<rparr>) c \<longleftrightarrow> untouched s c"
  by (simp_all add: admit_def untouched_def)

lemma accept_keeps:
  assumes inv: "host_inv H E d lim cp ep s"
    and step: "accept_step lossy (door s) d'" "serving (door s) \<subseteq> serving d'"
  shows "host_inv H E d lim cp ep (s\<lparr>door := d', conns := admit (serving d' - serving (door s)) (conns s)\<rparr>)"
proof -
  let ?new = "serving d' - serving (door s)"
  let ?s = "s\<lparr>door := d', conns := admit ?new (conns s)\<rparr>"
  have old: "accept_inv (door s)" "serving (door s) = dom (conns s)"
    "\<And>c. c \<notin> known (door s) \<or> c \<in> set (backlog (door s)) \<Longrightarrow> untouched s c"
    "\<And>c. calls_inv (conns s c) (calls s c)"
    "\<And>c. lives_on H E d lim cp ep s c"
    using inv unfolding host_inv_def by blast+
  note door = accept_step_serving [OF step(1) old(1) step(2)]
  have new: "untouched s c" if "c \<in> ?new" for c using that door(1) old(3) by blast
  show ?thesis
  proof (rule host_invI)
    show "accept_inv (door ?s)" using accept_step_inv [OF step(1) old(1)] by simp
    show "serving (door ?s) = dom (conns ?s)"
      using step(2) old(2) by (auto simp: admit_def dom_def)
    show "untouched ?s c" if "c \<notin> known (door ?s) \<or> c \<in> set (backlog (door ?s))" for c
    proof -
      from that door(2,3) have "c \<notin> known (door s) \<or> c \<in> set (backlog (door s)) \<and> c \<notin> serving d'"
        by auto
      moreover from this have "untouched s c" using old(3) [of c] by auto
      moreover have "?new \<subseteq> known (door s)"
        using door(1) backlog_known [OF old(1)] by (rule subset_trans)
      ultimately have "untouched s c" "c \<notin> ?new" by auto
      then show ?thesis using admit_state(2) by blast
    qed
    show "calls_inv (conns ?s c) (calls ?s c)" for c
    proof (cases "c \<in> ?new")
      case True
      with new [OF True] show ?thesis by (simp add: admit_def untouched_def calls_inv_def)
    next
      case False
      then have "conns ?s c = conns s c" by (simp only: admit_state(1) if_False)
      with old(4) [of c] show ?thesis by simp
    qed
    show "lives_on H E d lim cp ep ?s c" for c
    proof (cases "c \<in> ?new")
      case True
      then have "conns ?s c = Some Greeting" by (simp add: admit_def)
      then have "life_state ?s c = Inr Greeting" by (simp add: life_state_def)
      with new [OF True] show ?thesis
        unfolding lives_on_def by (intro exI [of _ "[]"]) (simp add: untouched_def)
    next
      case False
      then have "conns ?s c = conns s c" by (simp only: admit_state(1) if_False)
      then have "life_state ?s c = life_state s c" by (simp add: life_state_def split: option.split)
      with old(5) [of c] show ?thesis by (simp add: lives_on_def)
    qed
  qed
qed

lemma serve_keeps:
  assumes inv: "host_inv H E d lim cp ep s" and cn: "conns s c = Some cn"
    and run: "conn_arrival H (traced (seen others E)) lim cp ep cn a ((True, world s, ws), calls s c) =
      (r, replies, (True, w, []), log)"
  shows "host_inv H E d lim cp ep (after_arrival c a r replies w log s)"
proof -
  let ?s = "after_arrival c a r replies w log s"
  have old: "accept_inv (door s)" "serving (door s) = dom (conns s)"
    "\<And>c. c \<notin> known (door s) \<or> c \<in> set (backlog (door s)) \<Longrightarrow> untouched s c"
    "\<And>c. calls_inv (conns s c) (calls s c)"
    "\<And>c. lives_on H E d lim cp ep s c"
    using inv unfolding host_inv_def by blast+
  have served: "c \<in> serving (door s)" using old(2) cn by blast
  have after: "conns ?s c = (case r of Inl _ \<Rightarrow> None | Inr cn \<Rightarrow> Some cn)" "calls ?s c = log"
    "life_state ?s c = r"
    by (simp_all add: after_arrival_def life_state_def split: sum.split)
  have other: "conns ?s b = conns s b \<and> calls ?s b = calls s b \<and> heard ?s b = heard s b \<and>
      said ?s b = said s b \<and> life_state ?s b = life_state s b \<and> (untouched ?s b \<longleftrightarrow> untouched s b)" if "b \<noteq> c" for b
    using that by (simp add: after_arrival_def life_state_def untouched_def split: option.split)
  show ?thesis
  proof (rule host_invI)
    from served have "accept_step False (door s) (leave c x (door s))" for x
      by (simp add: serving_def leave_step)
    then show "accept_inv (door ?s)"
      using accept_step_inv [OF _ old(1)] old(1) by (auto split: sum.split)
    show "serving (door ?s) = dom (conns ?s)"
      using old(2) served by (auto simp: after_arrival_def split: sum.splits)
    show "untouched ?s b" if b: "b \<notin> known (door ?s) \<or> b \<in> set (backlog (door ?s))" for b
    proof -
      from b have "untouched s b" using old(3) by (auto split: sum.splits)
      moreover from this have "b \<noteq> c" using cn by (auto simp: untouched_def)
      ultimately show ?thesis using other by blast
    qed
    show "calls_inv (conns ?s b) (calls ?s b)" for b
    proof (cases "b = c")
      case True
      have "tr.conn_inv cn ((True, world s, ws), calls s c)" using old(4) [of c] cn calls_inv_Some by metis
      from tr.conn_arrival_inv [OF this run] show ?thesis
        unfolding True after
        by (cases r) (auto simp: calls_inv_None intro: calls_inv_SomeI)
    qed (use other old(4) [of b] in \<open>simp\<close>)
    show "lives_on H E d lim cp ep ?s b" for b
    proof (cases "b = c")
      case True
      obtain ws0 where life: "conn_life H (scripted d E) lim cp ep Greeting (heard s c) (ws0 @ fs) =
          (Inr cn, said s c, fs)" for fs
        using old(5) [of c] cn by (auto simp: life_state_def lives_on_def)
      have "conn_life H (scripted d E) lim cp ep Greeting (heard s c @ [a]) ((ws0 @ ws) @ fs) =
          (r, said s c @ replies, fs)" for fs
      proof -
        from view_sim.conn_arrival_sim [where fs = fs and d = d, OF run]
        have "conn_arrival H (scripted d E) lim cp ep cn a (ws @ fs) = (r, replies, fs)" by simp
        with conn_life_snoc [OF life [of "ws @ fs"]] show ?thesis by simp
      qed
      then have "lives_on H E d lim cp ep ?s c"
        unfolding lives_on_def after(3) by (intro exI [of _ "ws0 @ ws"]) (simp add: after_arrival_def)
      then show ?thesis unfolding True .
    qed (use other old(5) [of b] in \<open>simp add: lives_on_def\<close>)
  qed
qed

text \<open>Every daemon that can be reached.\<close>

lemma host_reach_inv:
  assumes "host_steps H E others lim cp ep lossy (host_start w) s"
  shows "host_inv H E d lim cp ep s"
  using assms
proof (induction rule: rtranclp_induct)
  case base
  show ?case by (rule host_start_inv)
next
  case (step s s')
  from step.hyps(2) step.IH show ?case
    by (cases rule: host_stepE) (auto intro: accept_keeps serve_keeps)
qed

text \<open>A connection whose stream has ended is over.\<close>

lemma life_ends:
  "EndOfStream e \<in> set as \<Longrightarrow> \<exists>x. fst (conn_life H E lim cp ep cn as w) = Inl x"
proof (induction as arbitrary: cn w)
  case (Cons a as)
  obtain r replies w' where run: "conn_arrival H E lim cp ep cn a w = (r, replies, w')"
    by (cases "conn_arrival H E lim cp ep cn a w") auto
  show ?case
  proof (cases r)
    case (Inr cn')
    with run have "a \<noteq> EndOfStream e" by (cases cn) auto
    with Cons.prems have "EndOfStream e \<in> set as" by auto
    from Cons.IH [OF this, of cn' w'] show ?thesis
      using run Inr by (auto simp: case_prod_beta Let_def)
  qed (use run in auto)
qed simp

lemma heard_the_end:
  assumes "lives_on H E d lim cp ep s c" "EndOfStream e \<in> set (heard s c)"
  shows "conns s c = None" "over_by s c \<noteq> None"
proof -
  obtain ws where "conn_life H (scripted d E) lim cp ep Greeting (heard s c) (ws @ []) = (life_state s c, said s c, [])"
    using assms(1) unfolding lives_on_def by blast
  with life_ends [OF assms(2), of H "scripted d E" lim cp ep Greeting "ws @ []"]
  obtain x where "life_state s c = Inl x" by auto
  then show "conns s c = None" "over_by s c \<noteq> None" by (auto simp: life_state_def split: option.splits)
qed

end
