(* ===== verification/HostDemo.thy ===== *)
theory HostDemo
  imports HostInv AcceptProps ServeProps SessionProps
begin

section \<open>A daemon with two clients\<close>

text \<open>
  A concrete run of the daemon, for the witnesses of \<open>HostProps\<close>. The clients are those of
  \<open>two_connections\<close>: the second opens the database \<open>work\<close> and begins a transaction, then the
  first asks for a shutdown, and the accept loop returns.
\<close>

definition host_json :: "string \<Rightarrow> string + json" where
  "host_json text =
     (if text = [] then Inr (Object [(''catalog_version'', num_u64 1),
        (''databases'', Object [(''work'', Object [(''path'', String ''/w'')])])])
      else if text = ''O'' then Inr (Object
        [(''database'', String ''work''), (''operation'', String ''open_session''),
         (''request_id'', String ''o''), (''server_protocol_version'', num_u64 1)])
      else if text = ''B'' then Inr (demo_request ''b'' ''begin'')
      else if text = ''X'' then Inr (demo_request ''x'' ''shutdown'')
      else demo_json text)"

definition host_text :: textlib where
  "host_text = demo_text\<lparr>from_str := host_json\<rparr>"

abbreviation any_change :: "u64 \<Rightarrow> u64 \<Rightarrow> bool" where
  "any_change \<equiv> \<lambda>_ _. True"

abbreviation demo_arrival ::
  "(unit, bool) conn \<Rightarrow> arrival \<Rightarrow> u64 view \<times> engine_call list \<Rightarrow>
   (ended + (unit, bool) conn) \<times> json list \<times> u64 view \<times> engine_call list" where
  "demo_arrival \<equiv> conn_arrival host_text (traced (seen any_change demo_engine)) demo_limits ''/c'' ''/e''"

definition work_slot :: "unit slot" where
  "work_slot = \<lparr>slot_session = Some \<lparr>sess_id = ''s1'', sess_name = ''work'', sess_path = ''/w'',
     sess_database = ()\<rparr>, slot_next = 2\<rparr>"

definition host_client :: "operation \<Rightarrow> string \<Rightarrow> string option \<Rightarrow> request" where
  "host_client oper i db = \<lparr>req_version = 1, request_id = i, session_id = None,
     req_operation = oper, database = db, statement = None\<rparr>"

lemma host_requests:
  "decode_request host_text ''O'' {} = Ok (host_client OpenSession ''o'' (Some ''work''))"
  "decode_request host_text ''B'' {} = Ok (host_client Begin ''b'' None)"
  "decode_request host_text ''X'' {} = Ok (host_client Shutdown ''x'' None)"
  by code_simp+

lemma host_client_sel [simp]:
  "req_operation (host_client oper i db) = oper" "session_id (host_client oper i db) = None"
  "request.database (host_client oper i db) = db" "statement (host_client oper i db) = None"
  by (simp_all add: host_client_def)

lemma host_delivers [simp]: "deliverable host_text demo_limits x"
  by (simp add: deliverable_def host_text_def demo_text_def demo_limits_def)

lemma host_catalog: "catalog_load host_text (Inr []) = Ok \<lparr>databases = [(''work'', \<lparr>entry_path = ''/w'',
    entry_unknown = []\<rparr>)], cat_unknown = []\<rparr>"
  by code_simp

lemma arrival_hello:
  "demo_arrival Greeting (Body ''H'') ((True, 4, []), []) =
     (Inr (Talking 1 (Outside slot_new)), [welcome_reply 1 ''/e''], (True, 4, []), [])"
proof -
  have "handshake host_text ''H'' = Ok 1" by code_simp
  then show ?thesis by simp
qed

lemma arrival_open:
  "\<exists>replies. demo_arrival (Talking 1 (Outside slot_new)) (Body ''O'') ((True, 4, [4, 4]), []) =
     (Inr (Talking 1 (Outside work_slot)), replies, (True, 4, []), [OpenedDb])"
  by (simp add: host_requests outside_step_def dispatch.simps dispatch_open_def slot_open_def slot_new_def
      catalog_get_def bt_get_def host_catalog checked_def traced_def seen_def find_def demo_engine_def
      work_slot_def show_one Let_def)

lemma arrival_begin:
  "\<exists>replies. demo_arrival (Talking 1 (Outside work_slot)) (Body ''B'') ((True, 4, [4]), [OpenedDb]) =
     (Inr (Talking 1 (Inside work_slot 7 {} False)), replies, (True, 4, []), [OpenedDb, BeganTx])"
  by (simp add: host_requests outside_step_def dispatch.simps begin_step_def slot_resolve_def work_slot_def
      checked_def traced_def seen_def find_def demo_engine_def)

lemma arrival_shutdown:
  "\<exists>replies. demo_arrival (Talking 1 (Outside slot_new)) (Body ''X'') ((True, 4, []), []) =
     (Inl ShutdownRequested, replies, (True, 4, []), [])"
  by (simp add: host_requests outside_step_def dispatch.simps slot_drop_def slot_close_def slot_new_def)

lemma arrival_hangup:
  "\<exists>replies. demo_arrival (Talking 1 (Inside work_slot 7 {} False)) (EndOfStream Closed)
      ((True, 4, [4, 4]), [OpenedDb, BeganTx]) =
     (Inl ClientClosed, replies, (True, 4, []), [OpenedDb, BeganTx, RolledBack, DroppedDb])"
  by (simp add: ended_by_def slot_put_def slot_drop_def slot_close_def work_slot_def
      traced_def seen_def find_def demo_engine_def)

subsection \<open>The run\<close>

abbreviation demo_step :: "(u64, unit, bool) host \<Rightarrow> (u64, unit, bool) host \<Rightarrow> bool" where
  "demo_step \<equiv> host_step host_text demo_engine any_change demo_limits ''/c'' ''/e'' False"

lemma demo_serve:
  assumes "demo_step\<^sup>*\<^sup>* s0 s" "conns s c = Some cn" "world s = u"
    "\<exists>replies. demo_arrival cn a ((True, u, ws), calls s c) = (r, replies, (True, w, []), log)"
  obtains s' where "demo_step\<^sup>*\<^sup>* s0 s'" "world s' = w"
    "door s' = (case r of Inl x \<Rightarrow> leave c x (door s) | Inr _ \<Rightarrow> door s)"
    "conns s' = (conns s)(c := (case r of Inl _ \<Rightarrow> None | Inr cn' \<Rightarrow> Some cn'))"
    "calls s' = (calls s)(c := log)" "heard s' = (heard s)(c := heard s c @ [a])"
    "over_by s' = (over_by s)(c := (case r of Inl x \<Rightarrow> Some x | Inr _ \<Rightarrow> None))"
proof -
  obtain replies where "demo_arrival cn a ((True, world s, ws), calls s c) = (r, replies, (True, w, []), log)"
    using assms(3,4) by blast
  from host_step.serve [OF assms(2) this]
  have "demo_step\<^sup>*\<^sup>* s0 (after_arrival c a r replies w log s)"
    by (rule rtranclp.rtrancl_into_rtrancl [OF assms(1)])
  then show thesis by (rule that) (simp_all add: after_arrival_def)
qed

text \<open>The accept loop goes on along \<open>two_connections\<close> while nobody leaves.\<close>

lemma demo_accept:
  assumes "demo_step\<^sup>*\<^sup>* s0 s" "door s = two_connections ! n" "n < 8" "n \<noteq> 4" "m = Suc n"
    "admit (serving (two_connections ! m) - serving (two_connections ! n)) (conns s) = cs"
  obtains s' where "demo_step\<^sup>*\<^sup>* s0 s'" "door s' = two_connections ! m" "world s' = world s" "calls s' = calls s"
    "conns s' = cs" "over_by s' = over_by s" "heard s' = heard s"
proof -
  have "n \<in> {0, 1, 2, 3, 5, 6, 7}" using assms(3,4) by auto
  then have sub: "serving (two_connections ! n) \<subseteq> serving (two_connections ! Suc n)"
    by (elim insertE emptyE) (simp_all add: serving_def two_connections_def accept_start_def subset_iff)
  let ?d = "two_connections ! m"
  let ?s = "s\<lparr>door := ?d, conns := cs\<rparr>"
  have "demo_step s (s\<lparr>door := ?d, conns := admit (serving ?d - serving (door s)) (conns s)\<rparr>)"
    using sub assms(2,5) two_connections_steps [OF assms(3)] by (intro host_step.accept) simp_all
  then have "demo_step s ?s" using assms(2,6) by simp
  with assms(1) have "demo_step\<^sup>*\<^sup>* s0 ?s" by (rule rtranclp.rtrancl_into_rtrancl)
  then show thesis by (rule that) simp_all
qed

lemma demo_serving:
  "serving (two_connections ! 0) = {}" "serving (two_connections ! Suc 0) = {}"
  "serving (two_connections ! 2) = {0}" "serving (two_connections ! 3) = {0}"
  "serving (two_connections ! 4) = {0, 1}" "serving (two_connections ! 5) = {1}"
  "serving (two_connections ! 6) = {1}" "serving (two_connections ! 7) = {1}"
  "serving (two_connections ! 8) = {1}"
  by (auto simp: serving_def two_connections_def accept_start_def split: if_splits)

lemma host_start_sel [simp]:
  "door (host_start w) = accept_start" "conns (host_start w) = (\<lambda>_. None)" "world (host_start w) = w"
  "calls (host_start w) = (\<lambda>_. [])" "over_by (host_start w) = (\<lambda>_. None)" "heard (host_start w) = (\<lambda>_. [])"
  by (simp_all add: host_start_def)

text \<open>Four steps of the accept loop admit both clients.\<close>

lemma demo_admits:
  obtains s where "demo_step\<^sup>*\<^sup>* (host_start 4) s" "door s = two_connections ! 4" "world s = 4"
    "calls s = (\<lambda>_. [])" "conns s = [0 \<mapsto> Greeting, 1 \<mapsto> Greeting]"
    "over_by s = (\<lambda>_. None)" "heard s = (\<lambda>_. [])"
proof -
  note none = demo_serving admit_def
  have start: "door (host_start 4 :: (u64, unit, bool) host) = two_connections ! 0"
    by (simp add: two_connections_def)
  obtain s1 where s1: "demo_step\<^sup>*\<^sup>* (host_start 4) s1" "door s1 = two_connections ! 1" "world s1 = 4"
    "calls s1 = (\<lambda>_. [])" "conns s1 = (\<lambda>_. None)" "over_by s1 = (\<lambda>_. None)" "heard s1 = (\<lambda>_. [])"
    by (rule demo_accept [OF rtranclp.rtrancl_refl start, where m = 1 and cs = "\<lambda>_. None"])
      (auto simp: none)
  obtain s2 where s2: "demo_step\<^sup>*\<^sup>* (host_start 4) s2" "door s2 = two_connections ! 2" "world s2 = 4"
    "calls s2 = (\<lambda>_. [])" "conns s2 = [0 \<mapsto> Greeting]" "over_by s2 = (\<lambda>_. None)" "heard s2 = (\<lambda>_. [])"
    by (rule demo_accept [OF s1(1,2), where m = 2 and cs = "[0 \<mapsto> Greeting]"])
      (use s1 in \<open>auto simp: none fun_eq_iff\<close>)
  obtain s3 where s3: "demo_step\<^sup>*\<^sup>* (host_start 4) s3" "door s3 = two_connections ! 3" "world s3 = 4"
    "calls s3 = (\<lambda>_. [])" "conns s3 = [0 \<mapsto> Greeting]" "over_by s3 = (\<lambda>_. None)" "heard s3 = (\<lambda>_. [])"
    by (rule demo_accept [OF s2(1,2), where m = 3 and cs = "[0 \<mapsto> Greeting]"])
      (use s2 in \<open>auto simp: none fun_eq_iff\<close>)
  show thesis
    by (rule demo_accept [OF s3(1,2), where m = 4 and cs = "[0 \<mapsto> Greeting, 1 \<mapsto> Greeting]"])
      (use s3 that in \<open>auto simp: none fun_eq_iff\<close>)
qed

text \<open>Three messages of the second client.\<close>

lemma demo_begins:
  obtains s where "demo_step\<^sup>*\<^sup>* (host_start 4) s" "door s = two_connections ! 4" "world s = 4"
    "calls s = (\<lambda>_. [])(1 := [OpenedDb, BeganTx])"
    "conns s = [0 \<mapsto> Greeting, 1 \<mapsto> Talking 1 (Inside work_slot 7 {} False)]"
    "over_by s 0 = None" "heard s 0 = []"
proof -
  note run = fun_eq_iff demo_serving admit_def
  obtain s4 where s4: "demo_step\<^sup>*\<^sup>* (host_start 4) s4" "door s4 = two_connections ! 4" "world s4 = 4"
    "calls s4 = (\<lambda>_. [])" "conns s4 = [0 \<mapsto> Greeting, 1 \<mapsto> Greeting]"
    "over_by s4 = (\<lambda>_. None)" "heard s4 = (\<lambda>_. [])"
    by (rule demo_admits)
  obtain s5 where s5: "demo_step\<^sup>*\<^sup>* (host_start 4) s5" "door s5 = two_connections ! 4" "world s5 = 4"
    "calls s5 = (\<lambda>_. [])" "conns s5 = [0 \<mapsto> Greeting, 1 \<mapsto> Talking 1 (Outside slot_new)]"
    "over_by s5 0 = None" "heard s5 0 = []"
    by (rule demo_serve [OF s4(1) _ s4(3), where c = 1 and cn = Greeting and a = "Body ''H''" and w = 4
        and ws = "[]" and r = "Inr (Talking 1 (Outside slot_new))" and log = "[]"])
      (use s4 arrival_hello in \<open>auto simp: run\<close>)
  obtain s6 where s6: "demo_step\<^sup>*\<^sup>* (host_start 4) s6" "door s6 = two_connections ! 4" "world s6 = 4"
    "calls s6 = (\<lambda>_. [])(1 := [OpenedDb])" "conns s6 = [0 \<mapsto> Greeting, 1 \<mapsto> Talking 1 (Outside work_slot)]"
    "over_by s6 0 = None" "heard s6 0 = []"
    by (rule demo_serve [OF s5(1) _ s5(3), where c = 1 and cn = "Talking 1 (Outside slot_new)"
        and a = "Body ''O''" and w = 4 and ws = "[4, 4]" and r = "Inr (Talking 1 (Outside work_slot))"
        and log = "[OpenedDb]"])
      (use s5 arrival_open in \<open>auto simp: run\<close>)
  obtain s7 where "demo_step\<^sup>*\<^sup>* (host_start 4) s7" "door s7 = two_connections ! 4" "world s7 = 4"
    "calls s7 = (\<lambda>_. [])(1 := [OpenedDb, BeganTx])"
    "conns s7 = [0 \<mapsto> Greeting, 1 \<mapsto> Talking 1 (Inside work_slot 7 {} False)]"
    "over_by s7 0 = None" "heard s7 0 = []"
    by (rule demo_serve [OF s6(1) _ s6(3), where c = 1 and cn = "Talking 1 (Outside work_slot)"
        and a = "Body ''B''" and w = 4 and ws = "[4]" and r = "Inr (Talking 1 (Inside work_slot 7 {} False))"
        and log = "[OpenedDb, BeganTx]"])
      (use s6 arrival_begin in \<open>auto simp: run\<close>)
  then show thesis by (rule that)
qed

text \<open>Two messages of the first, and the last three steps of the loop.\<close>

lemma demo_run:
  obtains s where "demo_step\<^sup>*\<^sup>* (host_start 4) s" "door s = two_connections ! 8"
    "conns s = [1 \<mapsto> Talking 1 (Inside work_slot 7 {} False)]" "calls s 1 = [OpenedDb, BeganTx]"
    "over_by s 0 = Some ShutdownRequested" "heard s 0 = [Body ''H'', Body ''X'']"
proof -
  note run = fun_eq_iff demo_serving admit_def
  obtain s7 where s7: "demo_step\<^sup>*\<^sup>* (host_start 4) s7" "door s7 = two_connections ! 4" "world s7 = 4"
    "calls s7 = (\<lambda>_. [])(1 := [OpenedDb, BeganTx])"
    "conns s7 = [0 \<mapsto> Greeting, 1 \<mapsto> Talking 1 (Inside work_slot 7 {} False)]"
    "over_by s7 0 = None" "heard s7 0 = []"
    by (rule demo_begins)
  obtain s8 where s8: "demo_step\<^sup>*\<^sup>* (host_start 4) s8" "door s8 = two_connections ! 4" "world s8 = 4"
    "calls s8 = (\<lambda>_. [])(1 := [OpenedDb, BeganTx])"
    "conns s8 = [0 \<mapsto> Talking 1 (Outside slot_new), 1 \<mapsto> Talking 1 (Inside work_slot 7 {} False)]"
    "heard s8 0 = [Body ''H'']"
    by (rule demo_serve [OF s7(1) _ s7(3), where c = 0 and cn = Greeting and a = "Body ''H''" and w = 4
        and ws = "[]" and r = "Inr (Talking 1 (Outside slot_new))" and log = "[]"])
      (use s7 arrival_hello in \<open>auto simp: run\<close>)
  have left: "leave 0 ShutdownRequested (two_connections ! 4) = two_connections ! 5"
    by (simp add: two_connections_def leave_def thread_after_def accept_start_def fun_upd_twist)
  obtain s9 where s9: "demo_step\<^sup>*\<^sup>* (host_start 4) s9" "door s9 = two_connections ! 5" "world s9 = 4"
    "calls s9 = (\<lambda>_. [])(1 := [OpenedDb, BeganTx])"
    "conns s9 = [1 \<mapsto> Talking 1 (Inside work_slot 7 {} False)]"
    "over_by s9 0 = Some ShutdownRequested" "heard s9 0 = [Body ''H'', Body ''X'']"
    by (rule demo_serve [OF s8(1) _ s8(3), where c = 0 and cn = "Talking 1 (Outside slot_new)"
        and a = "Body ''X''" and w = 4 and ws = "[]" and r = "Inl ShutdownRequested" and log = "[]"])
      (use s8 arrival_shutdown left in \<open>auto simp: run\<close>)
  note same = s9(4,5,6,7)
  obtain sa where sa: "demo_step\<^sup>*\<^sup>* (host_start 4) sa" "door sa = two_connections ! 6"
    "calls sa = calls s9" "conns sa = conns s9" "over_by sa = over_by s9" "heard sa = heard s9"
    by (rule demo_accept [OF s9(1,2), where m = 6 and cs = "conns s9"]) (auto simp: run)
  obtain sb where sb: "demo_step\<^sup>*\<^sup>* (host_start 4) sb" "door sb = two_connections ! 7"
    "calls sb = calls s9" "conns sb = conns s9" "over_by sb = over_by s9" "heard sb = heard s9"
    by (rule demo_accept [OF sa(1,2), where m = 7 and cs = "conns s9"]) (use sa in \<open>auto simp: run\<close>)
  obtain sc where "demo_step\<^sup>*\<^sup>* (host_start 4) sc" "door sc = two_connections ! 8"
    "calls sc = calls s9" "conns sc = conns s9" "over_by sc = over_by s9" "heard sc = heard s9"
    by (rule demo_accept [OF sb(1,2), where m = 8 and cs = "conns s9"]) (use sb in \<open>auto simp: run\<close>)
  with same show thesis by (intro that [of sc]) simp_all
qed

text \<open>And the second client hangs up in its transaction.\<close>

lemma demo_hangs_up:
  obtains s where "demo_step\<^sup>*\<^sup>* (host_start 4) s" "EndOfStream Closed \<in> set (heard s 1)"
    "calls s 1 = [OpenedDb, BeganTx, RolledBack, DroppedDb]"
proof -
  obtain s7 where s7: "demo_step\<^sup>*\<^sup>* (host_start 4) s7" "world s7 = 4"
    "calls s7 = (\<lambda>_. [])(1 := [OpenedDb, BeganTx])"
    "conns s7 = [0 \<mapsto> Greeting, 1 \<mapsto> Talking 1 (Inside work_slot 7 {} False)]"
    by (rule demo_begins)
  show thesis
    by (rule demo_serve [OF s7(1) _ s7(2), where c = 1 and cn = "Talking 1 (Inside work_slot 7 {} False)"
        and a = "EndOfStream Closed" and w = 4 and ws = "[4, 4]" and r = "Inl ClientClosed"
        and log = "[OpenedDb, BeganTx, RolledBack, DroppedDb]"])
      (use s7 arrival_hangup that in auto)
qed

end
