(* ===== verification/TextType.thy ===== *)
theory TextType
  imports CatalogType MessageProps Session
begin

section \<open>Every text the daemon makes is UTF-8\<close>

text \<open>
  A Rust \<open>String\<close> is UTF-8 by construction; the strings of the model are any bytes, so that this
  has to be shown. \<open>utf8_parts H E\<close> is what the types of the two dependencies promise: values and
  messages of \<open>serde_json\<close>, messages and results of the Engine, texts of I/O errors are UTF-8.
  Every detail, problem and identifier made from them is then UTF-8 too.
\<close>

definition utf8_library :: "textlib \<Rightarrow> bool" where
  "utf8_library H = ((\<forall>t v. from_str H t = Inr v \<longrightarrow> wf_json v) \<and>
     (\<forall>t e. from_str H t = Inl e \<longrightarrow> str_ok e) \<and> (\<forall>c. str_ok c \<longrightarrow> str_ok (char_debug H c)))"

definition utf8_error :: "query_error \<Rightarrow> bool" where
  "utf8_error e = (str_ok (query_code e) \<and> str_ok (query_message e))"

definition utf8_engine :: "('w, 'db, 'tx, 'q, 'r, 's) engine \<Rightarrow> bool" where
  "utf8_engine E =
     ((\<forall>p w e. fst (read_file E p w) = Inl e \<longrightarrow> str_ok (io_text e)) \<and>
      (\<forall>p w e. fst (db_open E p w) = Inl e \<longrightarrow> str_ok e) \<and>
      (\<forall>t e. cypher_parse E t = Inl e \<longrightarrow> utf8_error e) \<and>
      (\<forall>db w e db'. fst (tx_begin E db w) = Inl (e, db') \<longrightarrow> str_ok e) \<and>
      (\<forall>q n tx w e. fst (tx_run E q n tx w) = Inl e \<longrightarrow> utf8_error e) \<and>
      (\<forall>tx w e. fst (tx_commit E tx w) = Inl e \<longrightarrow> str_ok e) \<and>
      (\<forall>r g s. wf_json (envelope_json E r g s)))"

lemma utf8_libraryD:
  assumes "utf8_library H"
  shows "from_str H t = Inr v \<Longrightarrow> wf_json v" "from_str H t = Inl e \<Longrightarrow> str_ok e"
    "str_ok c \<Longrightarrow> str_ok (char_debug H c)"
  using assms by (auto simp: utf8_library_def)

lemma utf8_engineD:
  assumes "utf8_engine E"
  shows "read_file E p w = (Inl er, w') \<Longrightarrow> str_ok (io_text er)"
    "db_open E p w = (Inl e, w') \<Longrightarrow> str_ok e"
    "cypher_parse E t = Inl qe \<Longrightarrow> utf8_error qe"
    "tx_begin E db w = (Inl (e, db'), w') \<Longrightarrow> str_ok e"
    "tx_run E q n tx w = (Inl qe, tx', w') \<Longrightarrow> utf8_error qe"
    "tx_commit E tx w = (Inl e, db', w') \<Longrightarrow> str_ok e"
    "wf_json (envelope_json E r g s)"
  using assms unfolding utf8_engine_def by (metis fst_conv)+

subsection \<open>Text\<close>

definition ascii :: "char \<Rightarrow> bool" where
  "ascii c = ((of_char c :: u8) < 0x80)"

lemma ascii_Char [simp]: "ascii (Char b0 b1 b2 b3 b4 b5 b6 b7) \<longleftrightarrow> \<not> b7"
proof -
  have "ascii (Char b0 b1 b2 b3 b4 b5 b6 b7) = (\<not> b7)"
    unfolding ascii_def by (cases b0; cases b1; cases b2; cases b3; cases b4; cases b5; cases b6; cases b7) simp_all
  then show ?thesis .
qed

lemma str_ok_Nil [simp]: "str_ok []"
  by (simp add: str_ok_def as_bytes_def)

lemma str_ok_Cons [simp]: "ascii c \<Longrightarrow> str_ok (c # s) = str_ok s"
  by (simp add: str_ok_def as_bytes_def ascii_def utf8_valid_ascii_Cons)

lemma str_ok_join [simp]: "str_ok s \<Longrightarrow> str_ok t \<Longrightarrow> str_ok (s @ t)"
  by (rule str_ok_append)

lemma ascii_nat: "ascii c \<longleftrightarrow> (of_char c :: nat) < 128"
proof -
  have "(of_char c :: u8) = word_of_nat (of_char c)" by (simp add: of_char_def)
  then show ?thesis by (simp add: ascii_def word_less_nat_alt unat_of_nat)
qed

lemma digit_ascii [simp]: "n < 10 \<Longrightarrow> ascii (digit n)"
  by (simp add: ascii_nat digit_def)

lemma name_char_is_ascii: "name_char c \<Longrightarrow> ascii c"
  using name_char_ascii by (simp add: ascii_def)

lemma show_nat_utf8 [simp]: "str_ok (show_nat n)"
proof (induction n rule: show_nat.induct)
  case (1 n)
  then show ?case by (subst show_nat.simps) simp
qed

lemma show_word_utf8 [simp]: "str_ok (show_u64 v)" "str_ok (show_u32 w)"
  by (simp_all add: show_u64_def show_u32_def)

lemma debug_u64s_utf8 [simp]: "str_ok (debug_u64s vs)"
proof -
  have "str_ok (join_comma (map show_u64 vs))"
    by (induction vs rule: induct_list012) simp_all
  then show ?thesis by (simp add: debug_u64s_def)
qed

lemma concat_utf8: "(\<And>s. s \<in> set ss \<Longrightarrow> str_ok s) \<Longrightarrow> str_ok (concat ss)"
  by (induction ss) auto

lemma fixed_texts [simp]:
  "str_ok (code_as_str c)" "str_ok (rule_as_str r)"
  by (cases c; simp) (cases r; simp)

lemma session_id_utf8 [simp]: "str_ok (session_id_of n)"
  by (simp add: session_id_of_def)

text \<open>The first character of a text, and what is left after ASCII.\<close>

lemma first_char_utf8:
  assumes "str_ok s" "s \<noteq> []"
  shows "str_ok (first_char s)"
proof -
  have ne: "as_bytes s \<noteq> []" using assms(2) by (simp add: as_bytes_def)
  then have "fst (utf8_step (as_bytes s))" using assms(1) utf8_valid_Cons_iff by (auto simp: str_ok_def)
  from utf8_valid_take_step [OF this ne] show ?thesis
    by (simp add: str_ok_def first_char_def as_bytes_def take_map)
qed

lemma dropWhile_ascii: "(\<And>c. P c \<Longrightarrow> ascii c) \<Longrightarrow> str_ok s \<Longrightarrow> str_ok (dropWhile P s)"
  by (induction s) auto

subsection \<open>Values\<close>

lemma wf_json_object: "members_wf ps \<Longrightarrow> wf_json (json_object ps)"
  using bt_wf_of_list [of ps] members_wf_foldl [of "[]" ps]
  by (simp add: json_object_def wf_json_members bt_of_list_def del: wf_json.simps(2))

lemma members_wf_Cons [simp]: "members_wf ((k, v) # ps) \<longleftrightarrow> str_ok k \<and> wf_json v \<and> members_wf ps"
  by (auto simp: members_wf_def)

lemma members_wf_append [simp]: "members_wf (ps @ qs) \<longleftrightarrow> members_wf ps \<and> members_wf qs"
  by (auto simp: members_wf_def)

lemma wf_num [simp]: "wf_json (num_u64 v)"
  by (simp add: num_u64_def)

lemma get_str_utf8: "wf_json (Object m) \<Longrightarrow> get_str m k = Some s \<Longrightarrow> str_ok s"
  using wf_json_member [of m k "String s"] by (auto simp: get_str_def as_str_Some bind_eq_Some_conv)

subsection \<open>Requests\<close>

definition utf8_request :: "request \<Rightarrow> bool" where
  "utf8_request req = (str_ok (request_id req) \<and>
     (\<forall>s. session_id req = Some s \<longrightarrow> str_ok s) \<and> (\<forall>s. request.database req = Some s \<longrightarrow> str_ok s))"

lemma path_shaped_utf8: "str_ok name \<Longrightarrow> path_shaped name = Some p \<Longrightarrow> str_ok p"
  by (auto simp: path_shaped_def split: if_splits)

lemma decode_object_utf8:
  assumes "wf_json (Object m)"
  shows "case decode_object m held of Inl r \<Rightarrow> str_ok (refusal_detail r) | Inr req \<Rightarrow> utf8_request req"
proof -
  note got = get_str_utf8 [OF assms]
  have "str_ok (refusal_detail r)" if "decode_version m = Inl r" for r
    using that by (auto simp: decode_version_def split: option.splits if_splits)
  moreover have "case decode_request_id m held of Inl r \<Rightarrow> str_ok (refusal_detail r) | Inr i \<Rightarrow> str_ok i"
    by (auto simp: decode_request_id_def got split: option.split)
  moreover have "str_ok (refusal_detail r)" if "decode_operation m = Inl r" for r
    using that got by (auto simp: decode_operation_def split: option.splits)
  moreover have "case decode_database m of Inl r \<Rightarrow> str_ok (refusal_detail r)
      | Inr d \<Rightarrow> (\<forall>s. d = Some s \<longrightarrow> str_ok s)"
    using got path_shaped_utf8 by (auto simp: decode_database_def split: option.split)
  ultimately show ?thesis
    using got by (auto simp: decode_object_def utf8_request_def split: sum.splits)
qed

lemma decode_request_utf8:
  assumes "utf8_library H"
  shows "decode_request H body held = Inl r \<Longrightarrow> str_ok (refusal_detail r)"
    "decode_request H body held = Inr req \<Longrightarrow> utf8_request req"
  using decode_object_utf8 utf8_libraryD(1,2) [OF assms]
  by (fastforce simp: decode_request_def object_of_def split: sum.splits json.splits)+

subsection \<open>Problems of a catalog\<close>

lemma name_problem_utf8:
  assumes "utf8_library H" "str_ok name" "name_problem H name = Some p"
  shows "str_ok p"
proof (cases name)
  case (Cons c cs)
  have named: "str_ok (c # cs @ t)" if "str_ok t" for t
    using str_ok_append [OF assms(2) that] Cons by simp
  show ?thesis
  proof (cases "is_ascii_alphanumeric c \<and> dropWhile name_char cs \<noteq> []")
    case True
    then have c: "ascii c" using name_char_is_ascii by (simp add: name_char_def)
    with Cons assms(2) have cs: "str_ok cs" by simp
    then have "str_ok (dropWhile name_char cs)" using name_char_is_ascii dropWhile_ascii by blast
    with True have "str_ok (char_debug H (first_char (dropWhile name_char cs)))"
      by (intro utf8_libraryD(3) [OF assms(1)] first_char_utf8) simp_all
    with Cons True assms(3) named show ?thesis
      by (auto simp: name_problem_def split: if_splits list.splits)
  next
    case False
    with Cons assms(3) named show ?thesis
      by (auto simp: name_problem_def simp del: dropWhile_eq_Nil_conv split: if_splits list.splits)
  qed
qed (use assms(3) in \<open>auto simp: name_problem_def\<close>)

lemma entry_problem_utf8: "wf_json v \<Longrightarrow> entry_from v = Inl p \<Longrightarrow> str_ok p"
  by (auto simp: entry_from_def path_problem_def str_ok_display split: option.splits if_splits)

lemma entries_utf8:
  assumes "utf8_library H" "members_wf ds" "p \<in> set (List.map_filter (entry_problem H) ds)"
  shows "str_ok p"
proof -
  obtain name v where nv: "(name, v) \<in> set ds" "entry_problem H (name, v) = Some p"
    using assms(3) by (fastforce simp: map_filter_def)
  with assms(2) have "str_ok name" "wf_json v" by (auto simp: members_wf_def)
  with nv(2) name_problem_utf8 [OF assms(1)] entry_problem_utf8 show ?thesis
    by (auto simp: entry_problem_def split: option.splits sum.splits)
qed

lemma databases_member_utf8:
  assumes "wf_json (Object m)"
  shows "p \<in> set (fst (databases_member m)) \<Longrightarrow> str_ok p" "members_wf (snd (databases_member m))"
proof -
  show "str_ok p" if "p \<in> set (fst (databases_member m))"
    using that by (auto simp: databases_member_def split: option.splits json.splits)
  show "members_wf (snd (databases_member m))"
  proof (cases "bt_get m ''databases''")
    case (Some v)
    from wf_json_member [OF assms this] have "wf_json v" by simp
    with Some show ?thesis by (cases v) (auto simp: databases_member_def members_wf_def)
  qed (simp add: databases_member_def)
qed

lemma check_version_utf8: "check_version m = Some r \<Longrightarrow> p \<in> set (rejection_problems r) \<Longrightarrow> str_ok p"
  by (auto simp: check_version_def split: option.splits if_splits)

lemma parse_document_utf8:
  assumes "utf8_library H" "wf_json v" "parse_document H v = Inl r" "p \<in> set (rejection_problems r)"
  shows "str_ok p"
proof (cases "as_object v")
  case (Some m)
  then have m: "wf_json (Object m)" using assms(2) by (simp add: as_object_Some)
  note parts = databases_member_utf8 [OF m] entries_utf8 [OF assms(1) databases_member_utf8(2) [OF m]]
  show ?thesis
  proof (cases "check_version m")
    case None
    with Some assms(3,4) have "p \<in> set (fst (databases_member m)) \<or>
        p \<in> set (List.map_filter (entry_problem H) (snd (databases_member m)))"
      by (auto simp: parse_document_def parse_entries_eq case_prod_beta Let_def split: if_splits)
    with parts show ?thesis by blast
  qed (use Some assms(3,4) check_version_utf8 in \<open>auto simp: parse_document_def\<close>)
qed (use assms(3,4) in \<open>auto simp: parse_document_def\<close>)

lemma catalog_load_utf8:
  assumes "utf8_library H" "\<And>e. contents = Inl e \<Longrightarrow> str_ok (io_text e)" "catalog_load H contents = Inl e"
  shows "str_ok (catalog_error_display e)"
proof (cases e)
  case (Rejected r)
  with assms(3) obtain t where t: "catalog_parse H t = Inl r"
    by (auto simp: catalog_load_def split: sum.splits if_splits)
  have "str_ok p" if "p \<in> set (rejection_problems r)" for p
  proof (cases "from_str H t")
    case (Inl msg)
    with t that utf8_libraryD(2) [OF assms(1) Inl] show ?thesis by (auto simp: catalog_parse_def)
  next
    case (Inr v)
    with t parse_document_utf8 [OF assms(1) utf8_libraryD(1) [OF assms(1) Inr] _ that] show ?thesis
      by (simp add: catalog_parse_def)
  qed
  then have "str_ok (concat (map (\<lambda>p. CHR 0x0A # ''  '' @ p) (rejection_problems r)))"
    by (intro concat_utf8) auto
  then show ?thesis using Rejected by (simp add: rejection_display_def)
next
  case (CatalogIo x)
  with assms(2,3) show ?thesis by (auto simp: catalog_load_def split: sum.splits if_splits)
qed

end
