(* ===== verification/ReplyType.thy ===== *)
theory ReplyType
  imports TextType ConnLife
begin

section \<open>Every reply is JSON\<close>

text \<open>
  The type of what a connection sends, shown along its machine: every reply is a value whose
  objects are in order and whose strings are UTF-8. The state a connection carries into its replies is
  the identifier of its session.
\<close>

definition utf8_slot :: "'db slot \<Rightarrow> bool" where
  "utf8_slot sl = (\<forall>s. slot_session sl = Some s \<longrightarrow> str_ok (sess_id s))"

fun utf8_mode :: "('db, 'tx) mode \<Rightarrow> bool" where
  "utf8_mode (Outside sl) = utf8_slot sl"
| "utf8_mode (Inside sl base held tx) = utf8_slot sl"

fun utf8_conn :: "('db, 'tx) conn \<Rightarrow> bool" where
  "utf8_conn Greeting = True"
| "utf8_conn (Talking v m) = utf8_mode m"

lemma utf8_slot_simps [simp]: "utf8_slot slot_new" "utf8_slot sl \<Longrightarrow> utf8_slot (slot_put db sl)"
  by (auto simp: utf8_slot_def slot_new_def slot_put_def)

subsection \<open>Replies\<close>

named_theorems typed \<open>a reply of each shape is JSON\<close>

lemma ok_response_wf [typed]: "utf8_request req \<Longrightarrow> wf_json r \<Longrightarrow> wf_json (ok_response v req r)"
  unfolding ok_response_def by (rule wf_json_object) (simp add: utf8_request_def)

lemma error_response_wf [typed]: "utf8_request req \<Longrightarrow> str_ok d \<Longrightarrow> wf_json (error_response v req d)"
  unfolding error_response_def by (rule wf_json_object) (simp add: utf8_request_def)

lemma diagnostic_response_wf [typed]:
  "utf8_request req \<Longrightarrow> utf8_error e \<Longrightarrow> wf_json (diagnostic_response v req e)"
  unfolding diagnostic_response_def
  by (rule wf_json_object) (simp add: utf8_request_def utf8_error_def wf_json_object)

lemma refusal_response_wf [typed]:
  "(\<And>t. i = Some t \<Longrightarrow> str_ok t) \<Longrightarrow> str_ok (refusal_detail r) \<Longrightarrow> wf_json (refusal_response v i r)"
  unfolding refusal_response_def
  by (rule wf_json_object) (simp split: option.split)

lemma too_large_response_wf [typed]: "wf_json (too_large_response v n m)"
  unfolding too_large_response_def by (rule wf_json_object) simp

lemma envelope_response_wf [typed]:
  "utf8_engine E \<Longrightarrow> utf8_request req \<Longrightarrow> wf_json (envelope_response E v req res g wr lim)"
  unfolding envelope_response_def
  by (auto simp: utf8_request_def utf8_engineD(7) intro!: wf_json_object)

lemma handshake_replies_wf [typed]: "str_ok ep \<Longrightarrow> wf_json (welcome_reply v ep)" "wf_json refused_reply"
  unfolding welcome_reply_def refused_reply_def wf_json_members
  by (simp_all add: members_wf_insert bt_wf_insert bt_wf_def [of "[]"] del: bt_insert.simps)

subsection \<open>The requests\<close>

lemma run_one_wf:
  assumes "utf8_engine E" "utf8_request req" "run_one E lim v req stmt db w = (x, db', w')"
  shows "wf_json x"
  using assms(3) utf8_engineD [OF assms(1)] assms(1,2)
  by (auto simp: run_one_def Let_def typed split: sum.splits prod.splits if_splits)

lemma slot_resolve_utf8:
  assumes "utf8_slot sl" "utf8_request req" "slot_resolve (session_id req) sl = Inl r"
  shows "str_ok (refusal_detail r)"
  using assms by (auto simp: slot_resolve_def utf8_slot_def utf8_request_def split: option.splits if_splits)

lemma slot_open_utf8:
  assumes "utf8_engine E" "utf8_slot sl" "str_ok name" "slot_open E name c sl w = (r, sl', w')"
  shows "utf8_slot sl'" "r = Inr i \<Longrightarrow> str_ok i" "r = Inl (OpenRefused q) \<Longrightarrow> str_ok (refusal_detail q)"
    "r = Inl (UnknownName n) \<Longrightarrow> str_ok n" "r = Inl (OpenStorage m) \<Longrightarrow> str_ok m"
    "r \<noteq> Inl (OpenCatalog ce)"
  using assms utf8_engineD(2) [OF assms(1)]
  by (auto simp: slot_open_def utf8_slot_def Let_def split: option.splits sum.splits prod.splits)

lemma dispatch_open_wf:
  assumes "utf8_library H" "utf8_engine E" "utf8_request req" "utf8_slot sl"
    "dispatch_open H E cp v req sl w = (y, sl', w')"
  shows "utf8_slot sl' \<and> (\<exists>x. y = Send x \<and> wf_json x)"
proof (cases "request.database req")
  case (Some name)
  obtain contents w1 where read: "read_file E cp w = (contents, w1)" by fastforce
  have name: "str_ok name" using assms(3) Some by (simp add: utf8_request_def)
  show ?thesis
  proof (cases "catalog_load H contents")
    case (Inl e)
    have "str_ok (catalog_error_display e)"
      using catalog_load_utf8 [OF assms(1) _ Inl] utf8_engineD(1) [OF assms(2)] read by auto
    with assms(3-5) Some read Inl show ?thesis by (auto simp: dispatch_open_def typed)
  next
    case (Inr c)
    obtain r sl1 w2 where opened: "slot_open E name c sl w1 = (r, sl1, w2)"
      by (cases "slot_open E name c sl w1") auto
    note utf8 = slot_open_utf8 [OF assms(2,4) name opened]
    have id: "str_ok (request_id req)" using assms(3) by (simp add: utf8_request_def)
    show ?thesis
    proof (cases r)
      case (Inl e)
      with utf8 id assms(3,5) Some read Inr opened show ?thesis
        by (cases e) (auto simp: dispatch_open_def intro!: typed)
    next
      case i: (Inr i)
      with utf8(2) have "wf_json (json_object [(''session_id'', String i)])"
        by (intro wf_json_object) simp
      with utf8(1) assms(3,5) Some read Inr opened i show ?thesis by (auto simp: dispatch_open_def typed)
    qed
  qed
qed (use assms(3-5) in \<open>auto simp: dispatch_open_def typed\<close>)

lemma dispatch_query_wf:
  assumes "utf8_engine E" "utf8_request req" "utf8_slot sl"
    "dispatch_query E lim v req sl w = (y, sl', w')"
  shows "utf8_slot sl' \<and> (\<exists>x. y = Send x \<and> wf_json x)"
proof (cases "slot_resolve (session_id req) sl")
  case (Inl r)
  have "wf_json (refusal_response v (Some (request_id req)) r)"
    using assms(2) slot_resolve_utf8 [OF assms(3,2) Inl] by (auto simp: utf8_request_def intro!: typed)
  with assms(3,4) Inl show ?thesis by (auto simp: dispatch_query_def)
next
  case (Inr s)
  show ?thesis
  proof (cases "statement req")
    case (Some stmt)
    obtain x db w1 where run: "run_one E lim v req stmt (sess_database s) w = (x, db, w1)"
      by (cases "run_one E lim v req stmt (sess_database s) w") auto
    from run_one_wf [OF assms(1,2) run] assms(3,4) Inr Some run show ?thesis
      by (auto simp: dispatch_query_def)
  qed (use assms(2-4) Inr in \<open>auto simp: dispatch_query_def typed\<close>)
qed

fun reply_value :: "reply \<Rightarrow> json option" where
  "reply_value (Send x) = Some x"
| "reply_value (Shutdown_Reply x) = Some x"
| "reply_value Transaction = None"

lemma dispatch_wf:
  assumes "utf8_library H" "utf8_engine E" "str_ok ep" "utf8_request req" "utf8_slot sl"
    "dispatch H E lim cp ep v req sl w = (y, sl', w')"
  shows "utf8_slot sl' \<and> (\<forall>x. reply_value y = Some x \<longrightarrow> wf_json x)"
proof (cases "req_operation req")
  case OpenSession
  with dispatch_open_wf [OF assms(1,2,4,5)] assms(6) show ?thesis by (force simp: dispatch.simps)
next
  case Query
  with dispatch_query_wf [OF assms(2,4,5)] assms(6) show ?thesis by (force simp: dispatch.simps)
next
  case CloseSession
  with assms(4-6) show ?thesis
    by (auto simp: dispatch.simps slot_close_def utf8_slot_def split: option.splits
        intro!: typed wf_json_object)
next
  case Status
  with assms(3-6) show ?thesis by (auto simp: dispatch.simps intro!: typed wf_json_object)
next
  case Shutdown
  with assms(4-6) show ?thesis by (auto simp: dispatch.simps members_wf_def intro!: typed wf_json_object)
next
  case Begin
  show ?thesis
  proof (cases "slot_resolve (session_id req) sl")
    case (Inl r)
    have "wf_json (refusal_response v (Some (request_id req)) r)"
      using assms(4) slot_resolve_utf8 [OF assms(5,4) Inl] by (auto simp: utf8_request_def intro!: typed)
    with assms(5,6) Begin Inl show ?thesis by (auto simp: dispatch.simps)
  qed (use assms(5,6) Begin in \<open>auto simp: dispatch.simps\<close>)
qed (use assms(4-6) in \<open>auto simp: dispatch.simps typed\<close>)

fun act_value :: "('tx, 'db, 'w) region_act \<Rightarrow> json" where
  "act_value (Finish x db w) = x"
| "act_value (Respond x tx w) = x"
| "act_value (RespondKeep x) = x"

lemma region_query_wf:
  assumes "utf8_engine E" "utf8_request req"
  shows "wf_json (act_value (region_query E lim v base req tx w :: ('tx, 'db, 'w) region_act))"
  using assms utf8_engineD [OF assms(1)]
  by (auto simp: region_query_def typed split: option.split sum.split prod.split)

lemma region_request_wf:
  assumes "utf8_engine E" "utf8_request req"
  shows "wf_json (act_value (region_request E lim v base req tx w))"
proof (cases "req_operation req")
  case Commit
  with assms utf8_engineD(6) [OF assms(1)] show ?thesis
    by (auto simp: region_request_def split: prod.split sum.split intro!: typed wf_json_object)
next
  case Query
  with region_query_wf [OF assms] show ?thesis by (simp add: region_request_def)
qed (use assms in \<open>auto simp: region_request_def split: prod.split intro!: typed wf_json_object\<close>)

subsection \<open>The connection\<close>

definition typed_step :: "('db, 'tx) verdict \<Rightarrow> json \<Rightarrow> bool" where
  "typed_step r x = (wf_json x \<and> (\<forall>m. r = Go m \<longrightarrow> utf8_mode m))"

lemma checked_typed: "wf_json x \<Longrightarrow> utf8_mode m \<Longrightarrow> checked H E lim m x w = (r, y, w') \<Longrightarrow> typed_step r y"
  by (auto simp: checked_def typed_step_def split: if_splits)

lemma begin_step_typed:
  assumes "utf8_engine E" "utf8_request req" "utf8_slot sl" "begin_step H E lim v req sl w = (r, x, w')"
  shows "typed_step r x"
proof (cases "slot_resolve (session_id req) sl")
  case (Inl q)
  have "wf_json (refusal_response v (Some (request_id req)) q)"
    using assms(2) slot_resolve_utf8 [OF assms(3,2) Inl] by (auto simp: utf8_request_def intro!: typed)
  with assms(3,4) Inl show ?thesis by (auto simp: begin_step_def typed_step_def)
next
  case (Inr sess)
  have "wf_json (ok_response v req (json_object [(''base_generation'', num_u64 g)]))" for g
    using assms(2) by (auto intro!: typed wf_json_object simp: members_wf_def)
  moreover have "wf_json (error_response v req e)" if "tx_begin E db w = (Inl (e, db'), w1)" for e db db' w1
    using utf8_engineD(4) [OF assms(1) that] assms(2) by (simp add: typed)
  ultimately show ?thesis using assms(3,4) Inr
    by (auto simp: begin_step_def typed_step_def split: sum.splits prod.splits dest!: checked_typed [rotated 2])
qed

lemma outside_step_typed:
  assumes "utf8_library H" "utf8_engine E" "str_ok ep" "utf8_request req" "utf8_slot sl"
    "outside_step H E lim cp ep v req sl w = (r, x, w')"
  shows "typed_step r x"
proof -
  obtain y sl1 w1 where d: "dispatch H E lim cp ep v req sl w = (y, sl1, w1)"
    by (cases "dispatch H E lim cp ep v req sl w") auto
  note wf = dispatch_wf [OF assms(1-5) d]
  show ?thesis
  proof (cases y)
    case (Send z)
    with wf d assms(6) show ?thesis
      by (auto simp: outside_step_def intro: checked_typed [where m = "Outside sl1"])
  next
    case Transaction
    with wf d assms(6) begin_step_typed [OF assms(2,4), of sl1] show ?thesis by (simp add: outside_step_def)
  next
    case (Shutdown_Reply z)
    with wf d assms(6) show ?thesis by (auto simp: outside_step_def typed_step_def)
  qed
qed

lemma inside_step_typed:
  assumes "utf8_engine E" "utf8_request req" "utf8_slot sl"
    "inside_step H E lim v req sl base held tx w = (r, x, w')"
  shows "typed_step r x"
  using region_request_wf [OF assms(1,2), of lim v base tx w] assms(3,4)
  by (cases "region_request E lim v base req tx w")
    (auto simp: inside_step_def typed_step_def split: if_splits dest: checked_typed [rotated 2])

lemma conn_step_typed:
  assumes "utf8_library H" "utf8_engine E" "str_ok ep" "utf8_mode m"
    "conn_step H E lim cp ep v m body w = (r, x, w')"
  shows "typed_step r x"
proof -
  have refusal: "wf_json (refusal_response v None q)" if "decode_request H body held = Inl q" for q held
    using decode_request_utf8(1) [OF assms(1) that] by (auto intro!: typed)
  show ?thesis
  proof (cases m)
    case (Outside sl)
    show ?thesis
    proof (cases "decode_request H body {}")
      case (Inl q)
      with refusal assms(4,5) Outside show ?thesis by (auto simp: typed_step_def)
    next
      case (Inr req)
      with outside_step_typed [OF assms(1-3) decode_request_utf8(2) [OF assms(1) Inr]] assms(4,5) Outside
      show ?thesis by simp
    qed
  next
    case (Inside sl base held tx)
    show ?thesis
    proof (cases "decode_request H body held")
      case (Inl q)
      with refusal [OF Inl] assms(4,5) Inside checked_typed [of "refusal_response v None q" m H E lim w r x w']
      show ?thesis by simp
    next
      case (Inr req)
      with inside_step_typed [OF assms(2) decode_request_utf8(2) [OF assms(1) Inr]] assms(4,5) Inside
      show ?thesis by simp
    qed
  qed
qed

lemma conn_arrival_typed:
  assumes "utf8_library H" "utf8_engine E" "str_ok ep" "utf8_conn cn"
    "conn_arrival H E lim cp ep cn a w = (r, replies, w')"
  shows "(\<forall>x \<in> set replies. wf_json x) \<and> (\<forall>cn'. r = Inr cn' \<longrightarrow> utf8_conn cn')"
proof (cases cn)
  case Greeting
  with assms(3,5) show ?thesis by (cases a) (auto simp: typed split: sum.splits if_splits)
next
  case (Talking v m)
  show ?thesis
  proof (cases a)
    case (Body body)
    obtain q x w1 where "conn_step H E lim cp ep v m body w = (q, x, w1)"
      by (cases "conn_step H E lim cp ep v m body w") auto
    with conn_step_typed [OF assms(1-3) _ this] assms(4,5) Talking Body show ?thesis
      by (cases q) (auto simp: typed_step_def simp del: conn_step.simps)
  next
    case (EndOfStream e)
    have "\<forall>x \<in> set (farewell v m e). wf_json x"
      by (cases m; cases e) (simp_all add: typed)
    with assms(5) Talking EndOfStream show ?thesis by auto
  qed
qed

lemma conn_life_typed:
  assumes "utf8_library H" "utf8_engine E" "str_ok ep"
  shows "utf8_conn cn \<Longrightarrow> conn_life H E lim cp ep cn as w = (r, replies, w') \<Longrightarrow> x \<in> set replies \<Longrightarrow> wf_json x"
proof (induction as arbitrary: cn w r replies w')
  case (Cons a as)
  obtain q replies1 w1 where run: "conn_arrival H E lim cp ep cn a w = (q, replies1, w1)"
    by (cases "conn_arrival H E lim cp ep cn a w") auto
  note now = conn_arrival_typed [OF assms Cons.prems(1) run]
  show ?case
  proof (cases q)
    case (Inr cn')
    obtain r2 replies2 w2 where rest: "conn_life H E lim cp ep cn' as w1 = (r2, replies2, w2)"
      by (cases "conn_life H E lim cp ep cn' as w1") auto
    from now Inr have "utf8_conn cn'" by simp
    from Cons.IH [OF this rest] now Cons.prems(2,3) run Inr rest show ?thesis by auto
  qed (use now Cons.prems(2,3) run in auto)
qed simp

end
