(* ===== verification/HostProps.thy ===== *)
theory HostProps
  imports HostDemo ReplyType
begin

section \<open>The daemon as a whole: the claims\<close>

text \<open>
  What the composition gives: a connection of a busy daemon is served as \<open>serve_connection\<close> serves
  it alone, the Engine is used by the protocol on every connection at every moment, and what a
  shutdown does to the connections that are still open.
\<close>

definition host_stream :: stream where
  "host_stream = \<lparr>inp = [Chunk [0, 0, 0, 1, 0x48, 0, 0], Chunk [0, 1, 0x58]], wev = [], out = []\<rparr>"

text \<open>
  C10: a connection of a daemon that serves others too, and shares the world with them and with other
  processes, ends as \<open>serve_connection\<close> ends on its bytes alone, and has been sent the same
  replies, for some script of what its Engine calls found. What holds of every run of
  \<open>serve_connection\<close> holds of every connection of the daemon.
\<close>

theorem served_as_if_alone:
  assumes "host_steps H E others lim cp ep lossy (host_start w) s"
    and "conns s c = None" "over_by s c = Some x"
    and "healthy (inp t)" "wev t = []" "frames_of (max_frame_bytes lim) (bytes_of (inp t)) = (bodies, e)"
    and "map Body bodies @ [EndOfStream e] = heard s c @ rest"
  shows "\<exists>ws t'. serve_connection H (scripted d E) lim cp ep t ws = (x, t', []) \<and>
    out t' = out t @ concat (map (delivery H lim) (said s c))"
proof -
  have "lives_on H E d lim cp ep s c" using host_reach_inv [OF assms(1)] by (simp add: host_inv_def)
  then obtain ws where "conn_life H (scripted d E) lim cp ep Greeting (heard s c) (ws @ fs) = (Inl x, said s c, fs)" for fs
    using assms(2,3) by (auto simp: lives_on_def life_state_def)
  from this [of "[]"] have "conn_life H (scripted d E) lim cp ep Greeting (heard s c @ rest) ws = (Inl x, said s c, [])"
    by (simp add: conn_life_append)
  then have script: "conn_script H (scripted d E) lim cp ep bodies e ws = (x, said s c, [])"
    unfolding assms(7) [symmetric] conn_life_script by (auto split: prod.splits)
  have "clean t" using assms(4,5) by (simp add: clean_def)
  from serve_connection_meets [OF this, where H = H and E = "scripted d E" and lim = lim and cp = cp
      and ep = ep and w = ws]
  show ?thesis using script assms(6)
    by (cases "serve_connection H (scripted d E) lim cp ep t ws")
      (auto simp: script_def conn_on_bytes_def)
qed

theorem served_as_if_alone_witness:
  "\<exists>ws t. serve_connection host_text (scripted 4 demo_engine) demo_limits ''/c'' ''/e'' host_stream ws =
     (ShutdownRequested, t, [])"
proof -
  obtain s where s: "demo_step\<^sup>*\<^sup>* (host_start 4) s"
    "conns s = [1 \<mapsto> Talking 1 (Inside work_slot 7 {} False)]"
    "over_by s 0 = Some ShutdownRequested" "heard s 0 = [Body ''H'', Body ''X'']"
    by (rule demo_run)
  have "\<forall>t \<in> set [''H'', ''X'']. sendable (max_frame_bytes demo_limits) t" by code_simp
  from frames_of_messages [OF this]
  have frames: "frames_of (max_frame_bytes demo_limits) (bytes_of (inp host_stream)) = ([''H'', ''X''], Closed)"
    by (simp add: host_stream_def frame_bytes_def to_be_bytes_def as_bytes_def)
  from served_as_if_alone [OF s(1) _ s(3) _ _ frames, where rest = "[EndOfStream Closed]" and d = 4] s(2,4)
  show ?thesis by (auto simp: host_stream_def)
qed

text \<open>
  C11: at every moment, whatever the connections do at once, each connection's calls of the Engine
  follow the protocol and have brought it to the phase the connection is in: a database is open
  exactly for a session, a transaction begun and not ended exactly inside a region, and a
  connection that is over has given everything back.
\<close>

theorem every_connection_keeps_the_protocol:
  assumes "host_steps H E others lim cp ep lossy (host_start w) s"
  shows "log_phase NoDatabase (calls s c) = Some (conn_phase (conns s c)) \<and>
    count_list (calls s c) BeganTx = count_list (calls s c) Committed + count_list (calls s c) CommitFailed +
      count_list (calls s c) RolledBack + (if conn_phase (conns s c) = InTx then 1 else 0) \<and>
    (conns s c \<noteq> None) = (threads (door s) c = Some InService)"
proof -
  have inv: "calls_inv (conns s c) (calls s c)" "serving (door s) = dom (conns s)"
    using host_reach_inv [OF assms, of undefined] by (auto simp: host_inv_def)
  then have "log_phase NoDatabase (calls s c) = Some (conn_phase (conns s c))" by (simp add: calls_inv_def)
  moreover from log_phase_counts [OF this]
  have "count_list (calls s c) BeganTx = count_list (calls s c) Committed + count_list (calls s c) CommitFailed +
      count_list (calls s c) RolledBack + (if conn_phase (conns s c) = InTx then 1 else 0)"
    by (cases "conn_phase (conns s c)") simp_all
  moreover have "(conns s c \<noteq> None) = (threads (door s) c = Some InService)"
    using inv(2) by (auto simp: serving_def)
  ultimately show ?thesis by blast
qed

theorem every_connection_keeps_the_protocol_witness:
  "\<exists>s. demo_step\<^sup>*\<^sup>* (host_start 4) s \<and> calls s 1 = [OpenedDb, BeganTx] \<and>
     log_phase NoDatabase (calls s 1) = Some InTx \<and> threads (door s) 1 = Some InService"
proof -
  obtain s where s: "demo_step\<^sup>*\<^sup>* (host_start 4) s" "calls s 1 = [OpenedDb, BeganTx]"
    "conns s = [1 \<mapsto> Talking 1 (Inside work_slot 7 {} False)]"
    by (rule demo_run)
  from every_connection_keeps_the_protocol [OF s(1), of 1] s show ?thesis
    by (intro exI [of _ s]) simp
qed

text \<open>
  C12: a client that goes away takes everything of its own with it. Once its connection has met the
  end of the stream, however that came, the connection is out of service, its session is closed
  and its database dropped, and every transaction it began has been committed or rolled back.
\<close>

theorem a_hangup_frees_everything:
  assumes "host_steps H E others lim cp ep lossy (host_start w) s" "EndOfStream e \<in> set (heard s c)"
  shows "conns s c = None \<and> over_by s c \<noteq> None \<and> threads (door s) c \<noteq> Some InService \<and>
    log_phase NoDatabase (calls s c) = Some NoDatabase \<and>
    count_list (calls s c) BeganTx = count_list (calls s c) Committed + count_list (calls s c) CommitFailed +
      count_list (calls s c) RolledBack"
proof -
  have inv: "lives_on H E undefined lim cp ep s c" "calls_inv (conns s c) (calls s c)" "serving (door s) = dom (conns s)"
    using host_reach_inv [OF assms(1), of undefined] by (auto simp: host_inv_def)
  note over = heard_the_end [OF inv(1) assms(2)]
  with inv(2) have "log_phase NoDatabase (calls s c) = Some NoDatabase" by (simp add: calls_inv_None)
  moreover from log_phase_counts [OF this]
  have "count_list (calls s c) BeganTx = count_list (calls s c) Committed + count_list (calls s c) CommitFailed +
      count_list (calls s c) RolledBack" by simp
  moreover have "threads (door s) c \<noteq> Some InService" using inv(3) over(1) by (auto simp: serving_def)
  ultimately show ?thesis using over by blast
qed

theorem a_hangup_frees_everything_witness:
  "\<exists>s. demo_step\<^sup>*\<^sup>* (host_start 4) s \<and> calls s 1 = [OpenedDb, BeganTx, RolledBack, DroppedDb] \<and>
     conns s 1 = None"
proof -
  obtain s where s: "demo_step\<^sup>*\<^sup>* (host_start 4) s" "EndOfStream Closed \<in> set (heard s 1)"
    "calls s 1 = [OpenedDb, BeganTx, RolledBack, DroppedDb]"
    by (rule demo_hangs_up)
  from a_hangup_frees_everything [OF s(1,2)] s show ?thesis by blast
qed

text \<open>The Engine of a script keeps the types of the Engine.\<close>

lemma scripted_utf8: "utf8_engine E \<Longrightarrow> utf8_engine (scripted d E)"
  unfolding utf8_engine_def scripted_def by (auto split: prod.splits simp: case_prod_beta)

text \<open>
  Whatever its clients send, every reply the daemon has sent to any of them is JSON as the Rust
  types promise it: the keys of every object in order, every string in UTF-8. Of the Engine and of
  \<open>serde_json\<close> it needs what their types promise of their own texts and values; the endpoint's
  name is the rendering of a path that may be any bytes.
\<close>

theorem every_reply_is_json:
  assumes "host_steps H E others lim cp (display address) lossy (host_start w) s"
    and "utf8_library H" "utf8_engine E"
  shows "list_all wf_json (said s c)"
proof -
  have "lives_on H E w lim cp (display address) s c"
    using host_reach_inv [OF assms(1)] by (simp add: host_inv_def)
  then obtain ws where "conn_life H (scripted w E) lim cp (display address) Greeting (heard s c) (ws @ []) =
      (life_state s c, said s c, [])"
    unfolding lives_on_def by blast
  from conn_life_typed [OF assms(2) scripted_utf8 [OF assms(3)] str_ok_display _ this] show ?thesis
    by (simp add: list_all_iff)
qed

theorem every_reply_is_json_witness:
  "\<exists>s. demo_step\<^sup>*\<^sup>* (host_start 4) s \<and> heard s 0 = [Body ''H'', Body ''X''] \<and>
     list_all wf_json (said s 0)"
proof -
  obtain s where s: "demo_step\<^sup>*\<^sup>* (host_start 4) s" "heard s 0 = [Body ''H'', Body ''X'']"
    by (rule demo_run)
  have "display ''/e'' = ''/e''" by code_simp
  with s(1) have run: "host_steps host_text demo_engine any_change demo_limits ''/c'' (display ''/e'') False
      (host_start 4) s" by simp
  have json: "wf_json v" if "host_json t = Inr v" for t v
    using that by (auto simp: host_json_def demo_json_def demo_request_def bt_wf_def num_u64_def split: if_splits)
  have "str_ok e" if "host_json t = Inl e" for t e
    using that by (auto simp: host_json_def demo_json_def split: if_splits)
  with json have "utf8_library host_text" by (simp add: utf8_library_def host_text_def demo_text_def)
  moreover have "utf8_engine demo_engine"
    by (auto simp: utf8_engine_def demo_engine_def utf8_error_def split: if_splits)
  ultimately show ?thesis using every_reply_is_json [OF run] s by blast
qed

text \<open>
  C19: the accept loop can return, and with it the daemon, while a connection of another client is in the
  middle of a transaction that it began and nobody has committed or rolled back. A shutdown stops
  the daemon without ending the other sessions.
\<close>

theorem a_shutdown_abandons_transactions:
  "\<exists>(s :: (u64, unit, bool) host) c.
     host_steps host_text demo_engine any_change demo_limits ''/c'' ''/e'' False (host_start 4) s \<and>
     loop_result (door s) = Some (Ok ()) \<and> threads (door s) c = Some InService \<and>
     count_list (calls s c) BeganTx = 1 \<and> count_list (calls s c) Committed = 0 \<and>
     count_list (calls s c) CommitFailed = 0 \<and> count_list (calls s c) RolledBack = 0"
proof -
  obtain s where s: "demo_step\<^sup>*\<^sup>* (host_start 4) s" "door s = two_connections ! 8"
    "calls s 1 = [OpenedDb, BeganTx]"
    by (rule demo_run)
  have "loop_result (door s) = Some (Ok ())" "threads (door s) 1 = Some InService"
    using s(2) by (simp_all add: two_connections_def)
  with s show ?thesis by (intro exI [of _ s] exI [of _ 1]) simp
qed

end
