(* ===== verification/OpenProps.thy ===== *)
theory OpenProps
  imports StoreProps SessionProps Serve
begin

section \<open>Opening a session while the catalog is rewritten\<close>

text \<open>
  Where \<open>serve.rs\<close>, \<open>session.rs\<close> and \<open>catalog.rs\<close> meet: \<open>open_session\<close> reads the catalog file at a
  moment when other processes may be storing it, and looks the name up in what it read.
\<close>

text \<open>\<open>std::fs::read_to_string\<close> on the modelled file system.\<close>

definition read_to_string :: "fs \<Rightarrow> string \<Rightarrow> io_error + string" where
  "read_to_string s path = (case fst (exec_ok 0 (ReadFile (path_key path)) s) of
     Contents t \<Rightarrow> Ok t
   | Failed e \<Rightarrow> Err e
   | _ \<Rightarrow> Err (os_error []))"

lemma read_to_string_cong:
  "nodes s (path_key path) = nodes s' (path_key path) \<Longrightarrow> read_to_string s path = read_to_string s' path"
  by (simp add: read_to_string_def exec_ok.simps split: option.split node.split)

text \<open>What the library has to do for a catalog that is stored: print it as text that it parses back.\<close>

definition prints_back :: "textlib \<Rightarrow> catalog \<Rightarrow> bool" where
  "prints_back H c = (cat_inv c \<and> paths_utf8 c \<and> (\<exists>body. to_string_pretty H (to_document c) = Inr body \<and>
     from_str H (body @ [CHR 0x0A]) = Inr (to_document c) \<and> str_ok (body @ [CHR 0x0A])))"

lemma load_stored:
  assumes "prints_back H c" "store_text H c t" "nodes s (path_key path) = Some (File md t)"
  shows "catalog_load H (read_to_string s path) = Ok c"
proof -
  obtain body where b: "to_string_pretty H (to_document c) = Inr body"
      "from_str H (body @ [CHR 0x0A]) = Inr (to_document c)" "str_ok (body @ [CHR 0x0A])"
    using assms(1) by (auto simp: prints_back_def)
  with assms(2) have "t = body @ [CHR 0x0A]" by (simp add: store_text_def)
  with b assms(1,3) catalog_round_trip [of c H] show ?thesis
    by (simp add: prints_back_def read_to_string_def exec_ok.simps catalog_load_def catalog_parse_def)
qed

lemma load_whole:
  assumes "pool_reach (store_process H (path_key path) cats) s0 (s, P)"
    and "\<forall>c \<in> cats. prints_back H c" "catalog_load H (read_to_string s0 path) = Ok c0"
  shows "\<exists>c \<in> insert c0 cats. catalog_load H (read_to_string s path) = Ok c"
proof -
  consider "nodes s (path_key path) = nodes s0 (path_key path)"
    | c t md where "c \<in> cats" "store_text H c t" "nodes s (path_key path) = Some (File md t)"
    using reachable_store [OF assms(1)] by blast
  then show ?thesis
  proof cases
    case 1
    with assms(3) read_to_string_cong [OF 1] show ?thesis by simp
  next
    case 2
    with assms(2) load_stored [OF _ 2(2,3)] show ?thesis by auto
  qed
qed

text \<open>
  C13: \<open>open_session\<close> never acts on part of a catalog. While other processes store the catalog,
  interrupted anywhere, a session that is opened has the path that a whole catalog gives its name:
  the catalog that was there at first, or one that a writer stored. Of the world it needs that
  its files are those of the writers' machine, of the library that a stored catalog parses back.
\<close>

theorem opened_session_is_in_a_whole_catalog:
  assumes "pool_reach (store_process H (path_key cp) cats) s0 (s, P)"
    and "\<forall>c \<in> cats. prints_back H c" "catalog_load H (read_to_string s0 cp) = Ok c0"
    and "fst (read_file E cp w) = read_to_string s cp"
    and "dispatch_open H E cp v req sl w = (y, sl', w')" "slot_session sl = None" "slot_session sl' = Some sess"
  shows "\<exists>c \<in> insert c0 cats. \<exists>e. catalog_get c (sess_name sess) = Some e \<and> sess_path sess = entry_path e"
proof -
  obtain name where name: "request.database req = Some name"
    using assms(5-7) by (cases "request.database req") (auto simp: dispatch_open_def)
  obtain w1 where read: "read_file E cp w = (read_to_string s cp, w1)"
    using assms(4) by (metis prod.collapse)
  obtain c where c: "c \<in> insert c0 cats" "catalog_load H (read_to_string s cp) = Ok c"
    using load_whole [OF assms(1-3)] by blast
  obtain r sl1 w2 where opened: "slot_open E name c sl w1 = (r, sl1, w2)"
    by (cases "slot_open E name c sl w1") auto
  have sl': "sl' = sl1"
    using assms(5) name read c(2) opened
    by (auto simp: dispatch_open_def split: sum.splits open_error.splits)
  then obtain e where "catalog_get c name = Some e" "sess_name sess = name" "sess_path sess = entry_path e"
    using opened assms(6,7)
    by (auto simp: slot_open_def Let_def split: option.splits sum.splits prod.splits)
  with c(1) show ?thesis by blast
qed

text \<open>A writer that stores a catalog of one name from nothing, and a session opened after it.\<close>

definition one_lib :: textlib where
  "one_lib = store_lib\<lparr>from_str := (\<lambda>t. if t = [CHR ''1'', CHR 0x0A] then Inr (to_document one_name) else Inl []),
     to_string_pretty := (\<lambda>v. Inr ''1'')\<rparr>"

definition one_reader :: "(nat, string, unit, unit, unit, unit) engine" where
  "one_reader = path_engine\<lparr>read_file := (\<lambda>p w. (Ok [CHR ''1'', CHR 0x0A], w))\<rparr>"

definition open_work :: request where
  "open_work = \<lparr>req_version = 1, request_id = ''r1'', session_id = None, req_operation = OpenSession,
     database = Some ''work'', statement = None\<rparr>"

lemma one_prints_back: "prints_back one_lib one_name"
proof -
  have "str_ok [CHR ''1'', CHR 0x0A]" "is_absolute ''/w''" "str_ok ''/w''" "name_ok ''work''" by code_simp+
  then show ?thesis
    by (simp add: prints_back_def one_lib_def one_name_def cat_inv_def paths_utf8_def entry_ok_def
        bt_wf_def bt_get_def)
qed

lemma one_written:
  obtains s P where "pool_reach (store_process one_lib (path_key demo_file) {one_name}) blank_machine (s, P)"
    "read_to_string s demo_file = Ok [CHR ''1'', CHR 0x0A]"
proof -
  let ?starts = "store_process one_lib (path_key demo_file) {one_name}"
  let ?p = "prog_bind (catalog_store one_lib 1 one_name demo_file) (\<lambda>r. Ret (Stored r))"
  let ?r = "solo 1 [None, None, None] (blank_machine, ?p)"
  have "?starts 1 ?p" unfolding store_process_def using demo_file_temp by blast
  moreover have "pool_reach ?starts blank_machine (blank_machine, \<lambda>_. None)"
    by (rule pool_reach.init) (simp add: quiet_def blank_machine_def)
  ultimately have "pool_reach ?starts blank_machine (blank_machine, [1 \<mapsto> ?p])"
    using pool_step.spawn [of "\<lambda>_. None" 1 ?starts ?p blank_machine] by (blast intro: pool_reach.step)
  from reach_solo [OF this, of 1 ?p "[None, None, None]"]
  have r: "pool_reach ?starts blank_machine (fst ?r, [1 \<mapsto> snd ?r])" by simp
  have name: "temp_name n \<noteq> ''catalog.json''" for n by simp
  have "str_ok [CHR ''1'', CHR 0x0A]" by code_simp
  then have "read_to_string (fst ?r) demo_file = Ok [CHR ''1'', CHR 0x0A]"
    by (simp add: catalog_store_def demo_file_key parent_key_def io_call_def one_lib_def Let_def
        exec_ok.simps blank_machine_def path_prefixes_def upt_rec has_dir_def is_dir_def child_key_def
        read_to_string_def)
  with r show thesis by (rule that)
qed

lemma opened_session_is_in_a_whole_catalog_witness:
  "\<exists>s P sess. pool_reach (store_process one_lib (path_key demo_file) {one_name}) blank_machine (s, P) \<and>
     slot_session (fst (snd (dispatch_open one_lib one_reader demo_file 1 open_work slot_new 0))) = Some sess \<and>
     sess_path sess = ''/w'' \<and>
     (\<exists>c \<in> {catalog_default, one_name}. catalog_get c (sess_name sess) \<noteq> None)"
proof -
  obtain s P where s: "pool_reach (store_process one_lib (path_key demo_file) {one_name}) blank_machine (s, P)"
    "read_to_string s demo_file = Ok [CHR ''1'', CHR 0x0A]" by (rule one_written)
  let ?sess = "\<lparr>sess_id = ''s1'', sess_name = ''work'', sess_path = ''/w'', sess_database = ''/w''\<rparr>"
  have loaded: "catalog_load one_lib (Ok [CHR ''1'', CHR 0x0A]) = Ok one_name"
    using catalog_round_trip [of one_name one_lib] one_prints_back
    by (simp add: prints_back_def catalog_load_def catalog_parse_def one_lib_def)
  obtain y where opened: "dispatch_open one_lib one_reader demo_file 1 open_work slot_new 0 =
      (y, \<lparr>slot_session = Some ?sess, slot_next = 2\<rparr>, 1)"
    using loaded by (simp add: dispatch_open_def open_work_def one_reader_def path_engine_def slot_open_def
        slot_new_def catalog_get_def one_name_def bt_get_def Let_def show_one)
  have first: "catalog_load one_lib (read_to_string blank_machine demo_file) = Ok catalog_default"
    by (simp add: read_to_string_def blank_machine_def exec_ok.simps catalog_load_def not_found_def)
  have "\<exists>c \<in> insert catalog_default {one_name}. \<exists>e. catalog_get c ''work'' = Some e \<and> ''/w'' = entry_path e"
    using opened_session_is_in_a_whole_catalog [OF s(1) _ first _ opened, of ?sess] one_prints_back s(2)
    by (simp add: one_reader_def slot_new_def)
  with s(1) opened show ?thesis by (intro exI [of _ s] exI [of _ P] exI [of _ ?sess]) auto
qed

end
