(* ===== verification/Server.thy ===== *)
theory Server
  imports HostInv
begin

section \<open>The daemon as a transactional server\<close>

text \<open>
  The promise of \<open>README.md\<close> and of the header of \<open>src/session.rs\<close>: transactions isolated as the
  Engine isolates them, one session on a connection, concurrency by more connections. The
  specification knows the committed content of every database and where each client is; the
  machine of \<open>Host\<close> implements it, whatever its connections do at once.

  A client's database may be behind the file, for another process can commit to it: \<open>rereads\<close> lets
  it catch up at any time outside a transaction, so the specification does not depend on when the
  Engine looks at the file again.
\<close>

datatype 'd client = Unopened | Opened string 'd | Working string 'd 'd

inductive client_step ::
  "('q \<Rightarrow> 'd \<Rightarrow> query_error + 'r \<Rightarrow> 'd \<Rightarrow> bool) \<Rightarrow> (string \<Rightarrow> 'd) \<Rightarrow> 'd client \<Rightarrow> (string \<Rightarrow> 'd) \<Rightarrow> 'd client \<Rightarrow> bool"
  for runs where
  opens: "client_step runs D Unopened D (Opened p (D p))"
| closes: "client_step runs D (Opened p v) D Unopened"
| rereads: "client_step runs D (Opened p v) D (Opened p (D p))"
| begins: "client_step runs D (Opened p v) D (Working p v v)"
| executes: "runs q t res t' \<Longrightarrow> client_step runs D (Working p v t) D (Working p v t')"
| commits: "client_step runs D (Working p v t) (D(p := t)) (Opened p t)"
| aborts: "client_step runs D (Working p v t) D (Opened p v)"

text \<open>Clients take their steps in any order, and the files may change by what is outside.\<close>

inductive server_step ::
  "('q \<Rightarrow> 'd \<Rightarrow> query_error + 'r \<Rightarrow> 'd \<Rightarrow> bool) \<Rightarrow> ((string \<Rightarrow> 'd) \<Rightarrow> (string \<Rightarrow> 'd) \<Rightarrow> bool) \<Rightarrow>
   (string \<Rightarrow> 'd) \<times> (nat \<Rightarrow> 'd client) \<Rightarrow> (string \<Rightarrow> 'd) \<times> (nat \<Rightarrow> 'd client) \<Rightarrow> bool"
  for runs outside where
  client: "client_step runs D (m c) D' x \<Longrightarrow> server_step runs outside (D, m) (D', m(c := x))"
| change: "outside D D' \<Longrightarrow> server_step runs outside (D, m) (D', m)"

subsection \<open>What an Engine holds\<close>

text \<open>
  The contents behind the Engine's handles. \<open>disk\<close> is what is committed at each path, \<open>db_seen\<close>
  what an open database shows, \<open>tx_work\<close> what a transaction has made of what it began with,
  \<open>tx_seen\<close>.
\<close>

record ('w, 'db, 'tx, 'd) contents =
  disk :: "'w \<Rightarrow> string \<Rightarrow> 'd"
  db_place :: "'db \<Rightarrow> string"
  db_seen :: "'db \<Rightarrow> 'd"
  tx_place :: "'tx \<Rightarrow> string"
  tx_seen :: "'tx \<Rightarrow> 'd"
  tx_work :: "'tx \<Rightarrow> 'd"

definition fresh_or :: "('w, 'db, 'tx, 'd) contents \<Rightarrow> 'w \<Rightarrow> string \<Rightarrow> 'd \<Rightarrow> 'd \<Rightarrow> bool" where
  "fresh_or M w p v x = (x = v \<or> x = disk M w p)"

text \<open>
  What the daemon relies on of \<open>nostdb-core\<close>: nothing but a successful commit changes what is
  committed, and it commits what the transaction worked on, at its own path. A refused commit and
  a rollback leave the last valid content. What a statement does to the work is \<open>runs\<close>, which is
  left to the Engine.
\<close>

definition keeps_disk ::
  "('w, 'db, 'tx, 'd) contents \<Rightarrow> ('w, 'db, 'tx, 'q, 'r, 's) engine \<Rightarrow> bool" where
  "keeps_disk M E =
    ((\<forall>p w. disk M (snd (read_file E p w)) = disk M w) \<and>
     (\<forall>p w. disk M (snd (db_open E p w)) = disk M w) \<and>
     (\<forall>db w. disk M (db_drop E db w) = disk M w) \<and>
     (\<forall>db w. disk M (snd (tx_begin E db w)) = disk M w) \<and>
     (\<forall>q n tx w. disk M (snd (snd (tx_run E q n tx w))) = disk M w) \<and>
     (\<forall>tx w. disk M (snd (tx_rollback E tx w)) = disk M w) \<and>
     (\<forall>tx msg db w w'. tx_commit E tx w = (Inl msg, db, w') \<longrightarrow> disk M w' = disk M w))"

definition transactional ::
  "('w, 'db, 'tx, 'd) contents \<Rightarrow> ('q \<Rightarrow> 'd \<Rightarrow> query_error + 'r \<Rightarrow> 'd \<Rightarrow> bool) \<Rightarrow>
   ('w, 'db, 'tx, 'q, 'r, 's) engine \<Rightarrow> bool" where
  "transactional M runs E =
    (keeps_disk M E \<and>
     (\<forall>p w db w'. db_open E p w = (Inr db, w') \<longrightarrow> db_place M db = p \<and> db_seen M db = disk M w p) \<and>
     (\<forall>db w tx w'. tx_begin E db w = (Inr tx, w') \<longrightarrow>
        tx_place M tx = db_place M db \<and> tx_work M tx = tx_seen M tx \<and>
        fresh_or M w (db_place M db) (db_seen M db) (tx_seen M tx)) \<and>
     (\<forall>db w msg db' w'. tx_begin E db w = (Inl (msg, db'), w') \<longrightarrow>
        db_place M db' = db_place M db \<and> fresh_or M w (db_place M db) (db_seen M db) (db_seen M db')) \<and>
     (\<forall>q n tx w res tx' w'. tx_run E q n tx w = (res, tx', w') \<longrightarrow>
        tx_place M tx' = tx_place M tx \<and> tx_seen M tx' = tx_seen M tx \<and>
        runs q (tx_work M tx) res (tx_work M tx')) \<and>
     (\<forall>tx w g db w'. tx_commit E tx w = (Inr g, db, w') \<longrightarrow>
        disk M w' = (disk M w)(tx_place M tx := tx_work M tx) \<and>
        db_place M db = tx_place M tx \<and> db_seen M db = tx_work M tx) \<and>
     (\<forall>tx w msg db w'. tx_commit E tx w = (Inl msg, db, w') \<longrightarrow>
        db_place M db = tx_place M tx \<and> fresh_or M w (tx_place M tx) (tx_seen M tx) (db_seen M db)) \<and>
     (\<forall>tx w db w'. tx_rollback E tx w = (db, w') \<longrightarrow>
        db_place M db = tx_place M tx \<and> fresh_or M w (tx_place M tx) (tx_seen M tx) (db_seen M db)))"

text \<open>The client that a connection stands for.\<close>

definition db_client :: "('w, 'db, 'tx, 'd) contents \<Rightarrow> 'db \<Rightarrow> 'd client" where
  "db_client M db = Opened (db_place M db) (db_seen M db)"

definition tx_client :: "('w, 'db, 'tx, 'd) contents \<Rightarrow> 'tx \<Rightarrow> 'd client" where
  "tx_client M tx = Working (tx_place M tx) (tx_seen M tx) (tx_work M tx)"

fun conn_client :: "('w, 'db, 'tx, 'd) contents \<Rightarrow> ('db, 'tx) conn option \<Rightarrow> 'd client" where
  "conn_client M (Some (Talking v (Outside sl))) =
     (case slot_session sl of None \<Rightarrow> Unopened | Some s \<Rightarrow> db_client M (sess_database s))"
| "conn_client M (Some (Talking v (Inside sl base held tx))) = tx_client M tx"
| "conn_client M _ = Unopened"

definition outside_changes :: "('w, 'db, 'tx, 'd) contents \<Rightarrow> ('w \<Rightarrow> 'w \<Rightarrow> bool) \<Rightarrow>
    (string \<Rightarrow> 'd) \<Rightarrow> (string \<Rightarrow> 'd) \<Rightarrow> bool" where
  "outside_changes M others D D' = (\<exists>u u'. others u u' \<and> D = disk M u \<and> D' = disk M u')"

end
