(* ===== verification/ServerRefine.thy ===== *)
theory ServerRefine
  imports Server
begin

section \<open>Engine calls as steps of the specification\<close>

text \<open>
  What one call of the Engine is for the transactional server: a few steps of its client, \<open>moves\<close>.
  With the client for the locale's three predicates, \<open>engine_protocol\<close> carries this through
  everything a connection does (\<open>noted_protocol\<close> in \<open>Threads\<close>).
\<close>

definition moves ::
  "('w, 'db, 'tx, 'd) contents \<Rightarrow> ('q \<Rightarrow> 'd \<Rightarrow> query_error + 'r \<Rightarrow> 'd \<Rightarrow> bool) \<Rightarrow>
   'w \<Rightarrow> 'd client \<Rightarrow> 'w \<Rightarrow> 'd client \<Rightarrow> bool" where
  "moves M runs w x w' y =
     (\<lambda>(D, x) (D', y). client_step runs D x D' y)\<^sup>*\<^sup>* (disk M w, x) (disk M w', y)"

lemma moves_same: "disk M w' = disk M w \<Longrightarrow> moves M runs w x w' x"
  by (simp add: moves_def)

lemma moves_step: "client_step runs (disk M w) x (disk M w') y \<Longrightarrow> moves M runs w x w' y"
  by (simp add: moves_def r_into_rtranclp)

lemma moves_trans: "moves M runs w x w' y \<Longrightarrow> moves M runs w' y w'' z \<Longrightarrow> moves M runs w x w'' z"
  unfolding moves_def by (rule rtranclp_trans)

lemma moves_fresh: "fresh_or M w p v v' \<Longrightarrow> moves M runs w (Opened p v) w (Opened p v')"
  by (auto simp: fresh_or_def intro: moves_same moves_step client_step.rereads)

lemma moves_server:
  assumes "moves M runs w x w' y"
  shows "(server_step runs outside)\<^sup>*\<^sup>* (disk M w, m(c := x)) (disk M w', m(c := y))"
proof -
  have "(server_step runs outside)\<^sup>*\<^sup>* (D, m(c := x)) (D', m(c := y))"
    if "(\<lambda>(D, x) (D', y). client_step runs D x D' y)\<^sup>*\<^sup>* (D, x) (D', y)" for D D'
    using that
  proof (induction rule: rtranclp_induct2)
    case (step D1 x1 D2 x2)
    from step.hyps(2) have "server_step runs outside (D1, m(c := x1)) (D2, (m(c := x1))(c := x2))"
      by (intro server_step.client) simp
    then have "server_step runs outside (D1, m(c := x1)) (D2, m(c := x2))" by (simp only: fun_upd_upd)
    with step.IH show ?case by (rule rtranclp.rtrancl_into_rtrancl)
  qed simp
  from this [OF assms [unfolded moves_def]] show ?thesis .
qed

subsection \<open>The laws of the Engine as moves\<close>

lemma open_moves:
  assumes "transactional M runs E" "db_open E p w = (Inr db, w')"
  shows "moves M runs w Unopened w' (db_client M db)"
proof -
  have "disk M w' = disk M w" "db_client M db = Opened p (disk M w p)"
    using assms unfolding transactional_def keeps_disk_def db_client_def by (metis snd_conv)+
  then show ?thesis by (simp add: moves_step client_step.opens)
qed

lemma begin_moves:
  assumes "transactional M runs E" "tx_begin E db w = (Inr tx, w')"
  shows "moves M runs w (db_client M db) w' (tx_client M tx)"
proof -
  have law: "disk M w' = disk M w" "tx_place M tx = db_place M db" "tx_work M tx = tx_seen M tx"
    "fresh_or M w (db_place M db) (db_seen M db) (tx_seen M tx)"
    using assms unfolding transactional_def keeps_disk_def by (metis snd_conv)+
  have "client_step runs (disk M w) (Opened (db_place M db) (tx_seen M tx)) (disk M w') (tx_client M tx)"
    by (simp add: tx_client_def law client_step.begins)
  from moves_trans [OF moves_fresh [OF law(4)] moves_step [OF this]]
  show ?thesis by (simp add: db_client_def)
qed

lemma begin_fails_moves:
  assumes "transactional M runs E" "tx_begin E db w = (Inl (msg, db'), w')"
  shows "moves M runs w (db_client M db) w' (db_client M db')"
proof -
  have law: "disk M w' = disk M w" "db_place M db' = db_place M db"
    "fresh_or M w (db_place M db) (db_seen M db) (db_seen M db')"
    using assms unfolding transactional_def keeps_disk_def by (metis snd_conv)+
  from moves_trans [OF moves_fresh [OF law(3)] moves_same [OF law(1)]]
  show ?thesis by (simp add: db_client_def law)
qed

lemma run_moves:
  assumes "transactional M runs E" "tx_run E q n tx w = (res, tx', w')"
  shows "moves M runs w (tx_client M tx) w' (tx_client M tx')"
proof -
  have law: "disk M w' = disk M w" "tx_place M tx' = tx_place M tx" "tx_seen M tx' = tx_seen M tx"
    "runs q (tx_work M tx) res (tx_work M tx')"
    using assms unfolding transactional_def keeps_disk_def by (metis snd_conv)+
  then have "client_step runs (disk M w) (tx_client M tx) (disk M w') (tx_client M tx')"
    by (simp add: tx_client_def client_step.executes)
  then show ?thesis by (rule moves_step)
qed

lemma aborted_moves:
  assumes "disk M w' = disk M w" "db_place M db = tx_place M tx"
    "fresh_or M w (tx_place M tx) (tx_seen M tx) (db_seen M db)"
  shows "moves M runs w (tx_client M tx) w' (db_client M db)"
proof -
  have "client_step runs (disk M w) (tx_client M tx) (disk M w) (Opened (tx_place M tx) (tx_seen M tx))"
    by (simp add: tx_client_def client_step.aborts)
  from moves_trans [OF moves_step [OF this] moves_trans [OF moves_fresh [OF assms(3)] moves_same [OF assms(1)]]]
  show ?thesis by (simp add: db_client_def assms(2))
qed

lemma rollback_moves:
  assumes "transactional M runs E" "tx_rollback E tx w = (db, w')"
  shows "moves M runs w (tx_client M tx) w' (db_client M db)"
  using assms unfolding transactional_def keeps_disk_def by (intro aborted_moves) (metis snd_conv)+

lemma commit_moves:
  assumes "transactional M runs E" "tx_commit E tx w = (g, db, w')"
  shows "moves M runs w (tx_client M tx) w' (db_client M db)"
proof (cases g)
  case (Inl msg)
  with assms show ?thesis
    unfolding transactional_def keeps_disk_def by (intro aborted_moves) metis+
next
  case (Inr n)
  with assms have "disk M w' = (disk M w)(tx_place M tx := tx_work M tx)" "db_place M db = tx_place M tx"
    "db_seen M db = tx_work M tx"
    unfolding transactional_def by metis+
  then show ?thesis by (simp add: db_client_def tx_client_def moves_step client_step.commits)
qed

lemma quiet_moves:
  assumes "keeps_disk M E"
  shows "read_file E p w = (r, w') \<Longrightarrow> moves M runs w x w' x"
    "db_open E p w = (Inl msg, w') \<Longrightarrow> moves M runs w x w' x"
    "moves M runs w (db_client M db) (db_drop E db w) Unopened"
proof -
  show "moves M runs w x w' x" if "read_file E p w = (r, w')"
    using assms that unfolding keeps_disk_def by (intro moves_same) (metis snd_conv)
  show "moves M runs w x w' x" if "db_open E p w = (Inl msg, w')"
    using assms that unfolding keeps_disk_def by (intro moves_same) (metis snd_conv)
  have "disk M (db_drop E db w) = disk M w" using assms by (simp add: keeps_disk_def)
  then show "moves M runs w (db_client M db) (db_drop E db w) Unopened"
    by (intro moves_step) (simp add: db_client_def client_step.closes)
qed

subsection \<open>Into and out of the locale\<close>

text \<open>The invariant of a connection in one equation, to enter and to leave the locale by.\<close>

context engine_protocol
begin

lemma conn_inv_cases:
  "conn_inv cn w = (case cn of
     Greeting \<Rightarrow> vacant w
   | Talking v (Outside sl) \<Rightarrow>
      (case slot_session sl of None \<Rightarrow> vacant w | Some s \<Rightarrow> idle (sess_database s) w)
   | Talking v (Inside sl base held tx) \<Rightarrow> busy tx w \<and> slot_session sl \<noteq> None)"
  by (auto simp: slot_inv_def split: conn.split mode.split)

end

lemmas conn_cases = conn.splits mode.splits option.splits sum.splits

end
