(* ===== verification/Threads.thy ===== *)
theory Threads
  imports ServerRefine
begin

section \<open>The threads of the daemon, call by call\<close>

text \<open>
  \<open>Host\<close> lets one thread handle an arrival in one step and leaves what the others do meanwhile to a
  relation. Here every call that a thread makes of the Engine is a step of its own, and the steps
  of all threads come in any order: \<open>accept_until_shutdown\<close> of \<open>src/lib.rs\<close> with its spawned threads
  as the processor runs them.

  Between two calls a thread computes alone. What it will do with an arrival is therefore fixed by
  the worlds its calls will find, and \<open>receive\<close> chooses them in advance: the thread then holds its
  calls, each with the world it must find and the one it leaves, and \<open>call\<close> performs the next one
  when the shared world is that. A choice the other threads do not meet stays where it is.
\<close>

type_synonym 'w notebook = "bool \<times> 'w list \<times> ('w \<times> 'w) list"

text \<open>The Engine on a script of worlds, with a note of what each call found and left.\<close>

definition upcoming :: "'w \<Rightarrow> 'w notebook \<Rightarrow> 'w" where
  "upcoming d n = (case n of (b, ws, tr) \<Rightarrow> next_world d ws)"

definition note_call :: "'w notebook \<Rightarrow> 'w \<Rightarrow> 'w \<Rightarrow> 'w notebook" where
  "note_call n u u' = (case n of (b, ws, tr) \<Rightarrow> (b \<and> ws \<noteq> [], tl ws, tr @ [(u, u')]))"

definition noted ::
  "'w \<Rightarrow> ('w, 'db, 'tx, 'q, 'r, 's) engine \<Rightarrow> ('w notebook, 'db, 'tx, 'q, 'r, 's) engine" where
  "noted d E = \<lparr>
     read_file = (\<lambda>p n. let u = upcoming d n; (r, u') = read_file E p u in (r, note_call n u u')),
     db_open = (\<lambda>p n. let u = upcoming d n; (r, u') = db_open E p u in (r, note_call n u u')),
     db_drop = (\<lambda>db n. let u = upcoming d n in note_call n u (db_drop E db u)),
     cypher_parse = cypher_parse E,
     tx_begin = (\<lambda>db n. let u = upcoming d n; (r, u') = tx_begin E db u in (r, note_call n u u')),
     tx_base = tx_base E,
     tx_run = (\<lambda>q t tx n. let u = upcoming d n; (r, tx', u') = tx_run E q t tx u
       in (r, tx', note_call n u u')),
     tx_writes = tx_writes E,
     tx_commit = (\<lambda>tx n. let u = upcoming d n; (r, db, u') = tx_commit E tx u
       in (r, db, note_call n u u')),
     tx_rollback = (\<lambda>tx n. let u = upcoming d n; (db, u') = tx_rollback E tx u
       in (db, note_call n u u')),
     writes_empty = writes_empty E,
     row_count = row_count E,
     envelope_json = envelope_json E\<rparr>"

subsection \<open>The machine\<close>

datatype ('w, 'db, 'tx) line =
    Waiting "('db, 'tx) conn"
  | Handling "('db, 'tx) conn" arrival "('w \<times> 'w) list" "ended + ('db, 'tx) conn"

record ('w, 'db, 'tx) crowd =
  gate :: accept_state
  lines :: "nat \<Rightarrow> ('w, 'db, 'tx) line option"
  shared :: 'w

definition crowd_start :: "'w \<Rightarrow> ('w, 'db, 'tx) crowd" where
  "crowd_start w = \<lparr>gate = accept_start, lines = (\<lambda>_. None), shared = w\<rparr>"

definition line_up :: "nat set \<Rightarrow> (nat \<Rightarrow> ('w, 'db, 'tx) line option) \<Rightarrow> nat \<Rightarrow> ('w, 'db, 'tx) line option" where
  "line_up new ls = (\<lambda>c. if c \<in> new then Some (Waiting Greeting) else ls c)"

inductive crowd_step ::
  "textlib \<Rightarrow> ('w, 'db, 'tx, 'q, 'r, 's) engine \<Rightarrow> 'w \<Rightarrow> ('w \<Rightarrow> 'w \<Rightarrow> bool) \<Rightarrow> limits \<Rightarrow> string \<Rightarrow> string \<Rightarrow>
   bool \<Rightarrow> ('w, 'db, 'tx) crowd \<Rightarrow> ('w, 'db, 'tx) crowd \<Rightarrow> bool"
  for H E d others lim cp ep lossy where
  accept: "accept_step lossy (gate s) g \<Longrightarrow> serving (gate s) \<subseteq> serving g \<Longrightarrow>
    crowd_step H E d others lim cp ep lossy s
      (s\<lparr>gate := g, lines := line_up (serving g - serving (gate s)) (lines s)\<rparr>)"
| receive: "lines s c = Some (Waiting cn) \<Longrightarrow>
    conn_arrival H (noted d E) lim cp ep cn a (True, ws, []) = (r, replies, (True, [], tr)) \<Longrightarrow>
    crowd_step H E d others lim cp ep lossy s (s\<lparr>lines := (lines s)(c \<mapsto> Handling cn a tr r)\<rparr>)"
| call: "lines s c = Some (Handling cn a ((shared s, u) # tr) r) \<Longrightarrow>
    crowd_step H E d others lim cp ep lossy s
      (s\<lparr>lines := (lines s)(c \<mapsto> Handling cn a tr r), shared := u\<rparr>)"
| go_on: "lines s c = Some (Handling cn0 a [] (Inr cn)) \<Longrightarrow>
    crowd_step H E d others lim cp ep lossy s (s\<lparr>lines := (lines s)(c \<mapsto> Waiting cn)\<rparr>)"
| hang_up: "lines s c = Some (Handling cn0 a [] (Inl x)) \<Longrightarrow>
    crowd_step H E d others lim cp ep lossy s
      (s\<lparr>lines := (lines s)(c := None), gate := leave c x (gate s)\<rparr>)"
| elsewhere: "others (shared s) u \<Longrightarrow>
    crowd_step H E d others lim cp ep lossy s (s\<lparr>shared := u\<rparr>)"

inductive_cases crowd_stepE: "crowd_step H E d others lim cp ep lossy s s'"

abbreviation crowd_steps ::
  "textlib \<Rightarrow> ('w, 'db, 'tx, 'q, 'r, 's) engine \<Rightarrow> 'w \<Rightarrow> ('w \<Rightarrow> 'w \<Rightarrow> bool) \<Rightarrow> limits \<Rightarrow> string \<Rightarrow> string \<Rightarrow>
   bool \<Rightarrow> ('w, 'db, 'tx) crowd \<Rightarrow> ('w, 'db, 'tx) crowd \<Rightarrow> bool" where
  "crowd_steps H E d others lim cp ep lossy \<equiv> (crowd_step H E d others lim cp ep lossy)\<^sup>*\<^sup>*"

subsection \<open>What the calls of one arrival make of its client\<close>

fun path ::
  "('w, 'db, 'tx, 'd) contents \<Rightarrow> ('q \<Rightarrow> 'd \<Rightarrow> query_error + 'r \<Rightarrow> 'd \<Rightarrow> bool) \<Rightarrow>
   'd client \<Rightarrow> ('w \<times> 'w) list \<Rightarrow> 'd client \<Rightarrow> bool" where
  "path M runs x [] y = (x = y)"
| "path M runs x ((u, u') # tr) y = (\<exists>z. moves M runs u x u' z \<and> path M runs z tr y)"

lemma path_snoc: "path M runs x tr z \<Longrightarrow> moves M runs u z u' y \<Longrightarrow> path M runs x (tr @ [(u, u')]) y"
proof (induction tr arbitrary: x)
  case (Cons p tr)
  then show ?case by (cases p) fastforce
qed auto

definition comes_to ::
  "('w, 'db, 'tx, 'd) contents \<Rightarrow> ('q \<Rightarrow> 'd \<Rightarrow> query_error + 'r \<Rightarrow> 'd \<Rightarrow> bool) \<Rightarrow> 'd client \<Rightarrow> 'd client \<Rightarrow>
   'w notebook \<Rightarrow> bool" where
  "comes_to M runs x y n = path M runs x (snd (snd n)) y"

lemma comes_to_call:
  assumes "comes_to M runs x z n" "moves M runs u z u' y" "note_call n u u' = n'"
  shows "comes_to M runs x y n'"
  using path_snoc [OF assms(1) [unfolded comes_to_def] assms(2)] assms(3)
  by (auto simp: comes_to_def note_call_def split: prod.splits)

lemma noted_protocol:
  assumes "transactional M runs E"
  shows "engine_protocol (noted d E) (comes_to M runs x Unopened)
    (\<lambda>db. comes_to M runs x (db_client M db)) (\<lambda>tx. comes_to M runs x (tx_client M tx))"
proof -
  have "keeps_disk M E" using assms by (simp add: transactional_def)
  note moves = quiet_moves [OF this] open_moves [OF assms] begin_moves [OF assms] begin_fails_moves [OF assms]
    run_moves [OF assms] commit_moves [OF assms] rollback_moves [OF assms]
  show ?thesis
    by unfold_locales
      (auto simp: noted_def Let_def split: prod.splits intro: comes_to_call moves)
qed

subsection \<open>The threads implement the server\<close>

definition outcome_conn :: "ended + ('db, 'tx) conn \<Rightarrow> ('db, 'tx) conn option" where
  "outcome_conn r = (case r of Inl _ \<Rightarrow> None | Inr cn \<Rightarrow> Some cn)"

text \<open>A transaction lives in a session.\<close>

definition settled :: "('db, 'tx) conn option \<Rightarrow> bool" where
  "settled o1 = (\<forall>v sl base held tx. o1 = Some (Talking v (Inside sl base held tx)) \<longrightarrow> slot_session sl \<noteq> None)"

text \<open>The client that a thread stands for: in the middle of an arrival it is on the way to the outcome.\<close>

fun line_client ::
  "('w, 'db, 'tx, 'd) contents \<Rightarrow> ('q \<Rightarrow> 'd \<Rightarrow> query_error + 'r \<Rightarrow> 'd \<Rightarrow> bool) \<Rightarrow>
   ('w, 'db, 'tx) line option \<Rightarrow> 'd client \<Rightarrow> bool" where
  "line_client M runs None x = (x = Unopened)"
| "line_client M runs (Some (Waiting cn)) x = (x = conn_client M (Some cn) \<and> settled (Some cn))"
| "line_client M runs (Some (Handling cn a tr r)) x =
     (path M runs x tr (conn_client M (outcome_conn r)) \<and> settled (outcome_conn r))"

lemma line_client_cases:
  "line_client M runs l x \<Longrightarrow> (case l of
     None \<Rightarrow> x = Unopened
   | Some (Waiting cn) \<Rightarrow> x = conn_client M (Some cn)
   | Some (Handling cn a tr r) \<Rightarrow> path M runs x tr (conn_client M (outcome_conn r)))"
  by (induction M runs l x rule: line_client.induct) simp_all

lemma arrival_client:
  assumes "transactional M runs E" "settled (Some cn)"
    and run: "conn_arrival H (noted d E) lim cp ep cn a (True, ws, []) = (r, replies, (b, ws', tr))"
  shows "line_client M runs (Some (Handling cn a tr r)) (conn_client M (Some cn))"
proof -
  let ?x = "conn_client M (Some cn)"
  note ep = noted_protocol [OF assms(1), where d = d and x = ?x]
  have here: "comes_to M runs ?x ?x (True, ws, [])" by (simp add: comes_to_def)
  have "engine_protocol.conn_inv (comes_to M runs ?x Unopened) (\<lambda>db. comes_to M runs ?x (db_client M db))
      (\<lambda>tx. comes_to M runs ?x (tx_client M tx)) cn (True, ws, [])"
    using here assms(2)
    by (auto simp: engine_protocol.conn_inv_cases [OF ep] settled_def split: conn_cases)
  from engine_protocol.conn_arrival_inv [OF ep this run] show ?thesis
    by (auto simp: engine_protocol.conn_inv_cases [OF ep] comes_to_def outcome_conn_def settled_def
        split: conn_cases)
qed

definition crowd_clients ::
  "('w, 'db, 'tx, 'd) contents \<Rightarrow> ('q \<Rightarrow> 'd \<Rightarrow> query_error + 'r \<Rightarrow> 'd \<Rightarrow> bool) \<Rightarrow>
   ('w, 'db, 'tx) crowd \<Rightarrow> (nat \<Rightarrow> 'd client) \<Rightarrow> bool" where
  "crowd_clients M runs s m = (serving (gate s) = dom (lines s) \<and> (\<forall>c. line_client M runs (lines s c) (m c)))"

lemma crowd_step_refines:
  assumes "transactional M runs E" "crowd_step H E d others lim cp ep lossy s s'" "crowd_clients M runs s m"
  obtains m' where "(server_step runs (outside_changes M others))\<^sup>*\<^sup>* (disk M (shared s), m) (disk M (shared s'), m')"
    "crowd_clients M runs s' m'"
proof -
  note result = that
  have dom: "serving (gate s) = dom (lines s)" and at: "\<And>c. line_client M runs (lines s c) (m c)"
    using assms(3) by (simp_all add: crowd_clients_def)
  have quiet: thesis if "shared s' = shared s" "crowd_clients M runs s' m"
    using that(1) by (intro result [OF _ that(2)]) simp
  show thesis
    using assms(2)
  proof (cases rule: crowd_stepE [consumes 1, case_names accept receive call go_on hang_up elsewhere])
    case (accept g)
    have "line_client M runs (line_up (serving g - dom (lines s)) (lines s) c) (m c)" for c
      using at [of c] by (cases "lines s c") (auto simp: line_up_def settled_def)
    moreover have "serving g = dom (line_up (serving g - dom (lines s)) (lines s))"
      using accept(3) dom by (auto simp: line_up_def dom_def split: if_splits)
    ultimately show thesis
      by (intro quiet) (simp_all add: accept(1) crowd_clients_def dom)
  next
    case (receive c cn a ws r replies tr)
    have "line_client M runs (Some (Handling cn a tr r)) (m c)"
      using arrival_client [OF assms(1) _ receive(3)] at [of c] receive(2) by simp
    with at dom receive(2) show thesis
      by (intro quiet) (auto simp: receive(1) crowd_clients_def)
  next
    case (call c cn a u tr r)
    with at [of c] obtain z where z: "moves M runs (shared s) (m c) u z" "path M runs z tr (conn_client M (outcome_conn r))"
      "settled (outcome_conn r)" by auto
    have "crowd_clients M runs s' (m(c := z))"
      using at dom z(2,3) call(2) by (auto simp: call(1) crowd_clients_def)
    with moves_server [OF z(1), of "outside_changes M others" m c] show thesis
      by (intro result) (simp_all add: call(1))
  next
    case (go_on c cn0 a cn)
    with at [of c] have "line_client M runs (Some (Waiting cn)) (m c)" by (simp add: outcome_conn_def)
    with at dom go_on(2) show thesis
      by (intro quiet) (auto simp: go_on(1) crowd_clients_def)
  next
    case (hang_up c cn0 a x)
    with at [of c] have "m c = Unopened" by (simp add: outcome_conn_def)
    with at dom show thesis
      by (intro quiet) (auto simp: hang_up(1) crowd_clients_def)
  next
    case (elsewhere u)
    have "outside_changes M others (disk M (shared s)) (disk M u)"
      using elsewhere(2) by (auto simp: outside_changes_def)
    then have "server_step runs (outside_changes M others) (disk M (shared s), m) (disk M u, m)"
      by (rule server_step.change)
    with at dom show thesis
      by (intro result [of m]) (auto simp: elsewhere(1) crowd_clients_def)
  qed
qed

lemma crowd_steps_refine:
  assumes "transactional M runs E" "crowd_steps H E d others lim cp ep lossy (crowd_start w) s"
  obtains m where "(server_step runs (outside_changes M others))\<^sup>*\<^sup>* (disk M w, \<lambda>c. Unopened) (disk M (shared s), m)"
    "crowd_clients M runs s m"
proof -
  have "\<exists>m. (server_step runs (outside_changes M others))\<^sup>*\<^sup>* (disk M w, \<lambda>c. Unopened) (disk M (shared s), m) \<and>
      crowd_clients M runs s m"
    using assms(2)
  proof (induction rule: rtranclp_induct)
    case base
    show ?case
      by (intro exI [of _ "\<lambda>c. Unopened"])
        (auto simp: crowd_start_def crowd_clients_def accept_start_def serving_def)
  next
    case (step s1 s2)
    then obtain m1 where m1: "(server_step runs (outside_changes M others))\<^sup>*\<^sup>* (disk M w, \<lambda>c. Unopened) (disk M (shared s1), m1)"
      "crowd_clients M runs s1 m1" by blast
    obtain m2 where "(server_step runs (outside_changes M others))\<^sup>*\<^sup>* (disk M (shared s1), m1) (disk M (shared s2), m2)"
      "crowd_clients M runs s2 m2"
      by (rule crowd_step_refines [OF assms(1) step.hyps(2) m1(2)])
    with m1(1) show ?case by (meson rtranclp_trans)
  qed
  with that show thesis by blast
qed

end
