(* ===== verification/ThreadHost.thy ===== *)
theory ThreadHost
  imports Threads
begin

section \<open>The threads are a daemon of \<open>Host\<close>\<close>

text \<open>
  A daemon whose threads run call by call is a daemon of \<open>Host\<close> in which the others may do anything
  between two calls of a thread: \<open>Host\<close> serves an arrival when the thread here is done with it. So
  what is proved of \<open>Host\<close> without a condition on the others holds of every interleaving of the
  calls.
\<close>

definition after_notes :: "'w \<Rightarrow> 'w notebook \<Rightarrow> 'w view" where
  "after_notes w0 n = (case n of (b, ws, tr) \<Rightarrow> (True, if tr = [] then w0 else snd (last tr), ws))"

interpretation notes_sim: engine_sim "noted d E" "seen (\<lambda>_ _. True) E" "after_notes w0" "\<lambda>(b, ws, tr). b"
  for d and E :: "('w, 'db, 'tx, 'q, 'r, 's) engine" and w0
  by unfold_locales
    (auto simp: noted_def seen_def find_def upcoming_def next_world_def note_call_def after_notes_def Let_def
      split: prod.splits list.splits)

text \<open>What a thread does with an arrival, in \<open>Host\<close>.\<close>

lemma noted_arrival:
  assumes "conn_arrival H (noted d E) lim cp ep cn a (True, ws, []) = (r, replies, (True, [], tr))"
  obtains w log where "conn_arrival H (traced (seen (\<lambda>_ _. True) E)) lim cp ep cn a ((True, w0, ws), log0) =
    (r, replies, (True, w, []), log)"
proof -
  have plain: "conn_arrival H (seen (\<lambda>_ _. True) E) lim cp ep cn a (True, w0, ws) =
      (r, replies, after_notes w0 (True, [], tr))"
    using notes_sim.conn_arrival_sim [OF assms, of w0] by (simp add: after_notes_def)
  obtain r1 replies1 v1 log where run: "conn_arrival H (traced (seen (\<lambda>_ _. True) E)) lim cp ep cn a ((True, w0, ws), log0) =
      (r1, replies1, v1, log)" by (metis prod.collapse)
  from untrace.conn_arrival_sim [OF run] plain have "r1 = r" "replies1 = replies" "v1 = after_notes w0 (True, [], tr)"
    by simp_all
  with run show thesis by (intro that) (simp add: after_notes_def)
qed

text \<open>How far \<open>Host\<close> is with a connection.\<close>

fun line_conn ::
  "textlib \<Rightarrow> ('w, 'db, 'tx, 'q, 'r, 's) engine \<Rightarrow> 'w \<Rightarrow> limits \<Rightarrow> string \<Rightarrow> string \<Rightarrow>
   ('w, 'db, 'tx) line option \<Rightarrow> ('db, 'tx) conn option \<Rightarrow> bool" where
  "line_conn H E d lim cp ep None o1 = (o1 = None)"
| "line_conn H E d lim cp ep (Some (Waiting cn)) o1 = (o1 = Some cn)"
| "line_conn H E d lim cp ep (Some (Handling cn a tr r)) o1 = (\<exists>ws replies tr'. o1 = Some cn \<and>
     conn_arrival H (noted d E) lim cp ep cn a (True, ws, []) = (r, replies, (True, [], tr')))"

definition host_of ::
  "textlib \<Rightarrow> ('w, 'db, 'tx, 'q, 'r, 's) engine \<Rightarrow> 'w \<Rightarrow> limits \<Rightarrow> string \<Rightarrow> string \<Rightarrow>
   ('w, 'db, 'tx) crowd \<Rightarrow> ('w, 'db, 'tx) host \<Rightarrow> bool" where
  "host_of H E d lim cp ep s h = (door h = gate s \<and> (\<forall>c. line_conn H E d lim cp ep (lines s c) (conns h c)))"

lemma line_conn_dom: "line_conn H E d lim cp ep l o1 \<Longrightarrow> (l = None) = (o1 = None)"
  by (cases "(H, E, d, lim, cp, ep, l, o1)" rule: line_conn.cases) auto

lemma crowd_step_hosts:
  assumes "crowd_step H E d others lim cp ep lossy s s'" "host_of H E d lim cp ep s h"
  obtains h' where "host_steps H E (\<lambda>_ _. True) lim cp ep lossy h h'" "host_of H E d lim cp ep s' h'"
proof -
  note result = that
  have door: "door h = gate s" and at: "\<And>c. line_conn H E d lim cp ep (lines s c) (conns h c)"
    using assms(2) by (simp_all add: host_of_def)
  have quiet: thesis if "host_of H E d lim cp ep s' h"
    by (rule result [OF rtranclp.rtrancl_refl that])
  have serve: thesis if line: "lines s c = Some (Handling cn a [] r)"
    and after: "gate s' = (case r of Inl x \<Rightarrow> leave c x (gate s) | Inr _ \<Rightarrow> gate s)"
      "lines s' = (lines s)(c := (case r of Inl _ \<Rightarrow> None | Inr cn \<Rightarrow> Some (Waiting cn)))" for c cn a r
  proof -
    from at [of c] line obtain ws replies tr' where cn: "conns h c = Some cn"
      and run: "conn_arrival H (noted d E) lim cp ep cn a (True, ws, []) = (r, replies, (True, [], tr'))" by auto
    obtain w log where "conn_arrival H (traced (seen (\<lambda>_ _. True) E)) lim cp ep cn a ((True, world h, ws), calls h c) =
        (r, replies, (True, w, []), log)"
      by (rule noted_arrival [OF run])
    from host_step.serve [OF cn this]
    have step: "host_step H E (\<lambda>_ _. True) lim cp ep lossy h (after_arrival c a r replies w log h)" .
    have "conns (after_arrival c a r replies w log h) = (conns h)(c := (case r of Inl _ \<Rightarrow> None | Inr cn \<Rightarrow> Some cn))"
      by (simp add: after_arrival_def)
    then have "host_of H E d lim cp ep s' (after_arrival c a r replies w log h)"
      using after door at by (auto simp: host_of_def split: sum.split)
    with step show thesis by (intro result) auto
  qed
  show thesis
    using assms(1)
  proof (cases rule: crowd_stepE [consumes 1, case_names accept receive call go_on hang_up elsewhere])
    case (accept g)
    let ?new = "serving g - serving (gate s)"
    have "host_step H E (\<lambda>_ _. True) lim cp ep lossy h (h\<lparr>door := g, conns := admit ?new (conns h)\<rparr>)"
      using host_step.accept [of lossy h g] accept(2,3) door by simp
    moreover have "host_of H E d lim cp ep s' (h\<lparr>door := g, conns := admit ?new (conns h)\<rparr>)"
      using at by (simp add: accept(1) host_of_def line_up_def admit_def)
    ultimately show thesis by (intro result) auto
  next
    case (receive c cn a ws r replies tr)
    have "line_conn H E d lim cp ep (Some (Handling cn a tr r)) (conns h c)"
      using at [of c] receive(2,3) by auto
    with at door show thesis
      by (intro quiet) (auto simp: receive(1) host_of_def simp del: line_conn.simps(3))
  next
    case (call c cn a u tr r)
    have "line_conn H E d lim cp ep (Some (Handling cn a tr r)) (conns h c)"
      using at [of c] call(2) by auto
    with at door show thesis
      by (intro quiet) (auto simp: call(1) host_of_def simp del: line_conn.simps(3))
  next
    case (go_on c cn0 a cn)
    then show thesis by (intro serve [OF go_on(2)]) simp_all
  next
    case (hang_up c cn0 a x)
    then show thesis by (intro serve [OF hang_up(2)]) simp_all
  next
    case (elsewhere u)
    with at door show thesis by (intro quiet) (simp add: host_of_def)
  qed
qed

lemma crowd_steps_host:
  assumes "crowd_steps H E d others lim cp ep lossy (crowd_start w) s"
  shows "\<exists>h. host_steps H E (\<lambda>_ _. True) lim cp ep lossy (host_start w) h \<and> host_of H E d lim cp ep s h"
  using assms
proof (induction rule: rtranclp_induct)
  case base
  show ?case
    by (intro exI [of _ "host_start w"]) (auto simp: host_of_def crowd_start_def host_start_def)
next
  case (step s1 s2)
  then obtain h1 where h1: "host_steps H E (\<lambda>_ _. True) lim cp ep lossy (host_start w) h1"
    "host_of H E d lim cp ep s1 h1" by blast
  obtain h2 where "host_steps H E (\<lambda>_ _. True) lim cp ep lossy h1 h2" "host_of H E d lim cp ep s2 h2"
    by (rule crowd_step_hosts [OF step.hyps(2) h1(2)])
  with h1(1) show ?case by (meson rtranclp_trans)
qed

end
