(* ===== verification/Quiet.thy ===== *)
theory Quiet
  imports ConnLife
begin

section \<open>What does not commit\<close>

text \<open>
  The arrivals that may commit: a \<open>commit\<close> in a transaction region and a query outside one. The
  locale \<open>quiet_engine\<close> is any property of the world that every call of the Engine keeps, except a
  commit; its lemmas keep it through every other arrival of a connection, hang-ups, failed replies
  and shutdowns included. It is interpreted on \<open>traced\<close>, for \<open>no successful commit in the log\<close>.
\<close>

fun may_commit :: "textlib \<Rightarrow> ('db, 'tx) conn \<Rightarrow> arrival \<Rightarrow> bool" where
  "may_commit H (Talking v (Outside sl)) (Body body) =
     (case decode_request H body {} of Inl r \<Rightarrow> False | Inr req \<Rightarrow> req_operation req = Query)"
| "may_commit H (Talking v (Inside sl base held tx)) (Body body) =
     (case decode_request H body held of Inl r \<Rightarrow> False | Inr req \<Rightarrow> req_operation req = Commit)"
| "may_commit H cn a = False"

locale quiet_engine =
  fixes E :: "('w, 'db, 'tx, 'q, 'r, 's) engine"
    and calm :: "'w \<Rightarrow> bool"
  assumes calm_read: "calm w \<Longrightarrow> read_file E p w = (r, w') \<Longrightarrow> calm w'"
    and calm_open: "calm w \<Longrightarrow> db_open E p w = (o1, w') \<Longrightarrow> calm w'"
    and calm_drop: "calm w \<Longrightarrow> calm (db_drop E db w)"
    and calm_begin: "calm w \<Longrightarrow> tx_begin E db w = (b, w') \<Longrightarrow> calm w'"
    and calm_run: "calm w \<Longrightarrow> tx_run E q t tx w = (res, tx', w') \<Longrightarrow> calm w'"
    and calm_rollback: "calm w \<Longrightarrow> tx_rollback E tx w = (db, w') \<Longrightarrow> calm w'"
begin

lemma slot_open_calm: "calm w \<Longrightarrow> slot_open E name c sl w = (r, sl', w') \<Longrightarrow> calm w'"
  by (auto simp: slot_open_def Let_def split: option.splits prod.splits sum.splits dest: calm_open)

lemma slot_close_calm: "calm w \<Longrightarrow> slot_close E sl w = (b, sl', w') \<Longrightarrow> calm w'"
  by (auto simp: slot_close_def calm_drop split: option.splits)

lemma slot_drop_calm: "calm w \<Longrightarrow> calm (slot_drop E sl w)"
  using slot_close_calm by (simp add: slot_drop_def) (metis prod.collapse)

lemma hangup_calm: "calm w \<Longrightarrow> calm (hangup E m w)"
  by (cases m) (auto split: prod.split intro: slot_drop_calm calm_rollback)

lemma checked_calm: "calm w \<Longrightarrow> checked H E lim m x w = (r, y, w') \<Longrightarrow> calm w'"
  by (auto simp: checked_def hangup_calm split: if_splits)

lemma dispatch_open_calm:
  assumes "calm w" "dispatch_open H E cp v req sl w = (y, sl', w')"
  shows "calm w'"
  using assms
  by (auto simp: dispatch_open_def Let_def split: option.splits sum.splits prod.splits open_error.splits
      dest: calm_read slot_open_calm)

lemma dispatch_calm:
  assumes "calm w" "dispatch H E lim cp ep v req sl w = (y, sl', w')" "req_operation req \<noteq> Query"
  shows "calm w'"
  using assms
  by (cases "req_operation req")
    (auto simp: dispatch.simps Let_def split: sum.splits prod.splits dest: dispatch_open_calm slot_close_calm)

lemma begin_step_calm:
  assumes "calm w" "begin_step H E lim v req sl w = (r, x, w')"
  shows "calm w'"
  using assms
  by (auto simp: begin_step_def split: sum.splits prod.splits dest: calm_begin checked_calm)

lemma outside_step_calm:
  assumes "calm w" "outside_step H E lim cp ep v req sl w = (r, x, w')" "req_operation req \<noteq> Query"
  shows "calm w'"
  using assms
  by (auto simp: outside_step_def split: prod.splits reply.splits
      dest: dispatch_calm checked_calm begin_step_calm intro: slot_drop_calm)

lemma inside_step_calm:
  assumes "calm w" "inside_step H E lim v req sl base held tx w = (r, x, w')" "req_operation req \<noteq> Commit"
  shows "calm w'"
  using assms
  by (cases "req_operation req")
    (auto simp: inside_step_def region_request_def region_query_def Let_def
      split: prod.splits option.splits sum.splits dest: calm_run calm_rollback checked_calm)

lemma conn_arrival_calm:
  assumes "calm w" "\<not> may_commit H cn a" "conn_arrival H E lim cp ep cn a w = (r, replies, w')"
  shows "calm w'"
proof (cases cn)
  case Greeting
  with assms show ?thesis by (cases a) (auto split: sum.splits if_splits)
next
  case (Talking v m)
  show ?thesis
  proof (cases a)
    case (Body body)
    with assms Talking show ?thesis
      by (cases m)
        (auto split: prod.splits verdict.splits sum.splits dest: outside_step_calm inside_step_calm checked_calm)
  qed (use assms Talking hangup_calm in auto)
qed

end

interpretation qu: quiet_engine "traced E" "\<lambda>(w, log). Committed \<notin> set log"
  for E :: "('w, 'db, 'tx, 'q, 'r, 's) engine"
  by unfold_locales (auto simp: traced_def Let_def split: prod.splits sum.splits)

end
