(* ===== verification/ThreadQuiet.thy ===== *)
theory ThreadQuiet
  imports Threads Quiet
begin

section \<open>Who changes the disk\<close>

text \<open>
  \<open>quiet_engine\<close> for the Engine of a thread, with its notes: an arrival that may not commit makes
  calls that leave the disk alone.
\<close>

definition quiet_calls :: "('w, 'db, 'tx, 'd) contents \<Rightarrow> ('w \<times> 'w) list \<Rightarrow> bool" where
  "quiet_calls M tr = (\<forall>(u, u') \<in> set tr. disk M u' = disk M u)"

lemma quiet_note_call:
  "quiet_calls M (snd (snd (note_call n u u'))) \<longleftrightarrow> quiet_calls M (snd (snd n)) \<and> disk M u' = disk M u"
  by (auto simp: quiet_calls_def note_call_def split: prod.splits)

lemma quiet_noted_call:
  "quiet_calls M tr \<Longrightarrow> note_call (b, ws, tr) u u' = (b', ws', tr') \<Longrightarrow> disk M u' = disk M u \<Longrightarrow> quiet_calls M tr'"
  using quiet_note_call [of M "(b, ws, tr)" u u'] by simp

lemma keeps_diskD:
  assumes "keeps_disk M E"
  shows "read_file E p w = (r, w') \<Longrightarrow> disk M w' = disk M w"
    "db_open E p w = (r1, w') \<Longrightarrow> disk M w' = disk M w"
    "disk M (db_drop E db w) = disk M w"
    "tx_begin E db w = (r2, w') \<Longrightarrow> disk M w' = disk M w"
    "tx_run E q n tx w = (r3, tx', w') \<Longrightarrow> disk M w' = disk M w"
    "tx_rollback E tx w = (db', w') \<Longrightarrow> disk M w' = disk M w"
  using assms unfolding keeps_disk_def by (metis snd_conv)+

lemma noted_quiet:
  assumes "keeps_disk M E"
  shows "quiet_engine (noted d E) (\<lambda>n. quiet_calls M (snd (snd n)))"
proof -
  note keeps = keeps_diskD [OF assms]
  show ?thesis
    by unfold_locales
      (auto simp: noted_def Let_def quiet_note_call keeps(3) split: prod.splits
        elim!: quiet_noted_call intro: keeps)
qed

definition quiet_line :: "textlib \<Rightarrow> ('w, 'db, 'tx, 'd) contents \<Rightarrow> ('w, 'db, 'tx) line option \<Rightarrow> bool" where
  "quiet_line H M l = (\<forall>cn a tr r. l = Some (Handling cn a tr r) \<longrightarrow> \<not> may_commit H cn a \<longrightarrow> quiet_calls M tr)"

lemma quiet_step:
  assumes "keeps_disk M E" "crowd_step H E d others lim cp ep lossy s s'" "\<forall>c. quiet_line H M (lines s c)"
  shows "\<forall>c. quiet_line H M (lines s' c)"
  using assms(2)
proof (cases rule: crowd_stepE [consumes 1, case_names accept receive call go_on hang_up elsewhere])
  case (receive c cn a ws r replies tr)
  have "quiet_calls M tr" if "\<not> may_commit H cn a"
    using quiet_engine.conn_arrival_calm [OF noted_quiet [OF assms(1)] _ that receive(3)]
    by (simp add: quiet_calls_def)
  with assms(3) show ?thesis by (simp add: receive(1) quiet_line_def)
next
  case (call c cn a u tr r)
  with assms(3) have "quiet_line H M (Some (Handling cn a ((shared s, u) # tr) r))" by metis
  then have "quiet_line H M (Some (Handling cn a tr r))" by (auto simp: quiet_line_def quiet_calls_def)
  with assms(3) show ?thesis by (simp add: call(1))
qed (use assms(3) in \<open>auto simp: quiet_line_def line_up_def\<close>)

lemma quiet_steps:
  assumes "keeps_disk M E" "crowd_steps H E d others lim cp ep lossy (crowd_start w) s"
  shows "\<forall>c. quiet_line H M (lines s c)"
  using assms(2)
proof (induction rule: rtranclp_induct)
  case base
  show ?case by (simp add: crowd_start_def quiet_line_def)
next
  case (step s1 s2)
  show ?case by (rule quiet_step [OF assms(1) step.hyps(2) step.IH])
qed

text \<open>Every change of the disk is a call of a thread at an arrival that may commit, or comes from outside.\<close>

lemma disk_changes:
  assumes "keeps_disk M E" "\<forall>u u'. others u u' \<longrightarrow> disk M u' = disk M u"
    and "crowd_steps H E d others lim cp ep lossy (crowd_start w) s"
    and "crowd_step H E d others lim cp ep lossy s s'" "disk M (shared s') \<noteq> disk M (shared s)"
  shows "\<exists>c cn a tr r. lines s c = Some (Handling cn a tr r) \<and> may_commit H cn a"
  using assms(4)
proof (cases rule: crowd_stepE [consumes 1, case_names accept receive call go_on hang_up elsewhere])
  case (call c cn a u tr r)
  have "quiet_line H M (lines s c)" using quiet_steps [OF assms(1,3)] by simp
  moreover have "\<not> quiet_calls M ((shared s, u) # tr)"
    using assms(5) by (simp add: call(1) quiet_calls_def)
  ultimately have "may_commit H cn a" using call(2) unfolding quiet_line_def by blast
  with call(2) show ?thesis by blast
qed (use assms(2,5) in auto)

end
