(* ===== verification/ServerDemo.thy ===== *)
theory ServerDemo
  imports ServerRefine HostDemo
begin

section \<open>A daemon with a small store\<close>

text \<open>
  An Engine with the contents that \<open>Server\<close> speaks of, for the witnesses of \<open>ServerProps\<close>. A database
  is the list of the statements executed in it.
\<close>

type_synonym store = "(string \<times> string list) list"

definition stored :: "store \<Rightarrow> string \<Rightarrow> string list" where
  "stored w p = (case map_of w p of None \<Rightarrow> [] | Some c \<Rightarrow> c)"

definition store_engine ::
  "(store, string \<times> string list, string \<times> string list \<times> string list, string, nat, bool) engine" where
  "store_engine = \<lparr>
     read_file = (\<lambda>p w. (Inr [], w)), db_open = (\<lambda>p w. (Inr (p, stored w p), w)), db_drop = (\<lambda>db w. w),
     cypher_parse = Inr, tx_begin = (\<lambda>(p, v) w. (Inr (p, stored w p, stored w p), w)), tx_base = (\<lambda>tx. 7),
     tx_run = (\<lambda>q t (p, v, c) w. (Inr 0, (p, v, c @ [q]), w)), tx_writes = (\<lambda>(p, v, c). v \<noteq> c),
     tx_commit = (\<lambda>(p, v, c) w. (Inr 8, (p, c), (p, c) # w)), tx_rollback = (\<lambda>(p, v, c) w. ((p, v), w)),
     writes_empty = Not, row_count = id, envelope_json = (\<lambda>r g s. Null)\<rparr>"

definition store_contents ::
  "(store, string \<times> string list, string \<times> string list \<times> string list, string list) contents" where
  "store_contents = \<lparr>disk = stored, db_place = fst, db_seen = snd, tx_place = fst,
     tx_seen = (\<lambda>tx. fst (snd tx)), tx_work = (\<lambda>tx. snd (snd tx))\<rparr>"

definition executes :: "string \<Rightarrow> string list \<Rightarrow> query_error + nat \<Rightarrow> string list \<Rightarrow> bool" where
  "executes q c res c' = (c' = c @ [q])"

lemma store_transactional: "transactional store_contents executes store_engine"
  unfolding transactional_def keeps_disk_def
  by (auto simp: store_contents_def store_engine_def executes_def fresh_or_def stored_def fun_eq_iff)

definition store_json :: "string \<Rightarrow> string + json" where
  "store_json text =
     (if text = ''W'' then Inr (Object
        [(''operation'', String ''query''), (''request_id'', String ''w''),
         (''server_protocol_version'', num_u64 1), (''statement'', String ''CREATE (n)'')])
      else host_json text)"

definition store_text :: textlib where
  "store_text = host_text\<lparr>from_str := store_json\<rparr>"

end
