(* ===== verification/ThreadDemo.thy ===== *)
theory ThreadDemo
  imports ThreadHost ThreadQuiet ServerDemo
begin

section \<open>Two threads in each other's way\<close>

text \<open>
  A run of the daemon call by call, for the witnesses of \<open>ServerProps\<close>: while the thread of the first
  client is between its statement and its commit, the second client opens the same database.
\<close>

datatype 'w move = Receives nat arrival "'w list" | Calls nat | GoesOn nat

fun tick ::
  "textlib \<Rightarrow> ('w, 'db, 'tx, 'q, 'r, 's) engine \<Rightarrow> 'w \<Rightarrow> limits \<Rightarrow> string \<Rightarrow> string \<Rightarrow> 'w move \<Rightarrow>
   (nat \<Rightarrow> ('w, 'db, 'tx) line option) \<times> 'w \<Rightarrow> ((nat \<Rightarrow> ('w, 'db, 'tx) line option) \<times> 'w) option" where
  "tick H E d lim cp ep (Receives c a ws) (ls, w) = (case ls c of
     Some (Waiting cn) \<Rightarrow> (case conn_arrival H (noted d E) lim cp ep cn a (True, ws, []) of
        (r, replies, (b, ws', tr)) \<Rightarrow> if b \<and> ws' = [] then Some (ls(c \<mapsto> Handling cn a tr r), w) else None)
   | _ \<Rightarrow> None)"
| "tick H E d lim cp ep (Calls c) (ls, w) = (case ls c of
     Some (Handling cn a ((u, u') # tr) r) \<Rightarrow> if u = w then Some (ls(c \<mapsto> Handling cn a tr r), u') else None
   | _ \<Rightarrow> None)"
| "tick H E d lim cp ep (GoesOn c) (ls, w) = (case ls c of
     Some (Handling cn0 a [] (Inr cn)) \<Rightarrow> Some (ls(c \<mapsto> Waiting cn), w)
   | _ \<Rightarrow> None)"

fun ticks ::
  "textlib \<Rightarrow> ('w, 'db, 'tx, 'q, 'r, 's) engine \<Rightarrow> 'w \<Rightarrow> limits \<Rightarrow> string \<Rightarrow> string \<Rightarrow> 'w move list \<Rightarrow>
   (nat \<Rightarrow> ('w, 'db, 'tx) line option) \<times> 'w \<Rightarrow> ((nat \<Rightarrow> ('w, 'db, 'tx) line option) \<times> 'w) option" where
  "ticks H E d lim cp ep [] st = Some st"
| "ticks H E d lim cp ep (t # ts) st =
     (case tick H E d lim cp ep t st of None \<Rightarrow> None | Some st' \<Rightarrow> ticks H E d lim cp ep ts st')"

lemma tick_step:
  assumes "tick H E d lim cp ep t (lines s, shared s) = Some (ls, w)"
  shows "crowd_step H E d others lim cp ep lossy s (s\<lparr>lines := ls, shared := w\<rparr>)"
proof (cases t)
  case (Receives c a ws)
  with assms obtain cn r replies tr where
    "lines s c = Some (Waiting cn)" "conn_arrival H (noted d E) lim cp ep cn a (True, ws, []) = (r, replies, (True, [], tr))"
    "ls = (lines s)(c \<mapsto> Handling cn a tr r)" "w = shared s"
    by (auto split: option.splits line.splits prod.splits if_splits)
  with crowd_step.receive [OF this(1,2), of others lossy] show ?thesis by simp
next
  case (Calls c)
  with assms obtain cn a tr r where "lines s c = Some (Handling cn a ((shared s, w) # tr) r)" "ls = (lines s)(c \<mapsto> Handling cn a tr r)"
    by (auto split: option.splits line.splits list.splits if_splits)
  with crowd_step.call [OF this(1)] show ?thesis by simp
next
  case (GoesOn c)
  with assms obtain cn0 a cn where "lines s c = Some (Handling cn0 a [] (Inr cn))" "ls = (lines s)(c \<mapsto> Waiting cn)" "w = shared s"
    by (auto split: option.splits line.splits list.splits sum.splits)
  with crowd_step.go_on [OF this(1)] show ?thesis by simp
qed

lemma ticks_steps:
  assumes "ticks H E d lim cp ep ts (lines s, shared s) = Some (ls, w)"
  shows "crowd_steps H E d others lim cp ep lossy s (s\<lparr>lines := ls, shared := w\<rparr>)"
  using assms
proof (induction ts arbitrary: s)
  case (Cons t ts)
  then obtain ls1 w1 where t: "tick H E d lim cp ep t (lines s, shared s) = Some (ls1, w1)"
    "ticks H E d lim cp ep ts (ls1, w1) = Some (ls, w)"
    by (auto split: option.splits)
  from Cons.IH [of "s\<lparr>lines := ls1, shared := w1\<rparr>"] t(2) tick_step [OF t(1)] show ?case
    by (auto intro: converse_rtranclp_into_rtranclp)
next
  case Nil
  then have "s\<lparr>lines := ls, shared := w\<rparr> = s" by (cases s) simp
  then show ?case by simp
qed

subsection \<open>The run\<close>

abbreviation two_step ::
  "(store, string \<times> string list, string \<times> string list \<times> string list) crowd \<Rightarrow>
   (store, string \<times> string list, string \<times> string list \<times> string list) crowd \<Rightarrow> bool" where
  "two_step \<equiv> crowd_step store_text store_engine [] (\<lambda>_ _. False) demo_limits ''/c'' ''/e'' False"

definition greeted :: "nat \<Rightarrow> store move list" where
  "greeted c = [Receives c (Body ''H'') [], GoesOn c]"

definition entering :: "nat \<Rightarrow> store move list" where
  "entering c = [Receives c (Body ''O'') [[], []], Calls c, Calls c, GoesOn c]"

definition two_ticks :: "store move list" where
  "two_ticks = greeted 0 @ greeted 1 @ entering 0 @ [Receives 0 (Body ''W'') [[], [], []], Calls 0, Calls 0] @
     entering 1"

definition writing_slot :: "string list \<Rightarrow> (string \<times> string list) slot" where
  "writing_slot v = \<lparr>slot_session = Some \<lparr>sess_id = ''s1'', sess_name = ''work'', sess_path = ''/w'',
     sess_database = (''/w'', v)\<rparr>, slot_next = 2\<rparr>"

text \<open>The first client's statement is run and not yet committed; then it is.\<close>

abbreviation (input) its_conn :: "string list \<Rightarrow> (string \<times> string list, string \<times> string list \<times> string list) conn" where
  "its_conn v \<equiv> Talking 1 (Outside (writing_slot v))"

definition two_ticks_end :: "((nat \<Rightarrow> (store, string \<times> string list, string \<times> string list \<times> string list) line option) \<times> store) option" where
  "two_ticks_end = ticks store_text store_engine [] demo_limits ''/c'' ''/e'' two_ticks
     ([0 \<mapsto> Waiting Greeting, 1 \<mapsto> Waiting Greeting], [])"

lemma two_ticks_run:
  "case two_ticks_end of
     Some (ls, w) \<Rightarrow> w = [] \<and>
       (case ls 0 of
          Some (Handling cn a tr (Inr cn')) \<Rightarrow> cn = its_conn [] \<and> a = Body ''W'' \<and>
            tr = [([], [(''/w'', [''CREATE (n)''])])] \<and> cn' = its_conn [''CREATE (n)'']
        | _ \<Rightarrow> False) \<and>
       (case ls 1 of Some (Waiting cn) \<Rightarrow> cn = its_conn [] | _ \<Rightarrow> False)
   | None \<Rightarrow> False"
  by code_simp

lemma two_ticks_reach:
  assumes run: "two_ticks_end = Some (ls, w)"
  shows "w = []"
    "ls 0 = Some (Handling (its_conn []) (Body ''W'') [([], [(''/w'', [''CREATE (n)''])])] (Inr (its_conn [''CREATE (n)''])))"
    "ls 1 = Some (Waiting (its_conn []))"
proof -
  have ends: "case Some (ls, w) of
     Some (ls, w) \<Rightarrow> w = [] \<and>
       (case ls 0 of
          Some (Handling cn a tr (Inr cn')) \<Rightarrow> cn = its_conn [] \<and> a = Body ''W'' \<and>
            tr = [([], [(''/w'', [''CREATE (n)''])])] \<and> cn' = its_conn [''CREATE (n)'']
        | _ \<Rightarrow> False) \<and>
       (case ls 1 of Some (Waiting cn) \<Rightarrow> cn = its_conn [] | _ \<Rightarrow> False)
   | None \<Rightarrow> False"
    by (rule two_ticks_run [unfolded run])
  then show "w = []" by simp
  from ends show "ls 0 = Some (Handling (its_conn []) (Body ''W'') [([], [(''/w'', [''CREATE (n)''])])] (Inr (its_conn [''CREATE (n)''])))"
    by (cases "ls 0") (auto split: line.split_asm sum.split_asm)
  from ends show "ls 1 = Some (Waiting (its_conn []))"
    by (cases "ls 1") (auto split: line.split_asm)
qed

text \<open>Both clients are admitted first.\<close>

lemma crowd_admits:
  assumes "n < 4" "m = Suc n" "serving (two_connections ! n) \<subseteq> serving (two_connections ! m)"
    "line_up (serving (two_connections ! m) - serving (two_connections ! n)) ls = ls'"
  shows "crowd_step H E d others lim cp ep False \<lparr>gate = two_connections ! n, lines = ls, shared = w\<rparr>
    \<lparr>gate = two_connections ! m, lines = ls', shared = w\<rparr>"
  using crowd_step.accept [of False "\<lparr>gate = two_connections ! n, lines = ls, shared = w\<rparr>" "two_connections ! m"]
    two_connections_steps [of n] assms by simp

lemma crowd_admits_both:
  "crowd_steps H E d others lim cp ep False (crowd_start w)
     \<lparr>gate = two_connections ! 4, lines = [0 \<mapsto> Waiting Greeting, 1 \<mapsto> Waiting Greeting], shared = w\<rparr>"
proof -
  let ?s = "\<lambda>n ls. \<lparr>gate = two_connections ! n, lines = ls, shared = w\<rparr>"
  let ?step = "crowd_step H E d others lim cp ep False"
  note serve = demo_serving line_up_def fun_eq_iff
  have "crowd_start w = ?s 0 (\<lambda>_. None)" by (simp add: crowd_start_def two_connections_def)
  moreover have "?step (?s 0 (\<lambda>_. None)) (?s 1 (\<lambda>_. None))"
    by (rule crowd_admits) (auto simp: serve)
  moreover have "?step (?s 1 (\<lambda>_. None)) (?s 2 [0 \<mapsto> Waiting Greeting])"
    by (rule crowd_admits) (auto simp: serve)
  moreover have "?step (?s 2 [0 \<mapsto> Waiting Greeting]) (?s 3 [0 \<mapsto> Waiting Greeting])"
    by (rule crowd_admits) (auto simp: serve)
  moreover have "?step (?s 3 [0 \<mapsto> Waiting Greeting]) (?s 4 [0 \<mapsto> Waiting Greeting, 1 \<mapsto> Waiting Greeting])"
    by (rule crowd_admits) (auto simp: serve)
  ultimately show ?thesis
    by (metis (no_types) rtranclp.rtrancl_into_rtrancl rtranclp.rtrancl_refl)
qed

lemma two_clients_before:
  obtains s where "two_step\<^sup>*\<^sup>* (crowd_start []) s" "shared s = []"
    "lines s 0 = Some (Handling (its_conn []) (Body ''W'') [([], [(''/w'', [''CREATE (n)''])])] (Inr (its_conn [''CREATE (n)''])))"
    "lines s 1 = Some (Waiting (its_conn []))"
proof -
  let ?s = "\<lparr>gate = two_connections ! 4, lines = [0 \<mapsto> Waiting Greeting, 1 \<mapsto> Waiting Greeting], shared = []\<rparr> ::
    (store, string \<times> string list, string \<times> string list \<times> string list) crowd"
  obtain ls w where run: "two_ticks_end = Some (ls, w)" using two_ticks_run by (auto split: option.splits)
  note ended = two_ticks_reach [OF run]
  have "ticks store_text store_engine [] demo_limits ''/c'' ''/e'' two_ticks (lines ?s, shared ?s) = Some (ls, w)"
    using run by (simp add: two_ticks_end_def)
  from rtranclp_trans [OF crowd_admits_both ticks_steps [OF this]]
  have "two_step\<^sup>*\<^sup>* (crowd_start []) (?s\<lparr>lines := ls, shared := w\<rparr>)" .
  then show thesis by (rule that) (simp_all add: ended del: One_nat_def)
qed

lemma two_clients_commit:
  obtains s s' where "two_step\<^sup>*\<^sup>* (crowd_start []) s" "two_step s s'" "shared s = []" "shared s' = [(''/w'', [''CREATE (n)''])]"
    "lines s 0 = Some (Handling (its_conn []) (Body ''W'') [([], [(''/w'', [''CREATE (n)''])])] (Inr (its_conn [''CREATE (n)''])))"
    "lines s' 0 = Some (Handling (its_conn []) (Body ''W'') [] (Inr (its_conn [''CREATE (n)''])))"
    "lines s' 1 = Some (Waiting (its_conn []))"
proof -
  obtain s where s: "two_step\<^sup>*\<^sup>* (crowd_start []) s" "shared s = []"
    "lines s 0 = Some (Handling (its_conn []) (Body ''W'') [([], [(''/w'', [''CREATE (n)''])])] (Inr (its_conn [''CREATE (n)''])))"
    "lines s 1 = Some (Waiting (its_conn []))"
    by (rule two_clients_before)
  from s(2,3) have "lines s 0 = Some (Handling (its_conn []) (Body ''W'') ((shared s, [(''/w'', [''CREATE (n)''])]) # [])
      (Inr (its_conn [''CREATE (n)''])))" by simp
  from crowd_step.call [OF this] show thesis
    by (rule that [OF s(1) _ s(2) _ s(3)]) (use s(4) in simp_all)
qed

lemma two_clients:
  obtains s where "two_step\<^sup>*\<^sup>* (crowd_start []) s" "shared s = [(''/w'', [''CREATE (n)''])]"
    "lines s 0 = Some (Waiting (its_conn [''CREATE (n)'']))" "lines s 1 = Some (Waiting (its_conn []))"
proof -
  obtain s0 s where s: "two_step\<^sup>*\<^sup>* (crowd_start []) s0" "two_step s0 s" "shared s0 = []"
    "shared s = [(''/w'', [''CREATE (n)''])]"
    "lines s0 0 = Some (Handling (its_conn []) (Body ''W'') [([], [(''/w'', [''CREATE (n)''])])] (Inr (its_conn [''CREATE (n)''])))"
    "lines s 0 = Some (Handling (its_conn []) (Body ''W'') [] (Inr (its_conn [''CREATE (n)''])))"
    "lines s 1 = Some (Waiting (its_conn []))"
    by (rule two_clients_commit)
  let ?s = "s\<lparr>lines := (lines s)(0 \<mapsto> Waiting (its_conn [''CREATE (n)'']))\<rparr>"
  have "two_step s ?s" by (rule crowd_step.go_on [OF s(6)])
  from s(1) r_into_rtranclp [of two_step, OF s(2)] r_into_rtranclp [of two_step, OF this]
  have "two_step\<^sup>*\<^sup>* (crowd_start []) ?s" by (meson rtranclp_trans)
  then show thesis by (rule that) (use s(4,7) in simp_all)
qed

end
