(* ===== verification/ServerProps.thy ===== *)
theory ServerProps
  imports ThreadDemo
begin

section \<open>The daemon as a transactional server: the claims\<close>

text \<open>
  C7: the daemon implements the transactional server, however the Engine calls of its threads
  interleave. What is committed in every database and where each client is, is reached by the steps
  of the specification: a client begins with a content that was committed, its statements change its
  own work alone, a commit puts that work in place as a whole, and nothing else changes the disk. A
  thread that waits for its next message is where its connection says. What changes from outside is
  what \<open>others\<close> allows.
\<close>

theorem threads_refine_server:
  assumes "transactional M runs E" "crowd_steps H E d others lim cp ep lossy (crowd_start w) s"
  shows "\<exists>m. (server_step runs (outside_changes M others))\<^sup>*\<^sup>* (disk M w, \<lambda>c. Unopened) (disk M (shared s), m) \<and>
    (\<forall>c. case lines s c of
       None \<Rightarrow> m c = Unopened
     | Some (Waiting cn) \<Rightarrow> m c = conn_client M (Some cn)
     | Some (Handling cn a tr r) \<Rightarrow> path M runs (m c) tr (conn_client M (outcome_conn r)))"
proof -
  obtain m where m: "(server_step runs (outside_changes M others))\<^sup>*\<^sup>* (disk M w, \<lambda>c. Unopened) (disk M (shared s), m)"
    "crowd_clients M runs s m"
    by (rule crowd_steps_refine [OF assms])
  then show ?thesis using line_client_cases unfolding crowd_clients_def by blast
qed

theorem threads_refine_server_witness:
  "\<exists>m. (server_step executes (outside_changes store_contents (\<lambda>_ _. False)))\<^sup>*\<^sup>*
     (stored [], \<lambda>c. Unopened) (stored [(''/w'', [''CREATE (n)''])], m) \<and>
     m 0 = Opened ''/w'' [''CREATE (n)''] \<and> m 1 = Opened ''/w'' []"
proof -
  obtain s where s: "two_step\<^sup>*\<^sup>* (crowd_start []) s" "shared s = [(''/w'', [''CREATE (n)''])]"
    "lines s 0 = Some (Waiting (Talking 1 (Outside (writing_slot [''CREATE (n)'']))))"
    "lines s 1 = Some (Waiting (Talking 1 (Outside (writing_slot []))))"
    by (rule two_clients)
  obtain m where m: "(server_step executes (outside_changes store_contents (\<lambda>_ _. False)))\<^sup>*\<^sup>*
      (disk store_contents [], \<lambda>c. Unopened) (disk store_contents (shared s), m)"
    "case lines s c of
       None \<Rightarrow> m c = Unopened
     | Some (Waiting cn) \<Rightarrow> m c = conn_client store_contents (Some cn)
     | Some (Handling cn a tr r) \<Rightarrow> path store_contents executes (m c) tr (conn_client store_contents (outcome_conn r))" for c
    using threads_refine_server [OF store_transactional s(1)] by blast
  from m(2) [of 0] m(2) [of 1] s(3,4)
  have "m 0 = Opened ''/w'' [''CREATE (n)'']" "m 1 = Opened ''/w'' []"
    by (simp_all add: db_client_def store_contents_def writing_slot_def)
  with m(1) s(2) show ?thesis by (auto simp: store_contents_def)
qed

text \<open>
  Every interleaving of the threads' Engine calls is a run of \<open>Host\<close>, where a thread handles an
  arrival in one step and the others may do anything between its calls. The same connections are in
  service, the accept loop is in the same state, and a connection that waits for its next message is
  the same; what holds of every daemon of \<open>Host\<close> holds of the daemon call by call.
\<close>

theorem threads_are_a_host:
  assumes "crowd_steps H E d others lim cp ep lossy (crowd_start w) s"
  shows "\<exists>h. host_steps H E (\<lambda>_ _. True) lim cp ep lossy (host_start w) h \<and> door h = gate s \<and>
    (\<forall>c. (lines s c = None) = (conns h c = None)) \<and>
    (\<forall>c cn. lines s c = Some (Waiting cn) \<longrightarrow> conns h c = Some cn)"
proof -
  obtain h where h: "host_steps H E (\<lambda>_ _. True) lim cp ep lossy (host_start w) h" "host_of H E d lim cp ep s h"
    using crowd_steps_host [OF assms] by blast
  have at: "line_conn H E d lim cp ep (lines s c) (conns h c)" for c using h(2) by (simp add: host_of_def)
  have "conns h c = Some cn" if "lines s c = Some (Waiting cn)" for c cn using at [of c] that by simp
  moreover have "(lines s c = None) = (conns h c = None)" for c by (rule line_conn_dom [OF at])
  ultimately show ?thesis using h by (intro exI [of _ h]) (simp add: host_of_def)
qed

theorem threads_are_a_host_witness:
  "\<exists>h. host_steps store_text store_engine (\<lambda>_ _. True) demo_limits ''/c'' ''/e'' False (host_start []) h \<and>
     conns h 0 = Some (Talking 1 (Outside (writing_slot [''CREATE (n)'']))) \<and>
     conns h 1 = Some (Talking 1 (Outside (writing_slot [])))"
proof -
  obtain s where s: "two_step\<^sup>*\<^sup>* (crowd_start []) s"
    "lines s 0 = Some (Waiting (Talking 1 (Outside (writing_slot [''CREATE (n)'']))))"
    "lines s 1 = Some (Waiting (Talking 1 (Outside (writing_slot []))))"
    by (rule two_clients)
  from threads_are_a_host [OF s(1)] s(2,3) show ?thesis by blast
qed

text \<open>
  C8: uncommitted work never reaches the disk. When a step of the daemon changes what is committed,
  and nothing outside did, some thread is handling a \<open>commit\<close> in a transaction region or a query
  outside one. Statements in a region, rollbacks, hang-ups in the middle of a transaction, replies
  that cannot be sent, shutdowns and refused requests leave every database as it was.
\<close>

theorem only_asked_commits_reach_the_disk:
  assumes "crowd_steps H E d others lim cp ep lossy (crowd_start w) s" "crowd_step H E d others lim cp ep lossy s s'"
    and "transactional M runs E" "\<forall>u u'. others u u' \<longrightarrow> disk M u' = disk M u"
    and "disk M (shared s') \<noteq> disk M (shared s)"
  shows "\<exists>c cn a tr r. lines s c = Some (Handling cn a tr r) \<and> may_commit H cn a"
proof (rule disk_changes [OF _ assms(4,1,2,5)])
  show "keeps_disk M E" using assms(3) by (simp add: transactional_def)
qed

theorem only_asked_commits_reach_the_disk_witness:
  "\<exists>s s'. two_step\<^sup>*\<^sup>* (crowd_start []) s \<and> two_step s s' \<and>
     disk store_contents (shared s) ''/w'' = [] \<and> disk store_contents (shared s') ''/w'' = [''CREATE (n)''] \<and>
     (\<exists>c cn a tr r. lines s c = Some (Handling cn a tr r) \<and> may_commit store_text cn a)"
proof -
  obtain s s' where s: "two_step\<^sup>*\<^sup>* (crowd_start []) s" "two_step s s'" "shared s = []"
    "shared s' = [(''/w'', [''CREATE (n)''])]"
    by (rule two_clients_commit)
  have disk: "disk store_contents (shared s) ''/w'' = []" "disk store_contents (shared s') ''/w'' = [''CREATE (n)'']"
    by (simp_all add: s store_contents_def stored_def)
  then have "disk store_contents (shared s') \<noteq> disk store_contents (shared s)" by auto
  from only_asked_commits_reach_the_disk [OF s(1,2) store_transactional _ this] s disk
  show ?thesis by blast
qed

end
