(* ===== verification/Unanswered.thy ===== *)
theory Unanswered
  imports ServeSafety
begin

section \<open>Messages that are not answered\<close>

text \<open>
  Where the request loop ends a connection without a word: a reply that does not fit a frame, or
  that \<open>serde_json\<close> cannot write, is not replaced by a smaller one, and an over-long frame is
  reported outside a transaction region only.
\<close>

lemma too_long_is_not_sent:
  assumes "wev s = []" "\<not> deliverable H lim x"
  shows "\<exists>e. send H lim x s = (Inl e, s)"
proof -
  have "delivery H lim x = []" using assms(2) by (auto simp: deliverable_def delivery_def split: sum.splits)
  with send_clean [OF assms(1)] assms(2) show ?thesis
    by (cases "send H lim x s"; cases "fst (send H lim x s)") fastforce+
qed

text \<open>
  C33: a reply that cannot be sent is not replaced by one that can. The statement has been run, and
  committed if it wrote, the connection is closed, and the client has been sent nothing: it learns
  neither the limit that stopped its reply nor that its writes are permanent.
\<close>

theorem a_statement_can_go_unanswered:
  assumes "read_frame (max_frame_bytes lim) s = (Inr body, s1)" "wev s = []"
    and "decode_request H body held = Inr req" "req_operation req = Query" "statement req = Some stmt"
    and "slot_resolve (session_id req) sl = Inr ses"
    and "run_one E lim v req stmt (sess_database ses) w = (reply, db, w')" "\<not> deliverable H lim reply"
  shows "\<exists>s'. serve_loop H E lim cp ep v held sl s w = (TransportFailed, s', db_drop E db w') \<and> out s' = out s"
proof -
  have same: "out s1 = out s" "wev s1 = []" using read_frame_frame [OF assms(1)] assms(2) by simp_all
  obtain e where "send H lim reply s1 = (Inl e, s1)"
    using too_long_is_not_sent [OF same(2) assms(8)] by blast
  moreover have "slot_drop E (slot_put db sl) w' = db_drop E db w'"
    using assms(6) by (auto simp: slot_resolve_def slot_put_def slot_drop_def slot_close_def split: option.splits)
  moreover have "dispatch H E lim cp ep v req sl w = (Send reply, slot_put db sl, w')"
    using assms(4-7) by (simp add: dispatch.simps dispatch_query_def)
  ultimately show ?thesis
    using assms(1,3) same(1) by (subst serve_loop.simps) simp
qed

text \<open>A client whose statement writes, and a library whose texts are longer than a frame may be.\<close>

definition long_text :: textlib where
  "long_text = demo_text\<lparr>from_str := (\<lambda>_. Inr (Object
     [(''operation'', String ''query''), (''request_id'', String ''q''),
      (''server_protocol_version'', num_u64 1), (''statement'', String ''w'')])),
     to_string := (\<lambda>_. Inr ''123456789'')\<rparr>"

definition one_byte :: stream where
  "one_byte = \<lparr>inp = [Chunk [0, 0, 0, 1, 0x51]], wev = [], out = []\<rparr>"

theorem a_statement_can_go_unanswered_witness:
  "\<exists>s'. serve_loop long_text demo_engine demo_limits ''/c'' ''/e'' 1 {}
       \<lparr>slot_session = Some \<lparr>sess_id = ''s1'', sess_name = ''work'', sess_path = ''/w'', sess_database = ()\<rparr>,
         slot_next = 2\<rparr> one_byte 4 = (TransportFailed, s', 5) \<and> out s' = []"
proof -
  have frame: "read_frame (max_frame_bytes demo_limits) one_byte = (Inr ''Q'', \<lparr>inp = [], wev = [], out = []\<rparr>)"
    by code_simp
  have req: "decode_request long_text ''Q'' {} = Inr \<lparr>req_version = 1, request_id = ''q'', session_id = None,
      req_operation = Query, database = None, statement = Some ''w''\<rparr>"
    by code_simp
  show ?thesis
    using a_statement_can_go_unanswered [OF frame _ req, where stmt = "''w''" and E = demo_engine and v = 1
        and w = 4 and w' = 5 and db = "()" and cp = "''/c''" and ep = "''/e''"]
    by (fastforce simp: slot_resolve_def run_one_def demo_engine_def demo_limits_def deliverable_def long_text_def
        one_byte_def)
qed

text \<open>Outside a region an over-long frame is answered, and inside one it is not.\<close>

lemma over_long_frame_in_a_region:
  assumes "read_frame (max_frame_bytes lim) s = (Inl (TooLarge n m), s1)"
  shows "region_loop H E lim v base held tx s w =
     (RegionTransportFailed, fst (tx_rollback E tx w), s1, snd (tx_rollback E tx w)) \<and> out s1 = out s"
    and "serve_loop H E lim cp ep v held sl s w =
     (TransportFailed, snd (send H lim (too_large_response v n m) s1), slot_drop E sl w)"
  using read_frame_frame [OF assms]
  by (simp_all add: region_loop.simps serve_loop.simps region_abort_def assms split: prod.split)

end
