(* ===== verification/Exchange.thy ===== *)
theory Exchange
  imports ServeProps
begin

section \<open>A conversation, as its client can account for it\<close>

text \<open>
  What a client can tell from the messages and the replies alone. Its account is whether it is in a
  transaction region and which identifiers are still outstanding there: \<open>None\<close> outside a region,
  \<open>Some held\<close> in one. \<open>exchange\<close> says of each message and its reply that the reply is to that message,
  has an outcome the operation can have at that point, and moves the account on; and how the
  conversation may end. Nothing of the Engine or of the session is in it.
\<close>

definition outstanding_in :: "string set option \<Rightarrow> string set" where
  "outstanding_in at = (case at of None \<Rightarrow> {} | Some held \<Rightarrow> held)"

definition succeeded :: "json \<Rightarrow> bool" where
  "succeeded x = (member ''outcome'' x = Some (String ''ok''))"

definition failed :: "json \<Rightarrow> bool" where
  "failed x = (member ''outcome'' x = Some (String ''error''))"

text \<open>The reply to a message that is no request states the rule it broke, and no identifier.\<close>

definition refuses :: "u64 \<Rightarrow> refusal \<Rightarrow> json \<Rightarrow> bool" where
  "refuses v r x =
     (reply_header v None x \<and> failed x \<and>
      member ''rule'' x = Some (String (rule_as_str (refusal_rule r))) \<and>
      member ''detail'' x = Some (String (refusal_detail r)) \<and>
      member ''code'' x = map_option (\<lambda>c. String (code_as_str c)) (rule_code (refusal_rule r)))"

text \<open>The outcome of a request, where it depends on the region alone.\<close>

fun outcome_fits :: "bool \<Rightarrow> operation \<Rightarrow> json \<Rightarrow> bool" where
  "outcome_fits inside Status x = succeeded x"
| "outcome_fits inside CloseSession x = (if inside then failed x else succeeded x)"
| "outcome_fits inside Shutdown x = (if inside then failed x else succeeded x)"
| "outcome_fits inside Rollback x = (if inside then succeeded x else failed x)"
| "outcome_fits inside Commit x = (inside \<or> failed x)"
| "outcome_fits inside Begin x = (inside \<longrightarrow> failed x)"
| "outcome_fits inside OpenSession x = (inside \<longrightarrow> failed x)"
| "outcome_fits inside Query x = True"

definition replies_to :: "textlib \<Rightarrow> u64 \<Rightarrow> string set option \<Rightarrow> string \<Rightarrow> json \<Rightarrow> bool" where
  "replies_to H v at body x = (case decode_request H body (outstanding_in at) of
     Inl r \<Rightarrow> refuses v r x
   | Inr req \<Rightarrow> reply_header v (Some (request_id req)) x \<and>
       outcome_fits (at \<noteq> None) (req_operation req) x \<and>
       (req_operation req = Query \<and> statement req = None \<longrightarrow> failed x))"

definition account_after :: "textlib \<Rightarrow> string set option \<Rightarrow> string \<Rightarrow> json \<Rightarrow> string set option" where
  "account_after H at body x = (case decode_request H body (outstanding_in at) of
     Inl r \<Rightarrow> at
   | Inr req \<Rightarrow> (case at of
         None \<Rightarrow> (if req_operation req = Begin \<and> succeeded x then Some {} else None)
       | Some held \<Rightarrow>
          (if req_operation req = Commit \<or> req_operation req = Rollback then None
           else if req_operation req = Query \<and> statement req = None then Some (insert (request_id req) held)
           else at)))"

definition stops_daemon :: "textlib \<Rightarrow> string set option \<Rightarrow> string \<Rightarrow> bool" where
  "stops_daemon H at body = (case decode_request H body (outstanding_in at) of
     Inl r \<Rightarrow> False | Inr req \<Rightarrow> at = None \<and> req_operation req = Shutdown)"

text \<open>The last word to a client whose frame is too long: said outside a region only.\<close>

definition last_word :: "u64 \<Rightarrow> string set option \<Rightarrow> frame_error \<Rightarrow> json list \<Rightarrow> bool" where
  "last_word v at e xs = (case e of
     TooLarge n m \<Rightarrow>
       (if at = None
        then (\<exists>x. xs = [x] \<and> failed x \<and> member ''server_protocol_version'' x = Some (num_u64 v) \<and>
          member ''rule'' x = Some (String ''frame_too_large'') \<and> member ''request_id'' x = None)
        else xs = [])
   | _ \<Rightarrow> xs = [])"

text \<open>
  Which replies must have been sent for the connection to go on. The others may be lost without ending
  it: the refusal of a message outside a region, the error of a \<open>begin\<close> that no rule refuses, and in a
  region the answer to a \<open>commit\<close>, to a \<open>rollback\<close> and to a query without a statement.
\<close>

definition must_arrive :: "textlib \<Rightarrow> string set option \<Rightarrow> string \<Rightarrow> json \<Rightarrow> bool" where
  "must_arrive H at body x = (case decode_request H body (outstanding_in at) of
     Inl r \<Rightarrow> at \<noteq> None
   | Inr req \<Rightarrow>
       (if at = None then req_operation req = Begin \<longrightarrow> succeeded x \<or> member ''rule'' x \<noteq> None
        else req_operation req \<noteq> Commit \<and> req_operation req \<noteq> Rollback \<and>
          \<not> (req_operation req = Query \<and> statement req = None)))"

text \<open>
  After a reply the connection is over on a shutdown, or when a reply that must arrive cannot be sent;
  otherwise the conversation goes on with the next message.
\<close>

fun exchange ::
  "textlib \<Rightarrow> limits \<Rightarrow> u64 \<Rightarrow> string set option \<Rightarrow> string list \<Rightarrow> frame_error \<Rightarrow> ended \<Rightarrow> json list \<Rightarrow> bool"
  where
  "exchange H lim v at [] e x xs = (x = ended_by e \<and> last_word v at e xs)"
| "exchange H lim v at (body # bodies) e x [] = False"
| "exchange H lim v at (body # bodies) e x (reply # xs) =
     (replies_to H v at body reply \<and>
      (if stops_daemon H at body then xs = [] \<and> x = ShutdownRequested
       else if must_arrive H at body reply \<and> \<not> deliverable H lim reply then xs = [] \<and> x = TransportFailed
       else exchange H lim v (account_after H at body reply) bodies e x xs))"

text \<open>A whole conversation begins with the handshake.\<close>

fun conversation_fits ::
  "textlib \<Rightarrow> limits \<Rightarrow> string \<Rightarrow> string list \<Rightarrow> frame_error \<Rightarrow> ended \<Rightarrow> json list \<Rightarrow> bool" where
  "conversation_fits H lim ep [] e x xs = (x = ended_by e \<and> xs = [])"
| "conversation_fits H lim ep (opening # bodies) e x [] = False"
| "conversation_fits H lim ep (opening # bodies) e x (reply # xs) =
     (case decode_hello H opening of
        Inl r \<Rightarrow> x = HandshakeRefused \<and> xs = [] \<and> member ''message'' reply = Some (String ''refused'') \<and>
          member ''server_protocol_version'' reply = None
      | Inr h \<Rightarrow>
         (case negotiate h of
            Inl r \<Rightarrow> x = HandshakeRefused \<and> xs = [] \<and> member ''message'' reply = Some (String ''refused'') \<and>
              member ''server_protocol_version'' reply = None
          | Inr v \<Rightarrow> member ''message'' reply = Some (String ''welcome'') \<and>
              member ''server_protocol_version'' reply = Some (num_u64 v) \<and>
              member ''endpoint'' reply = Some (String ep) \<and>
              (if deliverable H lim reply then exchange H lim v None bodies e x xs
               else xs = [] \<and> x = TransportFailed)))"

subsection \<open>One message\<close>

fun mode_account :: "('db, 'tx) mode \<Rightarrow> string set option" where
  "mode_account (Outside sl) = None"
| "mode_account (Inside sl base held tx) = Some held"

lemma outcome_members:
  "succeeded (ok_response v req y)" "failed (error_response v req d)" "failed (diagnostic_response v req e)"
  "failed (refusal_response v i r)" "succeeded x \<Longrightarrow> \<not> failed x"
  by (auto simp: succeeded_def failed_def ok_response_def error_response_def diagnostic_response_def
      refusal_response_def member_json_object split: option.split)

lemma failed_not_succeeded: "failed x \<Longrightarrow> \<not> succeeded x"
  by (simp add: succeeded_def failed_def)

lemma rule_members:
  "member ''rule'' (refusal_response v i r) \<noteq> None" "member ''rule'' (error_response v req d) = None"
  by (auto simp: refusal_response_def error_response_def member_json_object split: option.split)

lemma refuses_response: "refuses v r (refusal_response v None r)"
  by (simp add: refuses_def header_refusal outcome_members)
    (simp add: refusal_response_def member_json_object refusal_code_def split: option.split)

text \<open>What follows a reply: the account, or one of the two ends.\<close>

definition verdict_fits ::
  "textlib \<Rightarrow> limits \<Rightarrow> string set option \<Rightarrow> string \<Rightarrow> json \<Rightarrow> ('db, 'tx) verdict \<Rightarrow> bool" where
  "verdict_fits H lim at body x r = (case r of
     Go m \<Rightarrow> \<not> stops_daemon H at body \<and> (must_arrive H at body x \<longrightarrow> deliverable H lim x) \<and>
       mode_account m = account_after H at body x
   | Stop y \<Rightarrow> (if stops_daemon H at body then y = ShutdownRequested
       else y = TransportFailed \<and> must_arrive H at body x \<and> \<not> deliverable H lim x))"

lemma dispatch_outcome:
  "case fst (dispatch H E lim cp ep v req sl w) of
     Send x \<Rightarrow> reply_header v (Some (request_id req)) x \<and> req_operation req \<noteq> Shutdown \<and>
       outcome_fits False (req_operation req) x \<and>
       (req_operation req = Begin \<longrightarrow> failed x \<and> member ''rule'' x \<noteq> None) \<and>
       (req_operation req = Query \<and> statement req = None \<longrightarrow> failed x)
   | Shutdown_Reply x \<Rightarrow> reply_header v (Some (request_id req)) x \<and> req_operation req = Shutdown \<and> succeeded x
   | Transaction \<Rightarrow> req_operation req = Begin \<and> dispatch H E lim cp ep v req sl w = (Transaction, sl, w) \<and>
       (\<exists>s. slot_resolve (session_id req) sl = Ok s)"
  using header_dispatch [where H = H and E = E and lim = lim and cp = cp and ep = ep and v = v and req = req and sl = sl and w = w]
  by (cases "req_operation req")
    (auto simp: dispatch.simps dispatch_open_def dispatch_query_def Let_def outcome_members rule_members case_prod_beta
      split: sum.splits option.splits reply.splits prod.splits open_error.splits)

lemma begin_step_fits:
  assumes "decode_request H body {} = Inr req" "req_operation req = Begin"
    and "(\<exists>s. slot_resolve (session_id req) sl = Ok s)"
  shows "case begin_step H E lim v req sl w of (r, x, w') \<Rightarrow>
    replies_to H v None body x \<and> verdict_fits H lim None body x r"
  using assms
  by (auto simp: begin_step_def replies_to_def verdict_fits_def checked_def stops_daemon_def must_arrive_def
      account_after_def outstanding_in_def headers outcome_members failed_not_succeeded rule_members
      split: sum.split prod.split)

lemma outside_step_fits:
  assumes "decode_request H body {} = Inr req"
  shows "case outside_step H E lim cp ep v req sl w of (r, x, w') \<Rightarrow>
    replies_to H v None body x \<and> verdict_fits H lim None body x r"
proof (cases "dispatch H E lim cp ep v req sl w")
  case (fields y sl1 w1)
  note d = dispatch_outcome [where H = H and E = E and lim = lim and cp = cp and ep = ep and v = v and req = req
      and sl = sl and w = w, unfolded fields, simplified]
  show ?thesis
  proof (cases y)
    case (Send x)
    with d fields assms show ?thesis
      by (auto simp: outside_step_def replies_to_def verdict_fits_def checked_def stops_daemon_def
          must_arrive_def account_after_def outstanding_in_def failed_not_succeeded)
  next
    case Transaction
    with d fields begin_step_fits [OF assms, where E = E and lim = lim and v = v and sl = sl and w = w]
    show ?thesis by (simp add: outside_step_def)
  next
    case (Shutdown_Reply x)
    with d fields assms show ?thesis
      by (auto simp: outside_step_def replies_to_def verdict_fits_def stops_daemon_def outstanding_in_def)
  qed
qed

lemma region_outcome:
  "case region_request E lim v base req tx w of
     Finish x db w' \<Rightarrow> reply_header v (Some (request_id req)) x \<and>
       (req_operation req = Commit \<or> req_operation req = Rollback) \<and>
       outcome_fits True (req_operation req) x
   | Respond x tx' w' \<Rightarrow> reply_header v (Some (request_id req)) x \<and>
       req_operation req \<noteq> Commit \<and> req_operation req \<noteq> Rollback \<and>
       \<not> (req_operation req = Query \<and> statement req = None) \<and> outcome_fits True (req_operation req) x
   | RespondKeep x \<Rightarrow> reply_header v (Some (request_id req)) x \<and>
       req_operation req = Query \<and> statement req = None \<and> failed x"
proof (cases "req_operation req")
  case Query
  have "case region_query E lim v base req tx w of
     Finish x db w' \<Rightarrow> False
   | Respond x tx' w' \<Rightarrow> reply_header v (Some (request_id req)) x \<and> statement req \<noteq> None
   | RespondKeep x \<Rightarrow> reply_header v (Some (request_id req)) x \<and> statement req = None \<and> failed x"
    by (simp add: region_query_def headers outcome_members split: option.split sum.split prod.split)
  with Query show ?thesis by (simp add: region_request_def split: region_act.splits)
next
  case Commit
  then show ?thesis by (simp add: region_request_def headers split: sum.split prod.split)
qed (simp_all add: region_request_def headers outcome_members case_prod_beta)

lemma inside_step_fits:
  assumes "decode_request H body held = Inr req"
  shows "case inside_step H E lim v req sl base held tx w of (r, x, w') \<Rightarrow>
    replies_to H v (Some held) body x \<and> verdict_fits H lim (Some held) body x r"
proof -
  have keep: "held - {request_id req} = held" using decode_request_fresh [OF assms] by simp
  note out = region_outcome [where E = E and lim = lim and v = v and req = req and base = base and tx = tx
      and w = w]
  note defs = inside_step_def replies_to_def verdict_fits_def checked_def stops_daemon_def must_arrive_def
    account_after_def outstanding_in_def assms keep
  show ?thesis
  proof (cases "region_request E lim v base req tx w")
    case (Finish x db w')
    with out show ?thesis by (auto simp: defs)
  next
    case (Respond x tx' w')
    with out show ?thesis by (auto simp: defs)
  next
    case (RespondKeep x)
    with out show ?thesis by (auto simp: defs)
  qed
qed

lemma conn_step_fits:
  "case conn_step H E lim cp ep v m body w of (r, x, w') \<Rightarrow>
     replies_to H v (mode_account m) body x \<and> verdict_fits H lim (mode_account m) body x r"
proof (cases m)
  case (Outside sl)
  show ?thesis
  proof (cases "decode_request H body {}")
    case (Inl r)
    with Outside show ?thesis
      by (simp add: replies_to_def verdict_fits_def stops_daemon_def must_arrive_def account_after_def
          outstanding_in_def refuses_response)
  next
    case (Inr req)
    with Outside outside_step_fits [OF this, where E = E and lim = lim and cp = cp and ep = ep and v = v
        and sl = sl and w = w]
    show ?thesis by simp
  qed
next
  case (Inside sl base held tx)
  show ?thesis
  proof (cases "decode_request H body held")
    case (Inl r)
    with Inside show ?thesis
      by (simp add: replies_to_def verdict_fits_def checked_def stops_daemon_def must_arrive_def
          account_after_def outstanding_in_def refuses_response)
  next
    case (Inr req)
    with Inside inside_step_fits [OF this, where E = E and lim = lim and v = v and sl = sl
        and base = base and tx = tx and w = w]
    show ?thesis by simp
  qed
qed

subsection \<open>All of them\<close>

lemma farewell_last_word: "last_word v (mode_account m) e (farewell v m e)"
  by (cases m; cases e)
    (simp_all add: last_word_def too_large_response_def failed_def member_json_object)

lemma conn_run_exchange:
  "case conn_run H E lim cp ep v m bodies e w of (x, xs, w') \<Rightarrow>
     exchange H lim v (mode_account m) bodies e x xs"
proof (induction bodies arbitrary: m w)
  case Nil
  show ?case by (simp add: farewell_last_word)
next
  case (Cons body bodies)
  obtain r x w1 where s: "conn_step H E lim cp ep v m body w = (r, x, w1)"
    by (cases "conn_step H E lim cp ep v m body w") auto
  from conn_step_fits [where H = H and E = E and lim = lim and cp = cp and ep = ep and v = v and m = m
      and body = body and w = w] s
  have f: "replies_to H v (mode_account m) body x" "verdict_fits H lim (mode_account m) body x r" by auto
  show ?case
  proof (cases r)
    case (Go m')
    with f s Cons.IH [of m' w1] show ?thesis
      by (auto simp: verdict_fits_def case_prod_beta simp del: conn_step.simps)
  next
    case (Stop y)
    with f s show ?thesis by (auto simp: verdict_fits_def simp del: conn_step.simps split: if_splits)
  qed
qed

lemma welcome_members:
  "member ''message'' (welcome_reply v ep) = Some (String ''welcome'')"
  "member ''server_protocol_version'' (welcome_reply v ep) = Some (num_u64 v)"
  "member ''endpoint'' (welcome_reply v ep) = Some (String ep)"
  "member ''message'' refused_reply = Some (String ''refused'')"
  "member ''server_protocol_version'' refused_reply = None"
  by (simp_all add: welcome_reply_def refused_reply_def member_json_object)

lemma conn_script_fits:
  "case conn_script H E lim cp ep bodies e w of (x, xs, w') \<Rightarrow> conversation_fits H lim ep bodies e x xs"
proof (cases bodies)
  case (Cons body rest)
  show ?thesis
    using conn_run_exchange [where m = "Outside slot_new" and bodies = rest and e = e and H = H
        and E = E and lim = lim and cp = cp and ep = ep and w = w]
    by (auto simp: Cons conn_script_def handshake_def case_prod_beta welcome_members split: sum.split)
qed (simp add: conn_script_def)

text \<open>
  C9: what a client can rely on, on a transport that neither fails nor refuses a write and however
  it splits the bytes: the bytes sent are the frames of a list of replies that accounts for the
  messages one by one and in order (\<open>conversation_fits\<close>). The first message is answered with the
  welcome, which states the version and the endpoint, or refused, which ends the connection. Then
  each message in turn has its reply: a message that is no request gets an error that states the
  rule it broke and names no request; a request gets the version and its own identifier, and an outcome
  its operation can have outside or inside a region. A begin answered \<open>ok\<close> enters the region, a commit
  or a rollback leaves it. The messages stop being answered at a shutdown, at the end of the stream
  (an overlong frame outside a region is told so first), or at a reply that has no frame because it
  is longer than the maximum: that one is in the list, but none of its bytes are sent.
\<close>

theorem every_conversation_is_answered:
  assumes "healthy (inp s)" "wev s = []"
    and "frames_of (max_frame_bytes lim) (bytes_of (inp s)) = (bodies, e)"
  shows "case serve_connection H E lim cp ep s w of (x, s', w') \<Rightarrow>
    \<exists>replies. out s' = out s @ concat (map (delivery H lim) replies) \<and>
      conversation_fits H lim ep bodies e x replies"
proof -
  have "clean s" using assms by (simp add: clean_def)
  from serve_connection_meets [OF this, where H = H and E = E and lim = lim and cp = cp
      and ep = ep and w = w]
    conn_script_fits [where H = H and E = E and lim = lim and cp = cp and ep = ep
      and bodies = bodies and e = e and w = w]
  show ?thesis by (fastforce simp: script_def assms(3))
qed

theorem every_conversation_is_answered_witness:
  "case serve_connection demo_text demo_engine demo_limits ''/c'' ''/e'' demo_stream 0 of (x, s', w') \<Rightarrow>
    \<exists>replies. out s' = concat (map (delivery demo_text demo_limits) replies) \<and>
      conversation_fits demo_text demo_limits ''/e'' [''H'', ''S'', ''!''] Closed x replies"
proof -
  have "healthy (inp demo_stream)" "wev demo_stream = []" "out demo_stream = []"
    by (simp_all add: demo_stream_def)
  with every_conversation_is_answered [OF _ _ demo_frames, where H = demo_text and E = demo_engine
      and cp = "''/c''" and ep = "''/e''" and w = 0]
  show ?thesis by simp
qed

end
