(* ===== verification/FrameTests.thy ===== *)
theory FrameTests
  imports FrameSpec
begin

section \<open>The unit tests of framing and of the diagnostics, run on the model\<close>

text \<open>
  The test modules of \<open>src/frame.rs\<close> and \<open>src/diagnostic.rs\<close>. Every test is a definition, its
  assertions in order as one truth value, and a lemma that the model passes it. An
  \<open>io::Cursor\<close> over bytes is a transport that delivers them in one chunk and then ends, and a
  \<open>Vec\<close> written to is one that takes everything.
\<close>

abbreviation MAXIMUM :: u32 where
  "MAXIMUM \<equiv> MINIMUM_MAXIMUM_FRAME_BYTES"

definition cursor :: "u8 list \<Rightarrow> stream" where
  "cursor bytes = \<lparr>inp = [Chunk bytes], wev = [], out = []\<rparr>"

definition new_buffer :: stream where
  "new_buffer = \<lparr>inp = [], wev = [], out = []\<rparr>"

definition a_frame_round_trips :: bool where
  "a_frame_round_trips =
     (let (written, buffer) = write_frame ''{\"message\":\"hello\"}'' MAXIMUM new_buffer;
          (body, rest) = read_frame MAXIMUM (cursor (out buffer))
      in written = Ok () \<and> body = Ok ''{\"message\":\"hello\"}'')"

definition two_frames_share_one_connection :: bool where
  "two_frames_share_one_connection =
     (let (w1, buffer) = write_frame ''first'' MAXIMUM new_buffer;
          (w2, buffer) = write_frame ''second'' MAXIMUM buffer;
          (r1, rest) = read_frame MAXIMUM (cursor (out buffer));
          (r2, rest) = read_frame MAXIMUM rest;
          (r3, rest) = read_frame MAXIMUM rest
      in w1 = Ok () \<and> w2 = Ok () \<and> r1 = Ok ''first'' \<and> r2 = Ok ''second'' \<and> r3 = Err Closed)"

definition an_over_long_declared_length_is_refused :: bool where
  "an_over_long_declared_length_is_refused =
     (let declared = 1024 * 1024 * 1024;
          (r, rest) = read_frame MAXIMUM (cursor (to_be_bytes declared))
      in r = Err (TooLarge declared MAXIMUM))"

definition a_clean_end_between_messages_is_not_a_truncation :: bool where
  "a_clean_end_between_messages_is_not_a_truncation = (fst (read_frame MAXIMUM (cursor [])) = Err Closed)"

definition an_end_inside_a_frame_is_a_truncation :: bool where
  "an_end_inside_a_frame_is_a_truncation =
     (fst (read_frame MAXIMUM (cursor (to_be_bytes 10 @ as_bytes ''abc''))) = Err Truncated)"

definition a_partial_length_prefix_is_a_truncation :: bool where
  "a_partial_length_prefix_is_a_truncation = (fst (read_frame MAXIMUM (cursor [0, 0])) = Err Truncated)"

definition a_non_utf8_body_is_refused :: bool where
  "a_non_utf8_body_is_refused =
     (fst (read_frame MAXIMUM (cursor (to_be_bytes 2 @ [0xFF, 0xFE]))) = Err NotUtf8)"

definition a_writer_refuses_to_send_what_its_peer_would_refuse :: bool where
  "a_writer_refuses_to_send_what_its_peer_would_refuse =
     (let (r, buffer) = write_frame (replicate 64 (CHR ''x'')) 16 new_buffer
      in r = Err (TooLarge 64 16) \<and> out buffer = [])"

definition the_length_is_big_endian_on_the_wire :: bool where
  "the_length_is_big_endian_on_the_wire =
     (let (r, buffer) = write_frame ''ab'' MAXIMUM new_buffer
      in r = Ok () \<and> take 4 (out buffer) = [0, 0, 0, 2])"

lemma reading_tests_pass:
  "a_clean_end_between_messages_is_not_a_truncation" "a_partial_length_prefix_is_a_truncation"
  "an_over_long_declared_length_is_refused" "an_end_inside_a_frame_is_a_truncation"
  "a_non_utf8_body_is_refused"
  by code_simp+

text \<open>What is written is known by \<open>write_frame_clean\<close>; the reading is evaluated.\<close>

lemma written:
  "wev b = [] \<Longrightarrow> length t < 256 \<Longrightarrow>
   write_frame t MAXIMUM b = (Ok (), b\<lparr>out := out b @ frame_bytes t\<rparr>)"
  by (rule write_frame_clean) (simp_all add: MINIMUM_MAXIMUM_FRAME_BYTES_def)

lemma new_buffer_sel [simp]: "wev new_buffer = []" "out new_buffer = []"
  by (simp_all add: new_buffer_def)

lemma a_frame_round_trips_passes: "a_frame_round_trips"
proof -
  have "fst (read_frame MAXIMUM (cursor (frame_bytes ''{\"message\":\"hello\"}''))) =
    Ok ''{\"message\":\"hello\"}''" by code_simp
  then show ?thesis by (simp add: a_frame_round_trips_def written case_prod_beta)
qed

lemma two_frames_share_one_connection_passes: "two_frames_share_one_connection"
proof -
  have "(let (r1, rest) = read_frame MAXIMUM (cursor (frame_bytes ''first'' @ frame_bytes ''second''));
          (r2, rest) = read_frame MAXIMUM rest;
          (r3, rest) = read_frame MAXIMUM rest
      in r1 = Ok ''first'' \<and> r2 = Ok ''second'' \<and> r3 = Err Closed)" by code_simp
  then show ?thesis by (simp add: two_frames_share_one_connection_def written case_prod_beta Let_def)
qed

lemma a_writer_refuses_to_send_what_its_peer_would_refuse_passes:
  "a_writer_refuses_to_send_what_its_peer_would_refuse"
  by (simp add: a_writer_refuses_to_send_what_its_peer_would_refuse_def write_frame_def as_bytes_def
      u32_max_def Let_def)

lemma the_length_is_big_endian_on_the_wire_passes: "the_length_is_big_endian_on_the_wire"
  by (simp add: the_length_is_big_endian_on_the_wire_def written frame_bytes_def to_be_bytes_def)

subsection \<open>Diagnostics\<close>

definition every_code_has_a_distinct_stable_form :: bool where
  "every_code_has_a_distinct_stable_form = distinct (map code_as_str
     [CatalogInvalid, CatalogVersionUnsupported, ServerAlreadyRunning, ServerProtocolUnsupported])"

definition only_the_already_running_outcome_is_not_a_failure :: bool where
  "only_the_already_running_outcome_is_not_a_failure =
     (\<not> is_failure ServerAlreadyRunning \<and> is_failure CatalogInvalid \<and>
      is_failure CatalogVersionUnsupported \<and> is_failure ServerProtocolUnsupported)"

lemma diagnostic_tests_pass:
  "every_code_has_a_distinct_stable_form" "only_the_already_running_outcome_is_not_a_failure"
  by code_simp+

end
