(* ===== verification/MessageTests.thy ===== *)
theory MessageTests
  imports Message
begin

section \<open>The unit tests of the protocol's messages, run on the model\<close>

text \<open>
  The test module of \<open>src/message.rs\<close>. \<open>serde_json\<close>'s reading of a test's literal is given as the
  value the literal denotes: \<open>reading v\<close> is a text library whose parser answers \<open>v\<close>.
\<close>

definition reading :: "json \<Rightarrow> textlib" where
  "reading v = \<lparr>from_str = (\<lambda>_. Inr v), to_string = (\<lambda>_. Inl []), to_string_pretty = (\<lambda>_. Inl []),
     char_debug = id\<rparr>"

definition hello_of :: "json \<Rightarrow> refusal + hello" where
  "hello_of v = decode_hello (reading v) []"

definition request_of :: "json \<Rightarrow> string set \<Rightarrow> refusal + request" where
  "request_of v outstanding = decode_request (reading v) [] outstanding"

text \<open>The rule of a refusal that is expected.\<close>

fun refused_by :: "refusal + 'a \<Rightarrow> rule option" where
  "refused_by (Inl r) = Some (refusal_rule r)"
| "refused_by (Inr a) = None"

definition a_hello_offering_a_supported_version_negotiates_it :: bool where
  "a_hello_offering_a_supported_version_negotiates_it =
     (case hello_of (json_object [(''message'', String ''hello''), (''client'', String ''nostdb-cli''),
        (''supported_versions'', Array [num_u64 1])]) of
        Inr h \<Rightarrow> negotiate h = Ok 1
      | Inl _ \<Rightarrow> False)"

definition a_hello_offering_nothing_in_common_is_the_one_refusal_with_a_code :: bool where
  "a_hello_offering_nothing_in_common_is_the_one_refusal_with_a_code =
     (case negotiate \<lparr>supported_versions = [99], client = None\<rparr> of
        Inl r \<Rightarrow> refusal_rule r = VersionsDoNotIntersect \<and> refusal_code r = Some ServerProtocolUnsupported
      | Inr _ \<Rightarrow> False)"

definition every_other_refusal_carries_no_code :: bool where
  "every_other_refusal_carries_no_code = list_all (\<lambda>r. rule_code r = None)
     [VersionAbsentAfterHandshake, FirstMessageNotHello, FrameTooLarge, BodyNotAnObject,
      RequestIdAbsent, OperationAbsent, UnknownOperation, DatabaseIsAPath, UnknownSession,
      SecondSessionOnOneConnection, PeerIsAnotherUser]"

definition a_first_message_that_is_not_hello_is_refused :: bool where
  "a_first_message_that_is_not_hello_is_refused =
     (refused_by (hello_of (json_object [(''server_protocol_version'', num_u64 1),
        (''operation'', String ''status'')])) = Some FirstMessageNotHello)"

definition a_body_that_is_not_an_object_is_refused :: bool where
  "a_body_that_is_not_an_object_is_refused =
     (refused_by (hello_of (Array [])) = Some BodyNotAnObject \<and>
      refused_by (request_of (Array []) {}) = Some BodyNotAnObject)"

definition a_request_without_a_version_is_refused :: bool where
  "a_request_without_a_version_is_refused =
     (refused_by (request_of (json_object [(''request_id'', String ''r1''), (''operation'', String ''status'')]) {}) =
      Some VersionAbsentAfterHandshake)"

definition a_request_without_a_request_id_is_refused :: bool where
  "a_request_without_a_request_id_is_refused =
     (refused_by (request_of (json_object [(''server_protocol_version'', num_u64 1),
        (''operation'', String ''status'')]) {}) = Some RequestIdAbsent)"

text \<open>The status request that several tests send.\<close>

definition status_r1 :: json where
  "status_r1 = json_object [(''server_protocol_version'', num_u64 1), (''request_id'', String ''r1''),
     (''operation'', String ''status'')]"

definition a_repeated_outstanding_request_id_is_refused :: bool where
  "a_repeated_outstanding_request_id_is_refused =
     (refused_by (request_of status_r1 {''r1''}) = Some RequestIdAbsent)"

definition the_same_request_id_is_accepted_once_it_is_no_longer_outstanding :: bool where
  "the_same_request_id_is_accepted_once_it_is_no_longer_outstanding =
     (case request_of status_r1 {} of Inr q \<Rightarrow> request_id q = ''r1'' | Inl _ \<Rightarrow> False)"

definition an_absent_and_an_unknown_operation_are_different_refusals :: bool where
  "an_absent_and_an_unknown_operation_are_different_refusals =
     (refused_by (request_of (json_object [(''server_protocol_version'', num_u64 1),
        (''request_id'', String ''r1'')]) {}) = Some OperationAbsent \<and>
      refused_by (request_of (json_object [(''server_protocol_version'', num_u64 1),
        (''request_id'', String ''r1''), (''operation'', String ''vacuum'')]) {}) = Some UnknownOperation)"

definition a_database_holding_a_path_is_refused_in_every_spelling :: bool where
  "a_database_holding_a_path_is_refused_in_every_spelling =
     list_all (\<lambda>value. refused_by (request_of (json_object
         [(''server_protocol_version'', num_u64 1), (''request_id'', String ''r1''),
          (''operation'', String ''query''), (''database'', String value),
          (''statement'', String ''MATCH (n) RETURN n'')]) {}) = Some DatabaseIsAPath)
       [''./project/.nostdb/root.nostdb'', ''/srv/db.nostdb'', ''work/main'', ''@work'', ''..'', []]"

definition a_bare_catalog_name_is_accepted :: bool where
  "a_bare_catalog_name_is_accepted =
     (case request_of (json_object
        [(''server_protocol_version'', num_u64 1), (''request_id'', String ''r1''),
         (''session_id'', String ''s1''), (''operation'', String ''query''), (''database'', String ''work''),
         (''statement'', String ''MATCH (n) RETURN n'')]) {} of
        Inr q \<Rightarrow> request.database q = Some ''work'' \<and> req_operation q = Query \<and> session_id q = Some ''s1''
      | Inl _ \<Rightarrow> False)"

definition a_second_hello_after_the_handshake_is_refused :: bool where
  "a_second_hello_after_the_handshake_is_refused =
     (refused_by (request_of (json_object [(''server_protocol_version'', num_u64 1),
        (''request_id'', String ''r2''), (''message'', String ''hello''), (''operation'', String ''status'')]) {}) =
      Some FirstMessageNotHello)"

definition a_welcome_states_the_negotiated_version_and_a_refusal_states_none :: bool where
  "a_welcome_states_the_negotiated_version_and_a_refusal_states_none =
     (let w = welcome_reply 1 ''/home/dana/.nostdb/run/nostdb.sock'' in
      member ''server_protocol_version'' w = Some (num_u64 1) \<and>
      member ''message'' w = Some (String ''welcome'') \<and>
      member ''server_protocol_version'' refused_reply = None \<and>
      member ''code'' refused_reply = Some (String ''SERVER_PROTOCOL_UNSUPPORTED'') \<and>
      member ''supported_versions'' refused_reply = Some (Array [num_u64 1]))"

lemma message_tests_pass:
  "a_hello_offering_a_supported_version_negotiates_it"
  "a_hello_offering_nothing_in_common_is_the_one_refusal_with_a_code"
  "every_other_refusal_carries_no_code"
  "a_first_message_that_is_not_hello_is_refused"
  "a_body_that_is_not_an_object_is_refused"
  "a_request_without_a_version_is_refused"
  "a_request_without_a_request_id_is_refused"
  "a_repeated_outstanding_request_id_is_refused"
  "the_same_request_id_is_accepted_once_it_is_no_longer_outstanding"
  "an_absent_and_an_unknown_operation_are_different_refusals"
  "a_database_holding_a_path_is_refused_in_every_spelling"
  "a_bare_catalog_name_is_accepted"
  "a_second_hello_after_the_handshake_is_refused"
  "a_welcome_states_the_negotiated_version_and_a_refusal_states_none"
  by code_simp+

end
