(* ===== verification/CatalogTests.thy ===== *)
theory CatalogTests
  imports CatalogStore MessageTests
begin

section \<open>The unit tests of the catalog, run on the model\<close>

text \<open>
  The test module of \<open>src/catalog.rs\<close>. The temporary directory of a test is the directory \<open>/tmp/t\<close> of a
  machine that has nothing else, and a test that stores and loads runs the programs on it with
  nothing refused. \<open>spelling d1 d2\<close> is a text library that writes the documents \<open>d1\<close> and \<open>d2\<close> apart
  and reads each back.
\<close>

definition temporary_directory :: fs where
  "temporary_directory = \<lparr>nodes = [(True, [''tmp'']) \<mapsto> Dir 0x1FF, (True, [''tmp'', ''t'']) \<mapsto> Dir 0x1ED],
     fds = (\<lambda>_. None), holders = (\<lambda>_. None), next_fd = 0, umasked = 0x1A4\<rparr>"

definition catalog_json :: string where
  "catalog_json = ''/tmp/t/catalog.json''"

definition spelling :: "json \<Rightarrow> json \<Rightarrow> textlib" where
  "spelling d1 d2 = (reading d1)\<lparr>from_str := (\<lambda>t. Inr (if t = [CHR ''1'', CHR 0x0A] then d1 else d2)),
     to_string_pretty := (\<lambda>v. Inr (if v = d1 then [CHR ''1''] else [CHR ''2'']))\<rparr>"

definition parse_value :: "json \<Rightarrow> rejection + catalog" where
  "parse_value v = catalog_parse (reading v) []"

text \<open>An insert into a catalog that is expected to succeed, and one that may not.\<close>

definition inserted :: "string \<Rightarrow> string \<Rightarrow> catalog \<Rightarrow> catalog" where
  "inserted name path c = snd (catalog_insert (reading Null) name path c)"

definition insert_accepted :: "string \<Rightarrow> string \<Rightarrow> catalog \<Rightarrow> bool" where
  "insert_accepted name path c = (fst (catalog_insert (reading Null) name path c) = Ok ())"

fun rejected_as :: "rejection + 'a \<Rightarrow> code option" where
  "rejected_as (Inl r) = Some (rejection_code r)"
| "rejected_as (Inr a) = None"

definition an_absent_catalog_reads_as_empty :: bool where
  "an_absent_catalog_reads_as_empty =
     (case fst (run 1 (catalog_load_at (reading Null) catalog_json) [] temporary_directory) of
        Inr c \<Rightarrow> catalog_is_empty c
      | Inl _ \<Rightarrow> False)"

definition colourful :: "(string \<times> json) list \<Rightarrow> json" where
  "colourful others = json_object [(''catalog_version'', num_u64 1),
     (''databases'', json_object ((''work'', json_object [(''path'', String ''/srv/work.nostdb''),
        (''colour'', String ''blue'')]) # others)),
     (''written_by'', String ''a newer build'')]"

text \<open>\<open>document["databases"]["work"][k]\<close>.\<close>

definition in_work :: "json \<Rightarrow> string \<Rightarrow> json option" where
  "in_work document k =
     Option.bind (member ''databases'' document) (\<lambda>ds. Option.bind (member ''work'' ds) (member k))"

definition a_round_trip_preserves_an_unknown_member :: bool where
  "a_round_trip_preserves_an_unknown_member = (case parse_value (colourful []) of
     Inr c \<Rightarrow> (let document = to_document c in
       member ''written_by'' document = Some (String ''a newer build'') \<and>
       in_work document ''colour'' = Some (String ''blue'') \<and>
       in_work document ''path'' = Some (String ''/srv/work.nostdb''))
   | Inl _ \<Rightarrow> False)"

definition a_rewrite_after_removing_another_name_keeps_an_unknown_member :: bool where
  "a_rewrite_after_removing_another_name_keeps_an_unknown_member =
     (case parse_value (colourful [(''spare'', json_object [(''path'', String ''/srv/spare.nostdb'')])]) of
        Inr c \<Rightarrow> (let (removed, c') = catalog_remove ''spare'' c; document = to_document c' in
          removed \<and>
          member ''written_by'' document = Some (String ''a newer build'') \<and>
          in_work document ''colour'' = Some (String ''blue'') \<and>
          Option.bind (member ''databases'' document) (member ''spare'') = None)
      | Inl _ \<Rightarrow> False)"

definition a_store_then_load_round_trips :: bool where
  "a_store_then_load_round_trips =
     (let c = inserted ''work'' ''/srv/work.nostdb'' catalog_default;
          H = spelling (to_document c) Null;
          (stored, s) = run 1 (catalog_store H 1 c catalog_json) [] temporary_directory
      in insert_accepted ''work'' ''/srv/work.nostdb'' catalog_default \<and> stored = Ok () \<and>
         (case fst (run 1 (catalog_load_at H catalog_json) [] s) of
            Inr reloaded \<Rightarrow> map_option entry_path (catalog_get reloaded ''work'') = Some ''/srv/work.nostdb'' \<and>
              reloaded = c
          | Inl _ \<Rightarrow> False))"

text \<open>The listing has no other name than before, and the catalog's.\<close>

definition a_store_leaves_no_partial_file_behind :: bool where
  "a_store_leaves_no_partial_file_behind =
     (let (stored, s) = run 1 (catalog_store (spelling (to_document catalog_default) Null) 1 catalog_default
            catalog_json) [] temporary_directory
      in stored = Ok () \<and>
         (\<forall>k. nodes s k \<noteq> None \<longrightarrow> k = path_key catalog_json \<or> nodes temporary_directory k \<noteq> None))"

definition a_truncated_catalog_is_refused :: bool where
  "a_truncated_catalog_is_refused =
     (let H = (reading Null)\<lparr>from_str := (\<lambda>_. Inl ''EOF while parsing a string'')\<rparr>;
          s = temporary_directory\<lparr>nodes := (nodes temporary_directory)(path_key catalog_json \<mapsto>
            File 0x1A4 ''{\"catalog_version\": 1, \"databases\": {\"work\": {\"pat'')\<rparr>
      in (case fst (run 1 (catalog_load_at H catalog_json) [] s) of
            Inl (Rejected r) \<Rightarrow> rejection_code r = CatalogInvalid
          | _ \<Rightarrow> False))"

definition a_catalog_survives_a_write_that_replaces_it :: bool where
  "a_catalog_survives_a_write_that_replaces_it =
     (let c1 = inserted ''work'' ''/srv/a.nostdb'' catalog_default;
          c2 = inserted ''spare'' ''/srv/b.nostdb'' c1;
          H = spelling (to_document c1) (to_document c2);
          (stored, s) = run 1 (catalog_store H 1 c1 catalog_json) [] temporary_directory
      in stored = Ok () \<and>
         (case fst (run 1 (catalog_load_at H catalog_json) [] s) of
            Inr second \<Rightarrow>
             (let (again, s') = run 1 (catalog_store H 1 (inserted ''spare'' ''/srv/b.nostdb'' second)
                    catalog_json) [] s
              in again = Ok () \<and>
                (case fst (run 1 (catalog_load_at H catalog_json) [] s') of
                   Inr reloaded \<Rightarrow> catalog_names reloaded = [''spare'', ''work'']
                 | Inl _ \<Rightarrow> False))
          | Inl _ \<Rightarrow> False))"

definition an_unsupported_version_is_its_own_code :: bool where
  "an_unsupported_version_is_its_own_code =
     (rejected_as (parse_value (json_object [(''catalog_version'', num_u64 2), (''databases'', Object [])])) =
      Some CatalogVersionUnsupported)"

definition a_missing_version_is_not_the_unsupported_code :: bool where
  "a_missing_version_is_not_the_unsupported_code =
     (rejected_as (parse_value (json_object [(''databases'', Object [])])) = Some CatalogInvalid)"

definition target :: "string \<Rightarrow> json" where
  "target path = json_object [(''path'', String path)]"

definition every_problem_is_reported_rather_than_the_first :: bool where
  "every_problem_is_reported_rather_than_the_first =
     (case parse_value (json_object [(''catalog_version'', num_u64 1),
        (''databases'', json_object [(''work/main'', target ''/srv/a.nostdb''),
           (''@spare'', target ''/srv/b.nostdb''), (''third'', target ''relative.nostdb'')])]) of
        Inl r \<Rightarrow> rejection_code r = CatalogInvalid \<and> length (rejection_problems r) = 3
      | Inr _ \<Rightarrow> False)"

definition a_stale_target_is_not_a_catalog_problem :: bool where
  "a_stale_target_is_not_a_catalog_problem =
     (case parse_value (json_object [(''catalog_version'', num_u64 1),
        (''databases'', json_object [(''work'', target ''/nonexistent/disk/work.nostdb'')])]) of
        Inr c \<Rightarrow> map_option entry_path (catalog_get c ''work'') = Some ''/nonexistent/disk/work.nostdb''
      | Inl _ \<Rightarrow> False)"

definition insert_refuses_a_relative_path :: bool where
  "insert_refuses_a_relative_path =
     (let (r, c) = catalog_insert (reading Null) ''work'' ''./work.nostdb'' catalog_default
      in rejected_as r = Some CatalogInvalid \<and> catalog_is_empty c)"

definition insert_refuses_a_name_holding_a_path_separator :: bool where
  "insert_refuses_a_name_holding_a_path_separator =
     (\<not> insert_accepted ''work/main'' ''/srv/a.nostdb'' catalog_default \<and>
      \<not> insert_accepted ''@work'' ''/srv/a.nostdb'' catalog_default \<and>
      \<not> insert_accepted [] ''/srv/a.nostdb'' catalog_default)"

definition one_database_may_carry_two_names :: bool where
  "one_database_may_carry_two_names =
     (let c1 = inserted ''work'' ''/srv/w.nostdb'' catalog_default
      in insert_accepted ''work'' ''/srv/w.nostdb'' catalog_default \<and>
         insert_accepted ''work-mirror'' ''/srv/w.nostdb'' c1 \<and>
         catalog_names (inserted ''work-mirror'' ''/srv/w.nostdb'' c1) = [''work'', ''work-mirror''])"

definition an_empty_catalog_writes_an_empty_object :: bool where
  "an_empty_catalog_writes_an_empty_object =
     (let document = to_document catalog_default
      in (case member ''databases'' document of Some (Object m) \<Rightarrow> True | _ \<Rightarrow> False) \<and>
         member ''catalog_version'' document = Some (num_u64 1))"

lemma catalog_document_tests_pass:
  "a_round_trip_preserves_an_unknown_member"
  "a_rewrite_after_removing_another_name_keeps_an_unknown_member"
  "an_unsupported_version_is_its_own_code" "a_missing_version_is_not_the_unsupported_code"
  "every_problem_is_reported_rather_than_the_first" "a_stale_target_is_not_a_catalog_problem"
  "insert_refuses_a_relative_path" "insert_refuses_a_name_holding_a_path_separator"
  "one_database_may_carry_two_names" "an_empty_catalog_writes_an_empty_object"
  by code_simp+

lemma catalog_file_tests_pass:
  "an_absent_catalog_reads_as_empty" "a_store_then_load_round_trips"
  "a_truncated_catalog_is_refused" "a_catalog_survives_a_write_that_replaces_it"
  by code_simp+

lemma a_store_leaves_no_partial_file_behind_passes: "a_store_leaves_no_partial_file_behind"
proof -
  let ?H = "spelling (to_document catalog_default) Null"
  have key: "path_key catalog_json = (True, [''tmp'', ''t'', ''catalog.json''])" by code_simp
  have printed: "to_string_pretty ?H (to_document catalog_default) = Inr ''1''" by (simp add: spelling_def)
  have dirs: "path_prefixes (True, [''tmp'', ''t'']) = [(True, [''tmp'']), (True, [''tmp'', ''t''])]" by code_simp
  have name: "temp_name n \<noteq> ''catalog.json''" for n by (simp add: temp_name_def)
  have "\<exists>s. run 1 (catalog_store ?H 1 catalog_default catalog_json) [] temporary_directory = (Ok (), s) \<and>
    nodes s = (nodes temporary_directory)(path_key catalog_json \<mapsto> File 0x1A4 [CHR ''1'', CHR 0x0A])"
    by (simp add: catalog_store_def key printed parent_key_def child_key_def io_call_def io_ret_def Let_def
        exec_ok.simps dirs temporary_directory_def has_dir_def is_dir_def name fun_eq_iff del: One_nat_def)
  then show ?thesis by (auto simp: a_store_leaves_no_partial_file_behind_def)
qed

end
