(* ===== verification/SessionTests.thy ===== *)
theory SessionTests
  imports Session CatalogTests
begin

section \<open>The unit tests of sessions, run on the model\<close>

text \<open>
  The test module of \<open>src/session.rs\<close>, for any Engine and any absolute path. The tests create a
  database at the path first: what they rely on is that the Engine then opens it, \<open>opens\<close>.
\<close>

definition opens :: "('w, 'db, 'tx, 'q, 'r, 's) engine \<Rightarrow> string \<Rightarrow> bool" where
  "opens E path = (\<forall>w. \<exists>db w'. db_open E path w = (Inr db, w'))"

definition catalog_with_a_database :: "string \<Rightarrow> catalog" where
  "catalog_with_a_database path = inserted ''work'' path catalog_default"

definition a_session_opens_against_a_catalogued_database ::
  "('w, 'db, 'tx, 'q, 'r, 's) engine \<Rightarrow> string \<Rightarrow> 'w \<Rightarrow> bool" where
  "a_session_opens_against_a_catalogued_database E path w =
     (let (i, sl, w) = slot_open E ''work'' (catalog_with_a_database path) slot_new w
      in i = Ok ''s1'' \<and> slot_is_open sl \<and>
         (case slot_resolve None sl of Inr s \<Rightarrow> sess_path s = path | Inl _ \<Rightarrow> False))"

definition a_second_open_session_on_one_connection_is_refused ::
  "('w, 'db, 'tx, 'q, 'r, 's) engine \<Rightarrow> string \<Rightarrow> 'w \<Rightarrow> bool" where
  "a_second_open_session_on_one_connection_is_refused E path w =
     (let c = catalog_with_a_database path;
          (first, sl, w) = slot_open E ''work'' c slot_new w;
          (second, sl, w) = slot_open E ''work'' c sl w
      in (case first of Inr i \<Rightarrow> True | Inl _ \<Rightarrow> False) \<and>
         (case second of
            Inl (OpenRefused r) \<Rightarrow> refusal_rule r = SecondSessionOnOneConnection
          | _ \<Rightarrow> False))"

definition a_name_the_catalog_does_not_hold_is_not_a_storage_failure ::
  "('w, 'db, 'tx, 'q, 'r, 's) engine \<Rightarrow> string \<Rightarrow> 'w \<Rightarrow> bool" where
  "a_name_the_catalog_does_not_hold_is_not_a_storage_failure E path w =
     (case slot_open E ''absent'' (catalog_with_a_database path) slot_new w of
        (Inl (UnknownName name), sl, w) \<Rightarrow> name = ''absent''
      | _ \<Rightarrow> False)"

definition a_stale_catalog_target_fails_the_open_rather_than_the_catalog ::
  "('w, 'db, 'tx, 'q, 'r, 's) engine \<Rightarrow> 'w \<Rightarrow> bool" where
  "a_stale_catalog_target_fails_the_open_rather_than_the_catalog E w =
     (insert_accepted ''work'' ''/nonexistent/disk/root.nostdb'' catalog_default \<and>
      (case slot_open E ''work'' (inserted ''work'' ''/nonexistent/disk/root.nostdb'' catalog_default) slot_new w of
         (Inl (OpenStorage e), sl, w) \<Rightarrow> \<not> slot_is_open sl
       | _ \<Rightarrow> False))"

definition a_request_naming_another_session_is_refused ::
  "('w, 'db, 'tx, 'q, 'r, 's) engine \<Rightarrow> string \<Rightarrow> 'w \<Rightarrow> bool" where
  "a_request_naming_another_session_is_refused E path w =
     (let (i, sl, w) = slot_open E ''work'' (catalog_with_a_database path) slot_new w
      in (case i of Inr _ \<Rightarrow> True | Inl _ \<Rightarrow> False) \<and>
         refused_by (slot_resolve (Some ''s99'') sl) = Some UnknownSession)"

definition a_request_before_any_session_is_refused_as_unknown_session :: bool where
  "a_request_before_any_session_is_refused_as_unknown_session =
     (refused_by (slot_resolve None (slot_new :: unit slot)) = Some UnknownSession)"

definition closing_reports_whether_there_was_a_session ::
  "('w, 'db, 'tx, 'q, 'r, 's) engine \<Rightarrow> string \<Rightarrow> 'w \<Rightarrow> bool" where
  "closing_reports_whether_there_was_a_session E path w =
     (let (closed1, sl, w) = slot_close E slot_new w;
          (i, sl, w) = slot_open E ''work'' (catalog_with_a_database path) sl w;
          (closed2, sl, w) = slot_close E sl w
      in \<not> closed1 \<and> (case i of Inr _ \<Rightarrow> True | Inl _ \<Rightarrow> False) \<and> closed2 \<and> \<not> slot_is_open sl)"

definition a_reopened_session_gets_a_new_identifier ::
  "('w, 'db, 'tx, 'q, 'r, 's) engine \<Rightarrow> string \<Rightarrow> 'w \<Rightarrow> bool" where
  "a_reopened_session_gets_a_new_identifier E path w =
     (let c = catalog_with_a_database path;
          (first, sl, w) = slot_open E ''work'' c slot_new w;
          (closed, sl, w) = slot_close E sl w;
          (second, sl, w) = slot_open E ''work'' c sl w
      in first = Ok ''s1'' \<and> second = Ok ''s2'')"

lemma session_names [simp]: "session_id_of 1 = ''s1''" "session_id_of 2 = ''s2''"
  by code_simp+

lemma catalogued:
  "is_absolute path \<Longrightarrow> catalog_get (catalog_with_a_database path) ''work'' =
     Some \<lparr>entry_path = path, entry_unknown = []\<rparr>"
  "is_absolute path \<Longrightarrow> catalog_get (catalog_with_a_database path) ''absent'' = None"
proof -
  assume abs: "is_absolute path"
  have "name_problem (reading Null) ''work'' = None" by code_simp
  moreover have "path_problem path = None"
    using abs by (auto simp: path_problem_def is_absolute_def)
  ultimately have "catalog_with_a_database path =
      \<lparr>databases = [(''work'', \<lparr>entry_path = path, entry_unknown = []\<rparr>)], cat_unknown = []\<rparr>"
    by (simp add: catalog_with_a_database_def inserted_def catalog_insert_def insert_problems_def
        catalog_default_def bt_get_def bt_insert.simps)
  then show "catalog_get (catalog_with_a_database path) ''work'' =
     Some \<lparr>entry_path = path, entry_unknown = []\<rparr>"
    "catalog_get (catalog_with_a_database path) ''absent'' = None"
    by (simp_all add: catalog_get_def bt_get_def)
qed

lemmas session_steps = slot_open_def slot_new_def slot_resolve_def slot_close_def slot_is_open_def
  catalogued Let_def

lemma session_tests_pass:
  assumes "opens E path" "is_absolute path"
  shows "a_session_opens_against_a_catalogued_database E path w"
    "a_second_open_session_on_one_connection_is_refused E path w"
    "a_name_the_catalog_does_not_hold_is_not_a_storage_failure E path w"
    "a_request_naming_another_session_is_refused E path w"
    "a_request_before_any_session_is_refused_as_unknown_session"
    "closing_reports_whether_there_was_a_session E path w"
    "a_reopened_session_gets_a_new_identifier E path w"
proof -
  obtain db w1 where "db_open E path w = (Inr db, w1)"
    using assms(1) unfolding opens_def by blast
  moreover obtain db' w2 where "db_open E path (db_drop E db w1) = (Inr db', w2)"
    using assms(1) unfolding opens_def by blast
  ultimately show "a_session_opens_against_a_catalogued_database E path w"
    "a_second_open_session_on_one_connection_is_refused E path w"
    "a_name_the_catalog_does_not_hold_is_not_a_storage_failure E path w"
    "a_request_naming_another_session_is_refused E path w"
    "a_request_before_any_session_is_refused_as_unknown_session"
    "closing_reports_whether_there_was_a_session E path w"
    "a_reopened_session_gets_a_new_identifier E path w"
    using assms(2)
    by (simp_all add: session_steps a_session_opens_against_a_catalogued_database_def
        a_second_open_session_on_one_connection_is_refused_def
        a_name_the_catalog_does_not_hold_is_not_a_storage_failure_def
        a_request_naming_another_session_is_refused_def
        a_request_before_any_session_is_refused_as_unknown_session_def
        closing_reports_whether_there_was_a_session_def a_reopened_session_gets_a_new_identifier_def)
qed

text \<open>A path the Engine cannot open fails the open and leaves no session.\<close>

lemma stale_target_test_passes:
  assumes "db_open E ''/nonexistent/disk/root.nostdb'' w = (Inl e, w')"
  shows "a_stale_catalog_target_fails_the_open_rather_than_the_catalog E w"
proof -
  have abs: "is_absolute ''/nonexistent/disk/root.nostdb''" by code_simp
  have "insert_accepted ''work'' ''/nonexistent/disk/root.nostdb'' catalog_default" by code_simp
  with catalogued(1) [OF abs] assms show ?thesis
    by (simp add: a_stale_catalog_target_fails_the_open_rather_than_the_catalog_def slot_open_def
        slot_new_def slot_is_open_def catalog_with_a_database_def)
qed

end
