(* ===== verification/LockTests.thy ===== *)
theory LockTests
  imports Endpoint
begin

section \<open>The unit tests of the lock and of the endpoint, run on the model\<close>

text \<open>
  The test modules of \<open>src/lock.rs\<close> and \<open>src/endpoint.rs\<close>. The scratch directory of a test is \<open>/tmp/t\<close>
  of a machine that has nothing else; what a test widens is that directory. A test is one
  process, and two acquisitions by it have two handles of their own. A client can connect to a socket
  when the listener it was bound by is open.
\<close>

definition scratch :: "u32 \<Rightarrow> fs" where
  "scratch mode = \<lparr>nodes = [(True, [''tmp'']) \<mapsto> Dir 0x1FF, (True, [''tmp'', ''t'']) \<mapsto> Dir mode],
     fds = (\<lambda>_. None), holders = (\<lambda>_. None), next_fd = 0, umasked = 0x1A4\<rparr>"

definition scratch_key :: fpath where
  "scratch_key = (True, [''tmp'', ''t''])"

definition test_lock :: string where "test_lock = ''/tmp/t/daemon.lock''"
definition test_socket :: string where "test_socket = ''/tmp/t/nostdb.sock''"

definition mode_bits :: "fs \<Rightarrow> fpath \<Rightarrow> u32 option" where
  "mode_bits s k = map_option (\<lambda>n. node_mode n AND mode_0777) (nodes s k)"

definition a_first_acquisition_succeeds :: bool where
  "a_first_acquisition_succeeds =
     (case fst (run 1 (acquire test_lock) [] (scratch 0x1ED)) of
        Inr (Acquired g) \<Rightarrow> guard_path g = test_lock
      | _ \<Rightarrow> False)"

definition a_second_acquisition_while_held_reports_already_held :: bool where
  "a_second_acquisition_while_held_reports_already_held =
     (case run 1 (acquire test_lock) [] (scratch 0x1ED) of
        (Inr (Acquired g), s) \<Rightarrow> fst (run 1 (acquire test_lock) [] s) = Ok AlreadyHeld
      | _ \<Rightarrow> False)"

definition a_released_lock_can_be_acquired_again :: bool where
  "a_released_lock_can_be_acquired_again =
     (case run 1 (acquire test_lock) [] (scratch 0x1ED) of
        (Inr (Acquired g), s) \<Rightarrow>
          (let (u, s') = run 1 (guard_drop g (Ret ())) [] s
           in nodes s' (path_key test_lock) \<noteq> None \<and>
              (case fst (run 1 (acquire test_lock) [] s') of Inr (Acquired g') \<Rightarrow> True | _ \<Rightarrow> False))
      | _ \<Rightarrow> False)"

definition the_lock_directory_is_restricted_to_the_current_user :: bool where
  "the_lock_directory_is_restricted_to_the_current_user =
     (case run 1 (acquire test_lock) [] (scratch 0x1FF) of
        (Inr guard, s) \<Rightarrow> mode_bits s scratch_key = Some 0x1C0
      | _ \<Rightarrow> False)"

definition can_connect :: "fs \<Rightarrow> string \<Rightarrow> bool" where
  "can_connect s address = (case nodes s (path_key address) of
     Some (Sock m h) \<Rightarrow> fds s h \<noteq> None
   | _ \<Rightarrow> False)"

definition a_bound_socket_is_reachable_and_restricted :: bool where
  "a_bound_socket_is_reachable_and_restricted =
     (case run 1 (endpoint_bind test_socket) [] (scratch 0x1ED) of
        (Inr l, s) \<Rightarrow> listener_address l = test_socket \<and>
          mode_bits s (path_key test_socket) = Some 0x180 \<and> can_connect s test_socket
      | _ \<Rightarrow> False)"

text \<open>Forgetting the first listener leaves its file and its handle.\<close>

definition a_leftover_socket_file_does_not_block_a_bind :: bool where
  "a_leftover_socket_file_does_not_block_a_bind =
     (case run 1 (endpoint_bind test_socket) [] (scratch 0x1ED) of
        (Inr l, s) \<Rightarrow> nodes s (path_key test_socket) \<noteq> None \<and>
          (case run 1 (endpoint_bind test_socket) [] s of
             (Inr l2, s2) \<Rightarrow> listener_address l2 = test_socket
           | _ \<Rightarrow> False)
      | _ \<Rightarrow> False)"

definition the_run_directory_is_restricted_even_when_it_already_existed_wide_open :: bool where
  "the_run_directory_is_restricted_even_when_it_already_existed_wide_open =
     (case run 1 (endpoint_bind test_socket) [] (scratch 0x1FF) of
        (Inr l, s) \<Rightarrow> mode_bits s scratch_key = Some 0x1C0
      | _ \<Rightarrow> False)"

lemma lock_tests_pass:
  "a_first_acquisition_succeeds" "a_second_acquisition_while_held_reports_already_held"
  "a_released_lock_can_be_acquired_again" "the_lock_directory_is_restricted_to_the_current_user"
  by code_simp+

lemma endpoint_tests_pass:
  "a_bound_socket_is_reachable_and_restricted" "a_leftover_socket_file_does_not_block_a_bind"
  "the_run_directory_is_restricted_even_when_it_already_existed_wide_open"
  by code_simp+

end
