(* ===== verification/ConversationTests.thy ===== *)
theory ConversationTests
  imports ConnLife CatalogTests
begin

section \<open>The conversation tests, run on the model\<close>

text \<open>
  \<open>src/tests/conversation.rs\<close>: whole conversations of clients with \<open>serve_connection\<close>. The Engine is
  not in the repository: \<open>small_engine\<close> stands in for it, one list of names with a generation,
  snapshots for transactions, and the statements of the tests. A conversation is given as the JSON
  values the client sends, \<open>talking\<close> being the text library that reads the \<open>n\<close>th message as the \<open>n\<close>th
  value; the connection is the machine \<open>conn_life\<close>, which \<open>ServeProps\<close> shows to be what
  \<open>serve_connection\<close> does. The client closes its end after its last message. The limits are small, so
  that the conversations can be evaluated, and larger than anything said in them.
\<close>

subsection \<open>A small Engine\<close>

datatype statement_kind = Create "string list" | ReturnNames | ReturnCount

record small_world =
  generation :: u64
  stored_names :: "string list"

record small_tx =
  began_at :: u64
  working :: "string list"
  wrote :: bool

definition parse_statement :: "string \<Rightarrow> query_error + statement_kind" where
  "parse_statement t =
     (if t = ''MATCH (s:Service) RETURN s.name AS name'' then Inr ReturnNames
      else if t = ''MATCH (n) RETURN count(n) AS total'' \<or> t = ''MATCH (n) RETURN n'' then Inr ReturnCount
      else if t = ''MATCH (n) RETURN'' then Inl (QueryError ''CYPHER_SYNTAX'' ''expected an expression'')
      else if t = ''CREATE (:Service {name: a}) CREATE (:Service {name: b})'' then Inr (Create [''a'', ''b''])
      else Inr (Create [''checkout'']))"

fun run_statement ::
  "statement_kind \<Rightarrow> nat \<Rightarrow> small_tx \<Rightarrow> small_world \<Rightarrow> (query_error + string list) \<times> small_tx \<times> small_world"
  where
  "run_statement q timeout tx w =
     (if timeout < 2 then (Inl (QueryError ''QUERY_CANCELLED'' ''the query ran into its timeout''), tx, w)
      else (case q of
         Create ns \<Rightarrow> (Inr [], tx\<lparr>working := working tx @ ns, wrote := True\<rparr>, w)
       | ReturnNames \<Rightarrow> (Inr (working tx), tx, w)
       | ReturnCount \<Rightarrow> (Inr [show_nat (length (working tx))], tx, w)))"

definition small_engine :: "(small_world, unit, small_tx, statement_kind, string list, bool) engine" where
  "small_engine = \<lparr>
     read_file = (\<lambda>p w. (Inr ''catalog'', w)),
     db_open = (\<lambda>p w. (Inr (), w)), db_drop = (\<lambda>db w. w),
     cypher_parse = parse_statement,
     tx_begin = (\<lambda>db w. (Inr \<lparr>began_at = generation w, working = stored_names w, wrote = False\<rparr>, w)),
     tx_base = began_at, tx_run = run_statement, tx_writes = wrote,
     tx_commit = (\<lambda>tx w. (Inr (generation w + 1), (), w\<lparr>generation := generation w + 1, stored_names := working tx\<rparr>)),
     tx_rollback = (\<lambda>tx w. ((), w)), writes_empty = Not, row_count = length,
     envelope_json = (\<lambda>rows g s. json_object [(''result_version'', num_u64 1),
       (''rows'', Array (map String rows)), (''generation'', num_u64 g)])\<rparr>"

definition new_database :: small_world where
  "new_database = \<lparr>generation = 1, stored_names = []\<rparr>"

subsection \<open>A client\<close>

definition fixture_json :: json where
  "fixture_json = to_document (inserted ''work'' ''/tmp/t/root.nostdb'' catalog_default)"

definition talking :: "json list \<Rightarrow> textlib" where
  "talking ms = (reading Null)\<lparr>from_str := (\<lambda>t. if t = ''catalog'' then Inr fixture_json
       else if read_nat t < length ms then Inr (ms ! read_nat t) else Inl ''expected value''),
     to_string := (\<lambda>_. Inr ''{}'')\<rparr>"

definition small_limits :: limits where
  "small_limits = \<lparr>max_frame_bytes = 16, max_result_rows = 9, query_timeout = 2\<rparr>"

definition talk ::
  "limits \<Rightarrow> (unit, small_tx) conn \<Rightarrow> json list \<Rightarrow> small_world \<Rightarrow>
   (ended + (unit, small_tx) conn) \<times> json list \<times> small_world" where
  "talk lim cn ms w =
     conn_life (talking ms) small_engine lim ''/tmp/t/catalog.json'' ''/test/endpoint'' cn
       (map (\<lambda>n. Body (show_nat n)) [0..<length ms]) w"

definition conversation :: "limits \<Rightarrow> json list \<Rightarrow> small_world \<Rightarrow> ended \<times> json list \<times> small_world" where
  "conversation lim ms w =
     (case conn_life (talking ms) small_engine lim ''/tmp/t/catalog.json'' ''/test/endpoint'' Greeting
         (map (\<lambda>n. Body (show_nat n)) [0..<length ms] @ [EndOfStream Closed]) w of
        (Inl x, replies, w') \<Rightarrow> (x, replies, w')
      | (Inr cn, replies, w') \<Rightarrow> (TransportFailed, replies, w'))"

definition shake :: "u64 list \<Rightarrow> json" where
  "shake versions = json_object [(''message'', String ''hello''), (''client'', String ''conversation-test''),
     (''supported_versions'', Array (map num_u64 versions))]"

definition asks :: "string \<Rightarrow> string \<Rightarrow> (string \<times> json) list \<Rightarrow> json" where
  "asks i operation others = json_object ([(''server_protocol_version'', num_u64 1),
     (''request_id'', String i), (''operation'', String operation)] @ others)"

definition in_s1 :: "string \<times> json" where
  "in_s1 = (''session_id'', String ''s1'')"

definition queries :: "string \<Rightarrow> string \<Rightarrow> json" where
  "queries i stmt = asks i ''query'' [in_s1, (''database'', String ''work''), (''statement'', String stmt)]"

text \<open>The usual opening.\<close>

definition opened :: "json list" where
  "opened = [shake [1], asks ''open'' ''open_session'' [(''database'', String ''work'')]]"

text \<open>\<open>reply["outcome"]\<close>, and a member of \<open>reply["result"]\<close>.\<close>

definition outcome_is :: "string \<Rightarrow> json \<Rightarrow> bool" where
  "outcome_is t reply = (member ''outcome'' reply = Some (String t))"

definition result_of :: "json \<Rightarrow> string \<Rightarrow> json option" where
  "result_of reply k = Option.bind (member ''result'' reply) (member k)"

definition rule_of :: "json \<Rightarrow> json option" where
  "rule_of reply = member ''rule'' reply"

subsection \<open>The conversations\<close>

definition a_handshake_then_a_read_query_returns_an_envelope :: bool where
  "a_handshake_then_a_read_query_returns_an_envelope =
     (let (x, replies, w) = conversation small_limits (opened @ [queries ''q1'' ''MATCH (n) RETURN count(n) AS total'']) new_database
      in outcome_is ''ok'' (replies ! 1) \<and> outcome_is ''ok'' (replies ! 2) \<and>
         member ''request_id'' (replies ! 2) = Some (String ''q1'') \<and>
         result_of (replies ! 2) ''result_version'' = Some (num_u64 1) \<and> x = ClientClosed)"

definition a_write_commits_and_a_later_read_sees_it :: bool where
  "a_write_commits_and_a_later_read_sees_it =
     (let (x, replies, w) = conversation small_limits (opened @ [queries ''w1'' ''CREATE (:Service {name: checkout})'',
          queries ''r1'' ''MATCH (s:Service) RETURN s.name AS name'']) new_database
      in outcome_is ''ok'' (replies ! 2) \<and> outcome_is ''ok'' (replies ! 3) \<and>
         result_of (replies ! 3) ''rows'' = Some (Array [String ''checkout'']) \<and> x = ClientClosed)"

definition a_rolled_back_transaction_leaves_nothing_behind :: bool where
  "a_rolled_back_transaction_leaves_nothing_behind =
     (let (x, replies, w) = conversation small_limits (opened @ [asks ''b1'' ''begin'' [in_s1],
          queries ''w1'' ''CREATE (:Service {name: checkout})'', asks ''rb'' ''rollback'' [in_s1],
          queries ''r1'' ''MATCH (s:Service) RETURN s.name AS name'']) new_database
      in list_all (outcome_is ''ok'') (take 3 (drop 2 replies)) \<and>
         result_of (replies ! 4) ''rolled_back'' = Some (Bool True) \<and>
         result_of (replies ! 5) ''rows'' = Some (Array []) \<and> x = ClientClosed)"

definition a_committed_transaction_advances_the_generation :: bool where
  "a_committed_transaction_advances_the_generation =
     (let (x, replies, w) = conversation small_limits (opened @ [asks ''b1'' ''begin'' [in_s1],
          queries ''w1'' ''CREATE (:Service {name: checkout})'', asks ''c1'' ''commit'' [in_s1]]) new_database
      in outcome_is ''ok'' (replies ! 3) \<and> outcome_is ''ok'' (replies ! 4) \<and>
         (case (result_of (replies ! 2) ''base_generation'', result_of (replies ! 4) ''generation'') of
            (Some (Number (NumU64 base)), Some (Number (NumU64 committed))) \<Rightarrow> committed > base
          | _ \<Rightarrow> False) \<and> x = ClientClosed)"

definition dropping_a_connection_inside_a_transaction_rolls_it_back :: bool where
  "dropping_a_connection_inside_a_transaction_rolls_it_back =
     (let (x, replies, w) = conversation small_limits (opened @ [asks ''b1'' ''begin'' [in_s1],
            queries ''w1'' ''CREATE (:Service {name: checkout})'']) new_database;
          (x2, replies2, w2) = conversation small_limits (opened @ [queries ''r1'' ''MATCH (s:Service) RETURN s.name AS name'']) w
      in outcome_is ''ok'' (replies ! 2) \<and> outcome_is ''ok'' (replies ! 3) \<and> x = ClientClosed \<and>
         result_of (replies2 ! 2) ''rows'' = Some (Array []) \<and> generation w2 = 1)"

definition a_client_speaking_no_common_version_is_refused_and_closed :: bool where
  "a_client_speaking_no_common_version_is_refused_and_closed =
     (let (x, replies, w) = conversation small_limits ([shake [99]]) new_database
      in member ''message'' (replies ! 0) = Some (String ''refused'') \<and>
         member ''code'' (replies ! 0) = Some (String ''SERVER_PROTOCOL_UNSUPPORTED'') \<and>
         member ''supported_versions'' (replies ! 0) = Some (Array [num_u64 1]) \<and>
         member ''server_protocol_version'' (replies ! 0) = None \<and> x = HandshakeRefused)"

definition a_request_before_the_handshake_is_refused :: bool where
  "a_request_before_the_handshake_is_refused =
     (let (x, replies, w) = conversation small_limits ([asks ''r1'' ''status'' []]) new_database
      in member ''message'' (replies ! 0) = Some (String ''refused'') \<and> x = HandshakeRefused)"

definition a_second_open_session_is_refused_and_the_connection_survives :: bool where
  "a_second_open_session_is_refused_and_the_connection_survives =
     (let (x, replies, w) = conversation small_limits (opened @ [asks ''open2'' ''open_session''
          [(''database'', String ''work'')], queries ''r1'' ''MATCH (n) RETURN count(n) AS total'']) new_database
      in outcome_is ''error'' (replies ! 2) \<and>
         rule_of (replies ! 2) = Some (String ''second_session_on_one_connection'') \<and>
         outcome_is ''ok'' (replies ! 3) \<and> x = ClientClosed)"

definition a_query_before_any_session_is_refused_as_unknown_session :: bool where
  "a_query_before_any_session_is_refused_as_unknown_session =
     (let (x, replies, w) = conversation small_limits ([shake [1], asks ''q1'' ''query''
          [(''database'', String ''work''), (''statement'', String ''MATCH (n) RETURN n'')]]) new_database
      in member ''message'' (replies ! 0) = Some (String ''welcome'') \<and> outcome_is ''error'' (replies ! 1) \<and>
         rule_of (replies ! 1) = Some (String ''unknown_session''))"

definition an_unparseable_statement_reports_the_engines_own_code :: bool where
  "an_unparseable_statement_reports_the_engines_own_code =
     (let (x, replies, w) = conversation small_limits (opened @ [queries ''q1'' ''MATCH (n) RETURN'']) new_database
      in outcome_is ''error'' (replies ! 2) \<and> member ''code'' (replies ! 2) = None \<and>
         (case member ''diagnostics'' (replies ! 2) of
            Some (Array [d]) \<Rightarrow> member ''code'' d = Some (String ''CYPHER_SYNTAX'')
          | _ \<Rightarrow> False))"

definition a_nested_begin_is_refused_and_the_transaction_survives :: bool where
  "a_nested_begin_is_refused_and_the_transaction_survives =
     (let (x, replies, w) = conversation small_limits (opened @ [asks ''b1'' ''begin'' [in_s1],
          asks ''b2'' ''begin'' [in_s1], asks ''s1'' ''status'' [in_s1], asks ''rb'' ''rollback'' [in_s1]]) new_database
      in outcome_is ''ok'' (replies ! 2) \<and> outcome_is ''error'' (replies ! 3) \<and>
         result_of (replies ! 4) ''in_transaction'' = Some (Bool True) \<and> outcome_is ''ok'' (replies ! 5))"

definition a_commit_with_no_transaction_is_an_error_not_a_refusal :: bool where
  "a_commit_with_no_transaction_is_an_error_not_a_refusal =
     (let (x, replies, w) = conversation small_limits (opened @ [asks ''c1'' ''commit'' [in_s1]]) new_database
      in outcome_is ''error'' (replies ! 2) \<and> rule_of (replies ! 2) = None)"

definition a_result_larger_than_the_ceiling_reports_which_limit_stopped_it :: bool where
  "a_result_larger_than_the_ceiling_reports_which_limit_stopped_it =
     (let (x, replies, w) = conversation (small_limits\<lparr>max_result_rows := 1\<rparr>) (opened @
          [queries ''w'' ''CREATE (:Service {name: a}) CREATE (:Service {name: b})'',
           queries ''q'' ''MATCH (s:Service) RETURN s.name AS name'']) new_database
      in outcome_is ''ok'' (replies ! 2) \<and> outcome_is ''error'' (replies ! 3) \<and>
         member ''limit'' (replies ! 3) = Some (String ''max_result_rows''))"

definition an_unknown_operation_does_not_end_the_connection :: bool where
  "an_unknown_operation_does_not_end_the_connection =
     (let (x, replies, w) = conversation small_limits (opened @ [asks ''x1'' ''vacuum'' [], asks ''s1'' ''status'' [in_s1]]) new_database
      in rule_of (replies ! 2) = Some (String ''unknown_operation'') \<and> outcome_is ''ok'' (replies ! 3) \<and> x = ClientClosed)"

definition shutdown_ends_the_connection_and_says_so :: bool where
  "shutdown_ends_the_connection_and_says_so =
     (let (x, replies, w) = conversation small_limits (opened @ [asks ''down'' ''shutdown'' []]) new_database
      in outcome_is ''ok'' (replies ! 2) \<and> x = ShutdownRequested)"

text \<open>The first client's messages up to its write, the second client's conversation, the rest of the first's.\<close>

definition two_connections_each_get_their_own_session :: bool where
  "two_connections_each_get_their_own_session =
     (case talk small_limits Greeting (opened @ [asks ''b1'' ''begin'' [in_s1],
         queries ''w1'' ''CREATE (:Service {name: checkout})'']) new_database of
        (Inr first, replies1, w1) \<Rightarrow>
          (let (x2, replies2, w2) = conversation small_limits
                 (opened @ [queries ''r1'' ''MATCH (s:Service) RETURN s.name AS name'']) w1;
               (x1, replies3, w3) = talk small_limits first [asks ''rb'' ''rollback'' [in_s1]] w2
           in result_of (replies1 ! 1) ''session_id'' = result_of (replies2 ! 1) ''session_id'' \<and>
              outcome_is ''ok'' (replies1 ! 2) \<and> outcome_is ''ok'' (replies1 ! 3) \<and>
              result_of (replies2 ! 2) ''rows'' = Some (Array []) \<and> outcome_is ''ok'' (replies3 ! 0))
      | _ \<Rightarrow> False)"

definition a_session_naming_an_unregistered_database_reports_it :: bool where
  "a_session_naming_an_unregistered_database_reports_it =
     (let (x, replies, w) = conversation small_limits ([shake [1],
          asks ''o1'' ''open_session'' [(''database'', String ''absent'')],
          asks ''o2'' ''open_session'' [(''database'', String ''work'')]]) new_database
      in outcome_is ''error'' (replies ! 1) \<and>
         member ''detail'' (replies ! 1) = Some (String ''the catalog holds no database named absent'') \<and>
         outcome_is ''ok'' (replies ! 2) \<and> x = ClientClosed)"

definition a_database_path_is_refused_rather_than_resolved :: bool where
  "a_database_path_is_refused_rather_than_resolved =
     (let (x, replies, w) = conversation small_limits ([shake [1],
          asks ''o1'' ''open_session'' [(''database'', String ''/tmp/t/root.nostdb'')]]) new_database
      in rule_of (replies ! 1) = Some (String ''database_is_a_path''))"

definition a_query_past_its_timeout_is_stopped :: bool where
  "a_query_past_its_timeout_is_stopped =
     (let (x, replies, w) = conversation (small_limits\<lparr>query_timeout := 1\<rparr>) (opened @ [queries ''q1'' ''MATCH (n) RETURN n'']) new_database
      in outcome_is ''error'' (replies ! 2) \<and>
         (case member ''diagnostics'' (replies ! 2) of
            Some (Array [d]) \<Rightarrow> member ''code'' d = Some (String ''QUERY_CANCELLED'')
          | _ \<Rightarrow> False))"

definition a_query_within_its_timeout_completes :: bool where
  "a_query_within_its_timeout_completes =
     (let (x, replies, w) = conversation small_limits (opened @ [queries ''q1'' ''MATCH (n) RETURN count(n) AS total'']) new_database
      in outcome_is ''ok'' (replies ! 2))"

lemma a_handshake_then_a_read_query_returns_an_envelope_passes: "a_handshake_then_a_read_query_returns_an_envelope"
  by code_simp

lemma a_write_commits_and_a_later_read_sees_it_passes: "a_write_commits_and_a_later_read_sees_it"
  by code_simp

lemma a_rolled_back_transaction_leaves_nothing_behind_passes: "a_rolled_back_transaction_leaves_nothing_behind"
  by code_simp

lemma a_committed_transaction_advances_the_generation_passes: "a_committed_transaction_advances_the_generation"
  by code_simp

lemma dropping_a_connection_inside_a_transaction_rolls_it_back_passes: "dropping_a_connection_inside_a_transaction_rolls_it_back"
  by code_simp

lemma a_client_speaking_no_common_version_is_refused_and_closed_passes: "a_client_speaking_no_common_version_is_refused_and_closed"
  by code_simp

lemma a_request_before_the_handshake_is_refused_passes: "a_request_before_the_handshake_is_refused"
  by code_simp

lemma a_second_open_session_is_refused_and_the_connection_survives_passes: "a_second_open_session_is_refused_and_the_connection_survives"
  by code_simp

lemma a_query_before_any_session_is_refused_as_unknown_session_passes: "a_query_before_any_session_is_refused_as_unknown_session"
  by code_simp

lemma an_unparseable_statement_reports_the_engines_own_code_passes: "an_unparseable_statement_reports_the_engines_own_code"
  by code_simp

lemma a_nested_begin_is_refused_and_the_transaction_survives_passes: "a_nested_begin_is_refused_and_the_transaction_survives"
  by code_simp

lemma a_commit_with_no_transaction_is_an_error_not_a_refusal_passes: "a_commit_with_no_transaction_is_an_error_not_a_refusal"
  by code_simp

lemma a_result_larger_than_the_ceiling_reports_which_limit_stopped_it_passes: "a_result_larger_than_the_ceiling_reports_which_limit_stopped_it"
  by code_simp

lemma an_unknown_operation_does_not_end_the_connection_passes: "an_unknown_operation_does_not_end_the_connection"
  by code_simp

lemma shutdown_ends_the_connection_and_says_so_passes: "shutdown_ends_the_connection_and_says_so"
  by code_simp

lemma two_connections_each_get_their_own_session_passes: "two_connections_each_get_their_own_session"
  by code_simp

lemma a_session_naming_an_unregistered_database_reports_it_passes: "a_session_naming_an_unregistered_database_reports_it"
  by code_simp

lemma a_database_path_is_refused_rather_than_resolved_passes: "a_database_path_is_refused_rather_than_resolved"
  by code_simp

lemma a_query_past_its_timeout_is_stopped_passes: "a_query_past_its_timeout_is_stopped"
  by code_simp

lemma a_query_within_its_timeout_completes_passes: "a_query_within_its_timeout_completes"
  by code_simp

end
