(* ===== verification/Spec2Isabelle.thy ===== *)
theory Spec2Isabelle
  imports FrameProps MessageProps CatalogProps CatalogType SessionProps ServeSafety RegionEquiv
    SystemProps StoreProps AcceptProps EndProps HostProps OpenProps
    ServerProps Unanswered Exchange
    FrameTests MessageTests CatalogTests SessionTests LockTests
    ConversationTests
begin

text \<open>
  The NostDB per-user local daemon: a shallow embedding of \<open>src/\<close> and the theorems that make
  it correct.

  \<^bold>\<open>The program.\<close> One process per user serves named databases over a Unix socket. It takes an
  advisory lock, binds the socket and accepts connections, each in a thread of its own. A
  connection opens with a handshake on the protocol version; then frames of JSON are decoded into
  requests and answered one by one. A connection holds at most one session, which is one open
  database of the Engine; \<open>begin\<close> puts it in a transaction region until \<open>commit\<close>, \<open>rollback\<close> or
  the end of the connection. Names of databases come from a catalog, a JSON file that other
  processes rewrite.

  \<^bold>\<open>Parameters.\<close> Two dependencies are not under \<open>src/\<close>. \<open>textlib\<close> (theory \<open>Json\<close>) is
  \<open>serde_json\<close>'s text side, the parser and the printers; its value type is modelled as the program
  matches on it. \<open>engine\<close> (theory \<open>Engine\<close>) is \<open>nostdb-core\<close>, one field for each call the daemon
  makes of it, over a world \<open>'w\<close> that every call may change. No law of either is assumed, except
  where a theorem names one as a hypothesis.

  \<^bold>\<open>The theories, by component.\<close>

  \<^item> \<open>Prelude\<close>: result values, UTF-8 in full (validation and lossy decoding), numbers as text, paths
    as OS strings. \<open>OrdMap\<close>: \<open>BTreeMap\<close> as a sorted association list; the locale \<open>ordered_map\<close> is its
    contract and \<open>bt\<close> its interpretation. \<open>Json\<close>: values and the text library. \<open>Diagnostic\<close>:
    \<open>diagnostic.rs\<close>.
  \<^item> \<open>Frame\<close>: \<open>frame.rs\<close>. The transport is a script of chunks, interruptions and errors; the two
    loops recurse on its size. \<open>FrameSpec\<close> has the parser of a byte sequence as the specification and
    the locale \<open>framing\<close> (a message written is a message read, with the rest of the bytes intact),
    interpreted as \<open>fr\<close>; \<open>FrameProps\<close> has the round trip, the refinement and the bounds.
  \<^item> \<open>Message\<close>, \<open>MessageProps\<close>: \<open>message.rs\<close>; which requests are accepted, in which order the rules
    of the contract are broken, and how versions are negotiated.
  \<^item> \<open>Catalog\<close>: the parser, mutations and document of \<open>catalog.rs\<close>. \<open>CatalogSpec\<close> has the invariant and
    the meaning of a document, \<open>CatalogProps\<close> the claims, \<open>CatalogType\<close> that what is written is JSON.
  \<^item> \<open>Engine\<close>, \<open>Session\<close>, \<open>SessionProps\<close>: \<open>session.rs\<close>, the slot of a connection.
  \<^item> \<open>Serve\<close>: \<open>serve.rs\<close>, from the handshake to the end of a connection. \<open>ConnSpec\<close> states it as a
    machine on messages with two modes, \<open>Outside\<close> and \<open>Inside\<close> a region; \<open>ConnRefine\<close> is the
    simulation. \<open>EngineProtocol\<close> logs the Engine's calls and has the locale \<open>engine_protocol\<close> (laws
    of the calls against a phase), interpreted as \<open>tr\<close> on the logged Engine; \<open>EngineMap\<close> that the
    logged run is the run; \<open>RegionTrace\<close> the calls of a region. \<open>ServeProps\<close>, \<open>ServeSafety\<close> and
    \<open>RegionEquiv\<close> are the claims. \<open>Exchange\<close> accounts for a conversation from its messages and replies
    alone: which reply each message gets, what of it must arrive for the connection to go on, and how it ends.
  \<^item> \<open>FileSystem\<close>: the system calls over a file system with handles and advisory locks, and programs
    as trees of calls. \<open>Alone\<close>: evaluating a program with nothing refused. \<open>Pool\<close>: any number of
    processes interleaved call by call, with faults and crashes; the locale \<open>pool\<close> proves an
    invariant from a monitor per process, which every call moves on and the result finishes.
  \<^item> \<open>Lock\<close>, \<open>Endpoint\<close>, \<open>CatalogStore\<close>, \<open>Daemon\<close>: \<open>lock.rs\<close>, \<open>endpoint.rs\<close>, \<open>store\<close>, \<open>load\<close> and
    \<open>default_path\<close> of \<open>catalog.rs\<close>, \<open>lib.rs\<close> and \<open>main.rs\<close> as such programs. \<open>Discipline\<close> is what each
    process does whatever the system answers; \<open>System\<close> interprets \<open>pool\<close> for the processes of one user
    (\<open>daemons\<close>), \<open>StorePool\<close> for the writers and readers of a catalog (\<open>stores\<close>). \<open>StartProps\<close>,
    \<open>SystemProps\<close> and \<open>StoreProps\<close> are the claims.
  \<^item> \<open>Accept\<close>, \<open>AcceptProps\<close>: the accept loop of \<open>lib.rs\<close>, its threads, flag and waking connection,
    as a step relation; liveness over fair runs.
  \<^item> \<open>ConnLife\<close>: a connection as a machine that takes one arrival at a time, a message or the end of its
    stream. \<open>Host\<close>: the daemon with its connections, the accept loop and any number of such
    machines over one world, interleaved between any two Engine calls. \<open>EngineSim\<close> has the locale
    \<open>engine_sim\<close>, by which a connection among others runs as it runs alone on the worlds its calls
    find, interpreted as \<open>view_sim\<close>; \<open>HostInv\<close> is the invariant, \<open>HostDemo\<close> a run of two clients,
    and \<open>HostProps\<close> the claims.
  \<^item> \<open>Server\<close>: the specification of the daemon as a transactional server, and what is asked of the
    Engine for it (\<open>transactional\<close>: only a successful commit changes what is committed, and it commits
    the transaction's own work). \<open>Threads\<close>: the threads of the daemon with every Engine call a step of
    its own, and the refinement; \<open>ServerRefine\<close> has the steps of the specification that one call
    makes. \<open>ThreadHost\<close>: every such interleaving is a run of \<open>Host\<close>. \<open>Quiet\<close> has the locale
    \<open>quiet_engine\<close>, what a connection keeps while it may not commit, interpreted as \<open>qu\<close> on the logged
    Engine; \<open>ThreadQuiet\<close> that nothing else changes the disk. \<open>ServerDemo\<close> and \<open>ThreadDemo\<close> are a small
    Engine and two clients whose calls interleave, \<open>ServerProps\<close> the claims.
  \<^item> \<open>Unanswered\<close>: the messages that \<open>serve.rs\<close> leaves without a reply.
  \<^item> \<open>TextType\<close>, \<open>ReplyType\<close>: every text and every reply the daemon makes is UTF-8, given that those of the
    two dependencies are. \<open>OpenProps\<close>: \<open>open_session\<close> against the writers of the catalog.
  \<^item> \<open>EndProps\<close>: the handles a process was given and has not closed, with \<open>pool\<close> interpreted for them
    (\<open>releasing\<close>): a process that has come to its end has given everything back.
  \<^item> \<open>FrameTests\<close>, \<open>MessageTests\<close>, \<open>CatalogTests\<close>, \<open>SessionTests\<close>, \<open>LockTests\<close>: the test modules of the source
    files, each test as a truth value over the definitions, and that the definitions pass it;
    \<open>ConversationTests\<close>: the conversations of \<open>tests/conversation.rs\<close>, with a small Engine in place of
    the real one. They tie the model to what the code's authors expect of the code.

  \<^bold>\<open>Loops and bounds.\<close> No fuel is used. A loop over a transport terminates because every frame or
  retry consumes part of the script of what the transport does, which is finite; a transport that
  never ends is the union of its finite scripts. The accept loop does not return by itself, so it is
  a relation, and that it returns is a theorem. Frame lengths are \<open>u32\<close> and versions, generations and
  the session counter \<open>u64\<close>, with wrap-around; the counter panics on overflow in a debug build,
  which needs \<open>2 ^ 64\<close> sessions on one connection. Lengths in memory are \<open>nat\<close>.

  \<^bold>\<open>Abstractions.\<close> A path's key is its components: symbolic links and \<open>..\<close> are not resolved. A
  call of the file system is atomic but for a fault in the middle of a write or of making
  directories. The process identifier that names the temporary file of a store is shared by the
  threads of a process, so a pool has one store per process at a time. The connections of one
  daemon meet through the Engine and the file system, that is, through the world: in \<open>Host\<close> the
  world a connection finds at each of its Engine calls is any that the relation \<open>others\<close> allows
  after the one its last call left. In \<open>Threads\<close> each call is a step and the threads take theirs in
  any order; what a thread does with an arrival is chosen with the worlds its calls will find, and
  its next call is made when the shared world is the one chosen. An Engine call itself is atomic.

  \<^bold>\<open>Not modelled.\<close> \<open>Debug\<close> renderings; accessors and conversions that return or wrap one field, which
  are the selectors and constructors here; the two conversation tests about the socket pair of the
  harness and the accept loop; the conformance tests, whose fixtures are another repository's;
  scripts and build files; the insides of \<open>nostdb-core\<close> and \<open>serde_json\<close>. On platforms other than Unix
  the crate does not build: \<open>Endpoint\<close> and \<open>Lock\<close> have the two functions it has for them.
\<close>

end
